(* ===== verification/Prelude.thy ===== *)
theory Prelude
  imports Main "HOL-Library.Word" "HOL-Library.Sublist"
begin

text \<open>
  The shared vocabulary of the development: the error values a C handler can end in, the
  sequencing of handlers that may fail, the pieces of the C library the sources use on strings
  (\<^verbatim>\<open>strstr\<close>, \<^verbatim>\<open>strtol\<close>, \<^verbatim>\<open>snprintf\<close> with \<^verbatim>\<open>%d\<close> and \<^verbatim>\<open>%u\<close>), the dictionaries of libqb as
  association lists, and the lemma collections that the component theories extend.
\<close>

section \<open>Lemma collections\<close>

named_theorems res_simps \<open>evaluation of sequenced handlers\<close>
named_theorems frame_simps \<open>fields an operation leaves alone\<close>
named_theorems str_simps \<open>strings of the C library\<close>

section \<open>Results: every way a handler can end\<close>

text \<open>
  A handler either ends in a new state or in one of the failures below: the dereference of a NULL
  pointer, of a pointer whose object was freed (or of an object freed twice), a failed
  \<^verbatim>\<open>assert\<close>, or a write past the end of a fixed buffer.
\<close>

datatype err = NullDeref | BadPtr | AssertFail | BufferOverflow

type_synonym 'a res = "err + 'a"

definition bindE :: "'a res \<Rightarrow> ('a \<Rightarrow> 'b res) \<Rightarrow> 'b res" where
  "bindE m f = (case m of Inl e \<Rightarrow> Inl e | Inr x \<Rightarrow> f x)"

definition derefE :: "err \<Rightarrow> 'a option \<Rightarrow> 'a res" where
  "derefE e p = (case p of None \<Rightarrow> Inl e | Some x \<Rightarrow> Inr x)"

definition assertE :: "bool \<Rightarrow> 's \<Rightarrow> 's res" where
  "assertE b s = (if b then Inr s else Inl AssertFail)"

fun foldE :: "('a \<Rightarrow> 's \<Rightarrow> 's res) \<Rightarrow> 'a list \<Rightarrow> 's \<Rightarrow> 's res" where
  "foldE f [] s = Inr s"
| "foldE f (x # xs) s = bindE (f x s) (foldE f xs)"

lemma bindE_simps [simp, res_simps]:
  "bindE (Inl e) f = Inl e"
  "bindE (Inr x) f = f x"
  by (simp_all add: bindE_def)

lemma bindE_eq_Inr [res_simps]: "bindE m f = Inr y \<longleftrightarrow> (\<exists>x. m = Inr x \<and> f x = Inr y)"
  by (cases m) auto

lemma bindE_assoc: "bindE (bindE m f) g = bindE m (\<lambda>x. bindE (f x) g)"
  by (cases m) auto

lemma derefE_simps [simp, res_simps]:
  "derefE e None = Inl e"
  "derefE e (Some x) = Inr x"
  by (simp_all add: derefE_def)

lemma derefE_eq_Inr [res_simps]: "derefE e p = Inr x \<longleftrightarrow> p = Some x"
  by (cases p) auto

lemma assertE_eq_Inr [res_simps]: "assertE b s = Inr t \<longleftrightarrow> b \<and> t = s"
  by (auto simp: assertE_def)

lemma assertE_True [simp]: "assertE True s = Inr s"
  by (simp add: assertE_def)

lemma foldE_append: "foldE f (xs @ ys) s = bindE (foldE f xs s) (foldE f ys)"
proof (induction xs arbitrary: s)
  case (Cons x xs)
  then have "foldE f (xs @ ys) = (\<lambda>u. bindE (foldE f xs u) (foldE f ys))" by blast
  then show ?case by (simp add: bindE_assoc)
qed simp

text \<open>A loop keeps what each of its rounds keeps.\<close>

lemma foldE_invariant:
  assumes "foldE f xs s = Inr t" and "P s"
    and "\<And>x u v. x \<in> set xs \<Longrightarrow> P u \<Longrightarrow> f x u = Inr v \<Longrightarrow> P v"
  shows "P t"
  using assms
proof (induction xs arbitrary: s)
  case Nil
  then show ?case by simp
next
  case (Cons x xs)
  from Cons.prems(1) obtain u where u: "f x s = Inr u" "foldE f xs u = Inr t"
    by (auto simp: bindE_eq_Inr)
  with Cons.prems have "P u" by (meson list.set_intros(1))
  with u Cons.IH Cons.prems(3) show ?case by (meson list.set_intros(2))
qed

subsection \<open>Partial correctness of a handler\<close>

text \<open>
  \<open>okE P m\<close>: if the handler ends without an error, its result satisfies \<open>P\<close>. The rules below take a
  handler apart along its sequencing, so that a property of a large handler follows from the
  properties of the operations it calls.
\<close>

definition okE :: "('a \<Rightarrow> bool) \<Rightarrow> 'a res \<Rightarrow> bool" where
  "okE P m \<longleftrightarrow> (\<forall>x. m = Inr x \<longrightarrow> P x)"

named_theorems okE_intros \<open>taking a handler apart\<close>

lemma okE_D: "okE P m \<Longrightarrow> m = Inr x \<Longrightarrow> P x"
  by (simp add: okE_def)

lemma okE_I: "(\<And>x. m = Inr x \<Longrightarrow> P x) \<Longrightarrow> okE P m"
  by (simp add: okE_def)

lemma okE_Inl [simp, okE_intros]: "okE P (Inl e)"
  by (simp add: okE_def)

lemma okE_Inr [simp]: "okE P (Inr x) = P x"
  by (simp add: okE_def)

lemma okE_Inr_I [okE_intros]: "P x \<Longrightarrow> okE P (Inr x)"
  by simp

lemma okE_bind: "okE Q m \<Longrightarrow> (\<And>x. Q x \<Longrightarrow> okE P (f x)) \<Longrightarrow> okE P (bindE m f)"
  by (cases m) (auto simp: okE_def)

lemma okE_bind_get: "(\<And>x. m = Inr x \<Longrightarrow> okE P (f x)) \<Longrightarrow> okE P (bindE m f)"
  by (cases m) auto

lemma okE_mono: "okE Q m \<Longrightarrow> (\<And>x. Q x \<Longrightarrow> P x) \<Longrightarrow> okE P m"
  by (simp add: okE_def)

lemma okE_if [okE_intros]: "(b \<Longrightarrow> okE P m) \<Longrightarrow> (\<not> b \<Longrightarrow> okE P n) \<Longrightarrow> okE P (if b then m else n)"
  by simp

lemma okE_let [okE_intros]: "(\<And>y. y = x \<Longrightarrow> okE P (f y)) \<Longrightarrow> okE P (let y = x in f y)"
  by (simp add: Let_def)

lemma okE_option [okE_intros]:
  "(x = None \<Longrightarrow> okE P m) \<Longrightarrow> (\<And>y. x = Some y \<Longrightarrow> okE P (f y)) \<Longrightarrow>
   okE P (case x of None \<Rightarrow> m | Some y \<Rightarrow> f y)"
  by (cases x) auto

lemma okE_prod [okE_intros]:
  "(\<And>a b. x = (a, b) \<Longrightarrow> okE P (f a b)) \<Longrightarrow> okE P (case x of (a, b) \<Rightarrow> f a b)"
  by (cases x) auto

lemma okE_list [okE_intros]:
  "(x = [] \<Longrightarrow> okE P m) \<Longrightarrow> (\<And>y ys. x = y # ys \<Longrightarrow> okE P (f y ys)) \<Longrightarrow>
   okE P (case x of [] \<Rightarrow> m | y # ys \<Rightarrow> f y ys)"
  by (cases x) auto

lemma okE_deref [okE_intros]:
  "(\<And>x. p = Some x \<Longrightarrow> okE P (f x)) \<Longrightarrow> okE P (bindE (derefE e p) f)"
  by (cases p) auto

lemma okE_assert_bind [okE_intros]: "(b \<Longrightarrow> okE P (f s)) \<Longrightarrow> okE P (bindE (assertE b s) f)"
  by (simp add: assertE_def)

lemma okE_assert: "(b \<Longrightarrow> P s) \<Longrightarrow> okE P (assertE b s)"
  by (simp add: assertE_def okE_def)

lemma okE_foldE:
  assumes "P s" and "\<And>x u. x \<in> set xs \<Longrightarrow> P u \<Longrightarrow> okE P (f x u)"
  shows "okE P (foldE f xs s)"
  using assms foldE_invariant [of f xs s _ P] by (auto simp: okE_def)

text \<open>
  \<open>keeps V f\<close>: the handler leaves the part \<open>V\<close> of the state alone.
\<close>

definition keeps :: "('s \<Rightarrow> 'v) \<Rightarrow> ('s \<Rightarrow> 's res) \<Rightarrow> bool" where
  "keeps V f \<longleftrightarrow> (\<forall>s. okE (\<lambda>s'. V s' = V s) (f s))"

named_theorems keep_rules \<open>operations that leave a view of the state alone\<close>

lemma keeps_I: "(\<And>s. okE (\<lambda>s'. V s' = V s) (f s)) \<Longrightarrow> keeps V f"
  by (simp add: keeps_def)

lemma keeps_D: "keeps V f \<Longrightarrow> f s = Inr s' \<Longrightarrow> V s' = V s"
  by (simp add: keeps_def okE_def)

lemma keeps_okE: "keeps V f \<Longrightarrow> V s = v \<Longrightarrow> okE (\<lambda>s'. V s' = v) (f s)"
  by (auto simp: keeps_def okE_def)

lemma keep_bind:
  "okE (\<lambda>u. V u = v) m \<Longrightarrow> (\<And>u. V u = v \<Longrightarrow> okE (\<lambda>s'. V s' = v) (f u)) \<Longrightarrow>
   okE (\<lambda>s'. V s' = v) (bindE m f)"
  by (rule okE_bind)

lemma keeps_foldE: "(\<And>x. x \<in> set xs \<Longrightarrow> keeps V (f x)) \<Longrightarrow> keeps V (foldE f xs)"
  by (auto simp: keeps_def intro!: okE_foldE) (metis (mono_tags, lifting) okE_def)

section \<open>Machine integers\<close>

type_synonym u32 = "32 word"

text \<open>
  The conversion of a \<^verbatim>\<open>long\<close> to an \<^verbatim>\<open>int\<close> keeps the low 32 bits, read in two's complement.
\<close>

definition int32_of :: "int \<Rightarrow> int" where
  "int32_of v = sint (word_of_int v :: u32)"

lemma int32_of_small: "- (2 ^ 31) \<le> v \<Longrightarrow> v < 2 ^ 31 \<Longrightarrow> int32_of v = v"
  by (simp add: int32_of_def sint_sbintrunc' signed_take_bit_int_eq_self)

lemma int32_of_range: "- (2 ^ 31) \<le> int32_of v \<and> int32_of v < 2 ^ 31"
  using sint_range_size [of "word_of_int v :: u32"] by (simp add: int32_of_def word_size)

section \<open>Strings of the C library\<close>

text \<open>\<^verbatim>\<open>strstr(h, n) != NULL\<close>: the needle occurs somewhere in the haystack.\<close>

fun strstr :: "string \<Rightarrow> string \<Rightarrow> bool" where
  "strstr [] n = (n = [])"
| "strstr (c # cs) n = (prefix n (c # cs) \<or> strstr cs n)"

lemma strstr_sublist: "strstr h n \<longleftrightarrow> sublist n h"
  by (induction h) (auto simp: sublist_Cons_right)

lemma strstr_refl_append [simp]: "strstr (xs @ n @ ys) n"
  by (auto simp: strstr_sublist sublist_def)

text \<open>\<^verbatim>\<open>snprintf(buf, n, ...)\<close> keeps at most \<open>n - 1\<close> characters.\<close>

definition snprintf :: "nat \<Rightarrow> string \<Rightarrow> string" where
  "snprintf n str = take (n - 1) str"

lemma snprintf_fits [str_simps]: "length str < n \<Longrightarrow> snprintf n str = str"
  by (simp add: snprintf_def)

lemma snprintf_length: "0 < n \<Longrightarrow> length (snprintf n str) < n"
  by (simp add: snprintf_def)

text \<open>Decimal digits, as \<^verbatim>\<open>%d\<close> and \<^verbatim>\<open>%u\<close> print them.\<close>

definition digit :: "nat \<Rightarrow> char" where
  "digit d = char_of (48 + d)"

definition is_digit :: "char \<Rightarrow> bool" where
  "is_digit c \<longleftrightarrow> 48 \<le> (of_char c :: nat) \<and> of_char c \<le> (57 :: nat)"

definition digit_val :: "char \<Rightarrow> nat" where
  "digit_val c = of_char c - 48"

fun show_nat :: "nat \<Rightarrow> string" where
  "show_nat n = (if n < 10 then [digit n] else show_nat (n div 10) @ [digit (n mod 10)])"

declare show_nat.simps [simp del]

definition show_int :: "int \<Rightarrow> string" where
  "show_int i = (if i < 0 then CHR ''-'' # show_nat (nat (- i)) else show_nat (nat i))"

text \<open>\<^verbatim>\<open>%d\<close> applied to a 32-bit value reads it in two's complement.\<close>

definition show_d :: "u32 \<Rightarrow> string" where
  "show_d w = show_int (sint w)"

fun read_nat :: "nat \<Rightarrow> string \<Rightarrow> nat" where
  "read_nat acc [] = acc"
| "read_nat acc (c # cs) = read_nat (10 * acc + digit_val c) cs"

lemma is_digit_digit [simp]: "d < 10 \<Longrightarrow> is_digit (digit d)"
  by (simp add: is_digit_def digit_def)

lemma digit_val_digit [simp]: "d < 10 \<Longrightarrow> digit_val (digit d) = d"
  by (simp add: digit_val_def digit_def)

lemma read_nat_append [simp]: "read_nat acc (xs @ ys) = read_nat (read_nat acc xs) ys"
  by (induction xs arbitrary: acc) auto

lemma show_nat_nonempty [simp]: "show_nat n \<noteq> []"
  by (subst show_nat.simps) simp

lemma show_nat_digits: "c \<in> set (show_nat n) \<Longrightarrow> is_digit c"
proof (induction n rule: show_nat.induct)
  case (1 n)
  show ?case
  proof (cases "n < 10")
    case True
    with "1.prems" show ?thesis by (simp add: show_nat.simps [of n])
  next
    case False
    with "1.prems" have "c \<in> set (show_nat (n div 10)) \<or> c = digit (n mod 10)"
      by (auto simp: show_nat.simps [of n])
    with "1.IH" False show ?thesis by auto
  qed
qed

lemma read_show_nat [simp]: "read_nat 0 (show_nat n) = n"
proof (induction n rule: show_nat.induct)
  case (1 n)
  then show ?case by (cases "n < 10") (simp_all add: show_nat.simps [of n])
qed

lemma show_nat_inj: "show_nat m = show_nat n \<longleftrightarrow> m = n"
  by (metis read_show_nat)

lemma minus_not_digit [simp]: "\<not> is_digit CHR ''-''"
  by (simp add: is_digit_def)

lemma show_int_inj: "show_int i = show_int j \<longleftrightarrow> i = j"
proof -
  have minus: "CHR ''-'' \<notin> set (show_nat n)" for n
    using show_nat_digits [of "CHR ''-''" n] by auto
  have "CHR ''-'' # xs \<noteq> show_nat n" for xs n
    using minus [of n] by (metis list.set_intros(1))
  then show ?thesis
    by (auto simp: show_int_def show_nat_inj dest: sym)
qed

lemma show_d_inj: "show_d v = show_d w \<longleftrightarrow> v = w"
  by (auto simp: show_d_def show_int_inj intro: signed_word_eqI)

text \<open>
  \<^verbatim>\<open>strtol(s, &endptr, 10)\<close>: leading white space, an optional sign, then decimal digits; the
  result is the value clamped to the range of \<^verbatim>\<open>long\<close>, whether it was clamped (\<^verbatim>\<open>ERANGE\<close>), and
  whether any digit was read (otherwise \<^verbatim>\<open>endptr == s\<close>).
\<close>

definition is_space :: "char \<Rightarrow> bool" where
  "is_space c \<longleftrightarrow> c = CHR '' '' \<or> (9 \<le> (of_char c :: nat) \<and> of_char c \<le> (13 :: nat))"

definition LONG_MAX :: int where "LONG_MAX = 2 ^ 63 - 1"
definition LONG_MIN :: int where "LONG_MIN = - (2 ^ 63)"

record strtol_result =
  st_val :: int
  st_erange :: bool
  st_noconv :: bool

definition strtol :: "string \<Rightarrow> strtol_result" where
  "strtol str =
     (let body = dropWhile is_space str;
          neg = (body \<noteq> [] \<and> hd body = CHR ''-'');
          rest = (if body \<noteq> [] \<and> hd body \<in> {CHR ''-'', CHR ''+''} then tl body else body);
          ds = takeWhile is_digit rest;
          v = (if neg then - int (read_nat 0 ds) else int (read_nat 0 ds))
      in if ds = [] then \<lparr>st_val = 0, st_erange = False, st_noconv = True\<rparr>
         else if LONG_MAX < v then \<lparr>st_val = LONG_MAX, st_erange = True, st_noconv = False\<rparr>
         else if v < LONG_MIN then \<lparr>st_val = LONG_MIN, st_erange = True, st_noconv = False\<rparr>
         else \<lparr>st_val = v, st_erange = False, st_noconv = False\<rparr>)"

lemma digit_not_space: "is_digit c \<Longrightarrow> \<not> is_space c \<and> c \<noteq> CHR ''-'' \<and> c \<noteq> CHR ''+''"
  by (auto simp: is_digit_def is_space_def)

text \<open>What \<^verbatim>\<open>%d\<close> printed, \<^verbatim>\<open>strtol\<close> reads back.\<close>

lemma takeWhile_digit_show_nat [simp]: "takeWhile is_digit (show_nat n) = show_nat n"
  using show_nat_digits by (simp add: takeWhile_eq_all_conv)

lemma hd_show_nat: "is_digit (hd (show_nat n))"
  using show_nat_digits [of "hd (show_nat n)" n] by simp

lemma dropWhile_space_show_nat [simp]: "dropWhile is_space (show_nat n) = show_nat n"
  using hd_show_nat [of n] by (cases "show_nat n") (auto dest: digit_not_space)

lemma strtol_show_nonneg:
  "int n \<le> LONG_MAX \<Longrightarrow> strtol (show_nat n) = \<lparr>st_val = int n, st_erange = False, st_noconv = False\<rparr>"
  using digit_not_space [OF hd_show_nat, of n] by (simp add: strtol_def LONG_MIN_def)

lemma strtol_show_neg:
  assumes "LONG_MIN \<le> - int n"
  shows "strtol (CHR ''-'' # show_nat n) = \<lparr>st_val = - int n, st_erange = False, st_noconv = False\<rparr>"
proof -
  have "\<not> LONG_MAX < - int n" by (simp add: LONG_MAX_def)
  with assms show ?thesis by (simp add: strtol_def is_space_def)
qed

lemma strtol_show_int:
  assumes "LONG_MIN \<le> i" and "i \<le> LONG_MAX"
  shows "strtol (show_int i) = \<lparr>st_val = i, st_erange = False, st_noconv = False\<rparr>"
  using assms strtol_show_neg [of "nat (- i)"] strtol_show_nonneg [of "nat i"]
  by (auto simp: show_int_def)

section \<open>Dictionaries of libqb\<close>

text \<open>
  A \<^verbatim>\<open>qb_map_t\<close> holds one value per string key; it is an association list with distinct keys. The
  order in which the library's iterator visits the keys is left to the environment of the model.
\<close>

type_synonym 'v qb_map = "(string \<times> 'v) list"

definition qb_map_get :: "'v qb_map \<Rightarrow> string \<Rightarrow> 'v option" where
  "qb_map_get m k = map_of m k"

fun qb_map_put :: "string \<Rightarrow> 'v \<Rightarrow> 'v qb_map \<Rightarrow> 'v qb_map" where
  "qb_map_put k v [] = [(k, v)]"
| "qb_map_put k v ((k', v') # m) = (if k = k' then (k, v) # m else (k', v') # qb_map_put k v m)"

definition qb_map_rm :: "string \<Rightarrow> 'v qb_map \<Rightarrow> 'v qb_map" where
  "qb_map_rm k m = filter (\<lambda>(k', v). k' \<noteq> k) m"

definition qb_keys :: "'v qb_map \<Rightarrow> string list" where
  "qb_keys m = map fst m"

definition qb_map_ok :: "'v qb_map \<Rightarrow> bool" where
  "qb_map_ok m \<longleftrightarrow> distinct (qb_keys m)"

lemma qb_map_get_Nil [simp]: "qb_map_get [] k = None"
  by (simp add: qb_map_get_def)

lemma qb_map_get_put [simp]:
  "qb_map_get (qb_map_put k v m) k' = (if k' = k then Some v else qb_map_get m k')"
  by (induction m) (auto simp: qb_map_get_def)

lemma qb_map_get_rm [simp]:
  "qb_map_get (qb_map_rm k m) k' = (if k' = k then None else qb_map_get m k')"
  by (induction m) (auto simp: qb_map_get_def qb_map_rm_def)

lemma set_qb_keys: "set (qb_keys m) = dom (qb_map_get m)"
  by (auto simp: qb_keys_def qb_map_get_def dom_map_of_conv_image_fst [symmetric] dom_def)

lemma qb_keys_put: "qb_keys (qb_map_put k v m) = (if k \<in> set (qb_keys m) then qb_keys m else qb_keys m @ [k])"
  by (induction m) (fastforce simp: qb_keys_def)+

lemma qb_keys_rm: "qb_keys (qb_map_rm k m) = filter (\<lambda>k'. k' \<noteq> k) (qb_keys m)"
  by (induction m) (auto simp: qb_keys_def qb_map_rm_def)

lemma qb_map_ok_Nil [simp]: "qb_map_ok []"
  by (simp add: qb_map_ok_def qb_keys_def)

lemma qb_map_ok_put [simp]: "qb_map_ok m \<Longrightarrow> qb_map_ok (qb_map_put k v m)"
  by (simp add: qb_map_ok_def qb_keys_put)

lemma qb_map_ok_rm [simp]: "qb_map_ok m \<Longrightarrow> qb_map_ok (qb_map_rm k m)"
  by (simp add: qb_map_ok_def qb_keys_rm)

end
