(* ===== verification/C_Float.thy ===== *)
theory C_Float
  imports Prelude "HOL-Library.Log_Nat"
begin

text \<open>
  Single-precision arithmetic as far as \<^verbatim>\<open>recover.c\<close> uses it: a non-negative ratio rounded to the
  nearest value with a 24-bit significand, ties to even. A value \<open>v\<close> is held as the natural number
  \<open>v * 2 ^ 88\<close>; every value from \<open>2 ^ (-64)\<close> upwards is rounded exactly as IEEE binary32 rounds
  it, which covers a count of microseconds and its quotient by a million.
\<close>

section \<open>Rounding\<close>

definition round_half_even :: "nat \<Rightarrow> nat \<Rightarrow> nat" where
  "round_half_even n d =
     (let q = n div d; r = n mod d
      in if 2 * r < d then q else if d < 2 * r then Suc q
         else if even q then q else Suc q)"

definition float_exp :: "nat \<Rightarrow> nat \<Rightarrow> nat" where
  "float_exp n d = floorlog 2 (n * 2 ^ 64 div d)"

definition float32 :: "nat \<Rightarrow> nat \<Rightarrow> nat" where
  "float32 n d = round_half_even (n * 2 ^ 88) (d * 2 ^ float_exp n d) * 2 ^ float_exp n d"

text \<open>\<^verbatim>\<open>float p = us; p /= 1000000; p <= period\<close>\<close>

definition us_in_sec_float :: "nat \<Rightarrow> nat" where
  "us_in_sec_float us = float32 (float32 us 1) (2 ^ 88 * 1000000)"

definition float_le_secs :: "nat \<Rightarrow> nat \<Rightarrow> bool" where
  "float_le_secs us period \<longleftrightarrow> us_in_sec_float us \<le> float32 period 1"

section \<open>Rounding is monotone and keeps representable values\<close>

lemma round_half_even_le: "round_half_even n d \<le> Suc (n div d)"
  by (simp add: round_half_even_def Let_def)

lemma round_half_even_ge: "n div d \<le> round_half_even n d"
  by (simp add: round_half_even_def Let_def)

lemma round_half_even_exact: "0 < d \<Longrightarrow> round_half_even (q * d) d = q"
  by (simp add: round_half_even_def)

lemma ratio_div_mono:
  fixes a b a' b' :: nat
  assumes "a * b' \<le> a' * b" and "0 < b" and "0 < b'"
  shows "a div b \<le> a' div b'"
proof -
  have "a div b * b * b' \<le> a * b'" by (simp add: mult_le_mono1)
  with assms(1) have "(a div b * b') * b \<le> a' * b" by (metis le_trans mult.assoc mult.commute)
  with assms(2) have "a div b * b' \<le> a'" by (metis mult_le_cancel2)
  with assms(3) show ?thesis by (simp add: less_eq_div_iff_mult_less_eq)
qed

lemma ratio_mod_mono:
  fixes a b a' b' :: nat
  assumes "a * b' \<le> a' * b" and "a div b = a' div b'"
  shows "a mod b * b' \<le> a' mod b' * b"
proof -
  have "a * b' = a div b * b * b' + a mod b * b'"
    by (metis add_mult_distrib div_mult_mod_eq)
  moreover have "a' * b = a' div b' * b' * b + a' mod b' * b"
    by (metis add_mult_distrib div_mult_mod_eq)
  ultimately show ?thesis using assms by (simp add: ac_simps)
qed

lemma round_half_even_mono:
  assumes le: "a * b' \<le> a' * b" and b: "0 < b" and b': "0 < b'"
  shows "round_half_even a b \<le> round_half_even a' b'"
proof (cases "a div b = a' div b'")
  case False
  with ratio_div_mono [OF le b b'] have "Suc (a div b) \<le> a' div b'" by simp
  then show ?thesis
    using round_half_even_le [of a b] round_half_even_ge [of a' b'] by linarith
next
  case True
  let ?r = "a mod b" and ?r' = "a' mod b'"
  have r: "?r * b' \<le> ?r' * b" using ratio_mod_mono [OF le True] .
  have lt: "b' < 2 * ?r'" if "b < 2 * ?r"
  proof -
    have "b * b' < 2 * ?r * b'" using that b' by simp
    also have "\<dots> \<le> 2 * ?r' * b" using r by simp
    finally show ?thesis by (simp add: mult.commute)
  qed
  have eq: "b' \<le> 2 * ?r'" if "b \<le> 2 * ?r"
  proof -
    have "b * b' \<le> 2 * ?r * b'" using that by simp
    also have "\<dots> \<le> 2 * ?r' * b" using r by simp
    finally show ?thesis using b by (simp add: mult.commute)
  qed
  show ?thesis
    using True lt eq by (auto simp: round_half_even_def Let_def)
qed

lemma floorlog2_upper: "x < 2 ^ floorlog 2 x"
  using floorlog_bounds [where b = 2 and x = x] by (cases "x = 0") auto

lemma floorlog2_lower: "0 < x \<Longrightarrow> 2 ^ (floorlog 2 x - 1) \<le> x"
  using floorlog_bounds [where b = 2 and x = x] by auto

lemma float_exp_upper: "0 < d \<Longrightarrow> n * 2 ^ 64 < d * 2 ^ float_exp n d"
proof -
  assume d: "0 < d"
  have "n * 2 ^ 64 div d < 2 ^ float_exp n d"
    unfolding float_exp_def by (rule floorlog2_upper)
  with d show ?thesis by (metis div_less_iff_less_mult mult.commute)
qed

lemma float_exp_lower:
  assumes "0 < d" and "0 < float_exp n d"
  shows "d * 2 ^ (float_exp n d - 1) \<le> n * 2 ^ 64"
proof -
  have "0 < n * 2 ^ 64 div d"
  proof (rule ccontr)
    assume "\<not> 0 < n * 2 ^ 64 div d"
    then have "n * 2 ^ 64 div d = 0" by blast
    with assms(2) show False unfolding float_exp_def by (simp add: floorlog_def)
  qed
  then have "2 ^ (float_exp n d - 1) \<le> n * 2 ^ 64 div d"
    unfolding float_exp_def by (rule floorlog2_lower)
  with assms(1) show ?thesis by (metis less_eq_div_iff_mult_less_eq mult.commute)
qed

lemma float32_upper: "0 < d \<Longrightarrow> float32 n d \<le> 2 ^ 24 * 2 ^ float_exp n d"
proof -
  assume d: "0 < d"
  have "n * 2 ^ 88 < 2 ^ 24 * (d * 2 ^ float_exp n d)"
    using float_exp_upper [OF d, of n] by simp
  then have "n * 2 ^ 88 div (d * 2 ^ float_exp n d) < 2 ^ 24"
    using d by (simp add: div_less_iff_less_mult)
  then have "round_half_even (n * 2 ^ 88) (d * 2 ^ float_exp n d) \<le> 2 ^ 24"
    using round_half_even_le [of "n * 2 ^ 88" "d * 2 ^ float_exp n d"] by linarith
  then show ?thesis by (simp add: float32_def)
qed

lemma float32_lower:
  assumes "0 < d" and "0 < float_exp n d"
  shows "2 ^ 23 * 2 ^ float_exp n d \<le> float32 n d"
proof -
  have "(2::nat) ^ float_exp n d = 2 * 2 ^ (float_exp n d - 1)"
    using assms(2) by (metis power_Suc Suc_diff_1)
  then have "2 ^ 23 * (d * 2 ^ float_exp n d) \<le> n * 2 ^ 88"
    using float_exp_lower [OF assms] by simp
  then have "2 ^ 23 \<le> n * 2 ^ 88 div (d * 2 ^ float_exp n d)"
    using assms(1) by (simp add: less_eq_div_iff_mult_less_eq)
  then show ?thesis
    using round_half_even_ge [of "n * 2 ^ 88" "d * 2 ^ float_exp n d"]
    by (simp add: float32_def)
qed

lemma float_exp_mono:
  assumes "n * d' \<le> n' * d" and "0 < d" and "0 < d'"
  shows "float_exp n d \<le> float_exp n' d'"
proof -
  have "n * 2 ^ 64 div d \<le> n' * 2 ^ 64 div d'"
    by (rule ratio_div_mono) (use assms in auto)
  then show ?thesis unfolding float_exp_def by (rule floorlog_mono)
qed

lemma float32_mono:
  assumes le: "n * d' \<le> n' * d" and d: "0 < d" and d': "0 < d'"
  shows "float32 n d \<le> float32 n' d'"
proof (cases "float_exp n d = float_exp n' d'")
  case True
  have "round_half_even (n * 2 ^ 88) (d * 2 ^ float_exp n d) \<le>
      round_half_even (n' * 2 ^ 88) (d' * 2 ^ float_exp n d)"
    by (rule round_half_even_mono) (use assms in auto)
  with True show ?thesis by (simp add: float32_def)
next
  case False
  with float_exp_mono [OF assms] have lt: "float_exp n d < float_exp n' d'" by simp
  then have "(2::nat) ^ Suc (float_exp n d) \<le> 2 ^ float_exp n' d'"
    by (intro power_increasing) auto
  then have "(2::nat) ^ 24 * 2 ^ float_exp n d \<le> 2 ^ 23 * 2 ^ float_exp n' d'" by simp
  then show ?thesis
    using float32_upper [OF d, of n] float32_lower [OF d', of n'] lt by linarith
qed

lemma float32_cong:
  "n * d' = n' * d \<Longrightarrow> 0 < d \<Longrightarrow> 0 < d' \<Longrightarrow> float32 n d = float32 n' d'"
  by (simp add: float32_mono order_antisym)

lemma float32_exact:
  assumes "0 < c" and "c < 2 ^ 24"
  shows "float32 (c * 2 ^ j) 1 = c * 2 ^ j * 2 ^ 88"
proof -
  let ?k = "float_exp (c * 2 ^ j) 1"
  have "2 ^ (?k - 1) \<le> c * 2 ^ j * 2 ^ 64"
    using float_exp_lower [of 1 "c * 2 ^ j"] assms(1) by (cases "?k = 0") auto
  also have "\<dots> < 2 ^ 24 * 2 ^ j * 2 ^ 64" using assms(2) by simp
  also have "\<dots> = 2 ^ (88 + j)" by (simp add: power_add)
  finally have "?k - 1 < 88 + j" by (rule power_less_imp_less_exp [rotated]) simp
  then have "?k \<le> 88 + j" by simp
  then have pow: "(2::nat) ^ (88 + j) = 2 ^ (88 + j - ?k) * 2 ^ ?k"
    by (simp flip: power_add)
  have "c * 2 ^ j * 2 ^ 88 = c * 2 ^ (88 + j)" by (simp add: power_add)
  also have "\<dots> = c * 2 ^ (88 + j - ?k) * 2 ^ ?k" using pow by simp
  finally have eq: "c * 2 ^ j * 2 ^ 88 = c * 2 ^ (88 + j - ?k) * 2 ^ ?k" .
  show ?thesis
    unfolding float32_def nat_mult_1 eq
    by (subst round_half_even_exact) simp_all
qed

section \<open>The comparison with a period\<close>

lemma us_in_sec_float_mono: "a \<le> b \<Longrightarrow> us_in_sec_float a \<le> us_in_sec_float b"
  unfolding us_in_sec_float_def by (intro float32_mono mult_le_mono1) auto

text \<open>No interval inside the period is lost to rounding, up to periods of 1073 seconds.\<close>

lemma float_le_secs_complete:
  assumes "0 < P" and "P \<le> 1073" and "us \<le> P * 1000000"
  shows "float_le_secs us P"
proof -
  have "P * 1000000 = (P * 15625) * 2 ^ 6" by simp
  moreover have "float32 ((P * 15625) * 2 ^ 6) 1 = (P * 15625) * 2 ^ 6 * 2 ^ 88"
    by (rule float32_exact) (use assms in auto)
  ultimately have exact: "float32 (P * 1000000) 1 = P * 1000000 * 2 ^ 88" by metis
  have "us_in_sec_float us \<le> us_in_sec_float (P * 1000000)"
    by (rule us_in_sec_float_mono [OF assms(3)])
  also have "\<dots> = float32 P 1"
    unfolding us_in_sec_float_def exact by (rule float32_cong) auto
  finally show ?thesis by (simp add: float_le_secs_def)
qed

text \<open>Up to 16 seconds a period is told apart from one that is a microsecond longer.\<close>

lemmas float_eval = float32_def us_in_sec_float_def float_exp_def compute_floorlog
  round_half_even_def

lemma float_gap:
  assumes "0 < P" and "P \<le> 16"
  shows "float32 P 1 < us_in_sec_float (P * 1000000 + 1)"
proof -
  have "P \<in> {1, 2, 3, 4, 5, 6, 7, 8, 9, 10, 11, 12, 13, 14, 15, 16}"
    using assms unfolding insert_iff empty_iff by presburger
  then show ?thesis by (elim insertE emptyE) (simp_all add: float_eval)
qed

lemma float_le_secs_exact:
  assumes "0 < P" and "P \<le> 16"
  shows "float_le_secs us P \<longleftrightarrow> us \<le> P * 1000000"
proof
  assume "float_le_secs us P"
  show "us \<le> P * 1000000"
  proof (rule ccontr)
    assume "\<not> us \<le> P * 1000000"
    then have "us_in_sec_float (P * 1000000 + 1) \<le> us_in_sec_float us"
      by (intro us_in_sec_float_mono) simp
    with float_gap [OF assms] \<open>float_le_secs us P\<close> show False
      by (auto simp: float_le_secs_def)
  qed
qed (use assms in \<open>auto intro: float_le_secs_complete\<close>)

end
