(* ===== verification/Recover.thy ===== *)
theory Recover
  imports C_Float
begin

text \<open>
  \<^verbatim>\<open>src/src/recover.c\<close> and its declarations in \<^verbatim>\<open>src/src/cape.h\<close>: the failure bookkeeping embedded in
  every node and every resource. A \<^verbatim>\<open>struct recover\<close> has the current state, the escalation limits
  and a stopwatch of libqb, which records one split per failure. The model keeps the function
  pointers of the struct as values of a type \<open>'cb\<close> and takes the code they point to as an argument.

  The stopwatch belongs to libqb: its operations are the argument \<open>'sw sw_ops\<close>, and what the code
  relies on is the locale \<open>stopwatch_api\<close>. \<open>sw_list_ops\<close> is one stopwatch that satisfies it.
\<close>

section \<open>Data\<close>

datatype recover_state =
    RECOVER_STATE_UNKNOWN
  | RECOVER_STATE_RUNNING
  | RECOVER_STATE_FAILED
  | RECOVER_STATE_STOPPED
  | RECOVER_STATE_UNRECOVERABLE

text \<open>
  The stopwatch operations of libqb that \<^verbatim>\<open>recover.c\<close> calls. The operations that read the clock take
  the reading (in microseconds) as an argument.
\<close>

record 'sw sw_ops =
  stopwatch_create :: "nat \<Rightarrow> 'sw"
  stopwatch_split_ctl :: "'sw \<Rightarrow> nat \<Rightarrow> 'sw"
  stopwatch_split :: "nat \<Rightarrow> 'sw \<Rightarrow> 'sw"
  stopwatch_split_last :: "'sw \<Rightarrow> nat"
  stopwatch_time_split_get :: "'sw \<Rightarrow> nat \<Rightarrow> nat \<Rightarrow> nat"
  stopwatch_start :: "nat \<Rightarrow> 'sw \<Rightarrow> 'sw"

record ('i, 'cb, 'sw) recover =
  rc_instance :: "'i option"
  rc_state :: recover_state
  num_failures :: int
  failure_period :: int
  rc_sw :: "'sw option"
  restart :: 'cb
  escalate :: 'cb
  state_changing :: "'cb option"

section \<open>Operations\<close>

definition ERANGE :: int where "ERANGE = 34"

text \<open>
  One of the two limits of \<open>recover_init\<close>, from its attribute string; \<^verbatim>\<open>errno\<close> goes in and comes out,
  since the code reads it without clearing it first.
\<close>

definition recover_limit :: "int \<Rightarrow> string option \<Rightarrow> int \<times> int" where
  "recover_limit errno attr =
     (case attr of
        None \<Rightarrow> (-1, errno)
      | Some str \<Rightarrow>
          (let r = strtol str;
               errno = (if st_erange r then ERANGE else errno);
               val = st_val r
           in if (errno = ERANGE \<and> (val = LONG_MAX \<or> val = LONG_MIN)) \<or>
                 (errno \<noteq> 0 \<and> val = 0) \<or> st_noconv r
              then (-1, errno)
              else (int32_of val, errno)))"

definition recover_init ::
  "'sw sw_ops \<Rightarrow> nat \<Rightarrow> int \<Rightarrow> string option \<Rightarrow> string option \<Rightarrow> 'cb \<Rightarrow> 'cb \<Rightarrow> 'cb option \<Rightarrow>
   ('i, 'cb, 'sw) recover \<Rightarrow> ('i, 'cb, 'sw) recover \<times> int" where
  "recover_init Q now errno escalation_failures escalation_period
     recover_restart recover_escalate recover_state_changing r =
     (let (nf, errno) = recover_limit errno escalation_failures;
          (fp, errno) = recover_limit errno escalation_period;
          r = r\<lparr>num_failures := nf, failure_period := fp,
                restart := recover_restart, escalate := recover_escalate,
                state_changing := recover_state_changing,
                rc_state := RECOVER_STATE_UNKNOWN, rc_sw := None\<rparr>
      in (if failure_period r > 0 \<and> num_failures r > 0
          then r\<lparr>rc_sw := Some (stopwatch_split_ctl Q (stopwatch_create Q now) (nat (num_failures r)))\<rparr>
          else r, errno))"

text \<open>
  The decision taken on a failure, once both limits are positive: record a split, and escalate when
  the last \<open>num_failures\<close> splits lie within \<open>failure_period\<close> seconds. \<open>now\<close> is the clock at the split,
  \<open>now'\<close> the clock when the stopwatch is started again.
\<close>

definition recover_escalating ::
  "'sw sw_ops \<Rightarrow> nat \<Rightarrow> nat \<Rightarrow> int \<Rightarrow> int \<Rightarrow> 'sw \<Rightarrow> bool \<times> 'sw" where
  "recover_escalating Q now now' nf fp w0 =
     (let w = stopwatch_split Q now w0;
          last = int (stopwatch_split_last Q w)
      in if last \<ge> nf - 1 \<and>
            float_le_secs (stopwatch_time_split_get Q w (nat last) (nat (last - (nf - 1)))) (nat fp)
         then (True, stopwatch_start Q now' w)
         else (False, w))"

text \<open>
  \<open>recover_state_set\<close> works on a struct embedded in a larger state: \<open>rd\<close> reads it and \<open>upd\<close> writes
  it. \<open>changing\<close> and \<open>call\<close> run the code behind a function pointer on the larger state.
  \<open>recover_failed\<close> is its second half, reached in the failed state only.
\<close>

definition recover_failed ::
  "'sw sw_ops \<Rightarrow> nat \<Rightarrow> nat \<Rightarrow>
   ('s \<Rightarrow> ('i, 'cb, 'sw) recover res) \<Rightarrow>
   ((('i, 'cb, 'sw) recover \<Rightarrow> ('i, 'cb, 'sw) recover) \<Rightarrow> 's \<Rightarrow> 's) \<Rightarrow>
   ('cb \<Rightarrow> 'i option \<Rightarrow> 's \<Rightarrow> 's res) \<Rightarrow> 's \<Rightarrow> 's res" where
  "recover_failed Q now now' rd upd call s =
     bindE (rd s) (\<lambda>r.
     if num_failures r > 0 \<and> failure_period r > 0 then
       bindE (derefE NullDeref (rc_sw r)) (\<lambda>w.
       let (escalating, w) = recover_escalating Q now now' (num_failures r) (failure_period r) w;
           s = upd (\<lambda>r. r\<lparr>rc_sw := Some w\<rparr>) s
       in if escalating then call (escalate r) (rc_instance r) s
          else call (restart r) (rc_instance r) s)
     else call (restart r) (rc_instance r) s)"

definition recover_state_set ::
  "'sw sw_ops \<Rightarrow> nat \<Rightarrow> nat \<Rightarrow>
   ('s \<Rightarrow> ('i, 'cb, 'sw) recover res) \<Rightarrow>
   ((('i, 'cb, 'sw) recover \<Rightarrow> ('i, 'cb, 'sw) recover) \<Rightarrow> 's \<Rightarrow> 's) \<Rightarrow>
   ('cb \<Rightarrow> 'i option \<Rightarrow> recover_state \<Rightarrow> recover_state \<Rightarrow> 's \<Rightarrow> 's res) \<Rightarrow>
   ('cb \<Rightarrow> 'i option \<Rightarrow> 's \<Rightarrow> 's res) \<Rightarrow>
   recover_state \<Rightarrow> 's \<Rightarrow> 's res" where
  "recover_state_set Q now now' rd upd changing call st s =
     bindE (rd s) (\<lambda>r.
     if rc_state r = st then Inr s
     else
       bindE (case state_changing r of
                None \<Rightarrow> Inr s
              | Some f \<Rightarrow> changing f (rc_instance r) (rc_state r) st s) (\<lambda>s.
       let s = upd (\<lambda>r. r\<lparr>rc_state := st\<rparr>) s in
       if st \<noteq> RECOVER_STATE_FAILED then Inr s
       else recover_failed Q now now' rd upd call s))"

text \<open>A part of the larger state that no callback touches is left alone.\<close>

lemma recover_state_set_keeps:
  assumes "\<And>f i a b. keeps V (changing f i a b)" and "\<And>f i. keeps V (call f i)"
    and upd: "\<And>g s. V (upd g s) = V s"
  shows "keeps V (recover_state_set Q now now' rd upd changing call st)"
  unfolding recover_state_set_def recover_failed_def
  by (rule keeps_I) (intro okE_bind_get okE_intros okE_bind [OF keeps_okE [OF assms(1)]] okE_bind_get
      keeps_okE [OF assms(2)]; auto simp: upd dest: keeps_D [OF assms(1)] split: option.splits)

section \<open>The stopwatch interface\<close>

text \<open>
  The documented behaviour of a libqb stopwatch with overwriting splits: \<open>splits\<close> are the clock
  readings of the splits since the last start, \<open>started\<close> is the reading at the last start and
  \<open>cap\<close> the number of splits kept. The time between two kept splits is the difference of their
  readings; the time of a split against itself is counted from the start.
\<close>

locale stopwatch_api =
  fixes Q :: "'sw sw_ops"
    and splits :: "'sw \<Rightarrow> nat list"
    and started :: "'sw \<Rightarrow> nat"
    and cap :: "'sw \<Rightarrow> nat"
  assumes create: "splits (stopwatch_create Q t) = []" "started (stopwatch_create Q t) = t"
    and split_ctl: "splits w = [] \<Longrightarrow> splits (stopwatch_split_ctl Q w n) = []"
      "started (stopwatch_split_ctl Q w n) = started w"
      "cap (stopwatch_split_ctl Q w n) = n"
    and split: "0 < cap w \<Longrightarrow> splits (stopwatch_split Q t w) = splits w @ [t]"
      "started (stopwatch_split Q t w) = started w"
      "cap (stopwatch_split Q t w) = cap w"
    and split_last: "splits w \<noteq> [] \<Longrightarrow> stopwatch_split_last Q w = length (splits w) - 1"
    and time_split: "older < recent \<Longrightarrow> recent < length (splits w) \<Longrightarrow>
        length (splits w) \<le> older + cap w \<Longrightarrow>
        stopwatch_time_split_get Q w recent older = splits w ! recent - splits w ! older"
    and time_split_start: "recent < length (splits w) \<Longrightarrow> length (splits w) \<le> recent + cap w \<Longrightarrow>
        stopwatch_time_split_get Q w recent recent = splits w ! recent - started w"
    and start: "splits (stopwatch_start Q t w) = []" "started (stopwatch_start Q t w) = t"
      "cap (stopwatch_start Q t w) = cap w"

section \<open>What the bookkeeping is meant to do\<close>

text \<open>
  The specification keeps the failure times since the last escalation (or since the start). A failure
  escalates when the last \<open>N\<close> of them, this one included, span at most \<open>P\<close> seconds; for \<open>N = 1\<close> the
  span is counted from the start. \<open>le us P\<close> compares a span in microseconds with \<open>P\<close> seconds.
\<close>

type_synonym failures = "nat \<times> nat list"

definition failure_spec ::
  "(nat \<Rightarrow> nat \<Rightarrow> bool) \<Rightarrow> nat \<Rightarrow> nat \<Rightarrow> nat \<Rightarrow> nat \<Rightarrow> failures \<Rightarrow> bool \<times> failures" where
  "failure_spec le N P t t' fl =
     (let (born, fs) = fl;
          fs' = fs @ [t];
          base = (if N = 1 then born else fs' ! (length fs' - N))
      in if N \<le> length fs' \<and> le (t - base) P then (True, (t', [])) else (False, (born, fs')))"

definition within_exact :: "nat \<Rightarrow> nat \<Rightarrow> bool" where
  "within_exact us P \<longleftrightarrow> us \<le> P * 1000000"

context stopwatch_api
begin

lemma recover_escalating_refines:
  assumes N: "0 < nf" and w: "cap w = nat nf"
  shows "recover_escalating Q t t' nf fp w =
      (esc, w') \<Longrightarrow>
      failure_spec float_le_secs (nat nf) (nat fp) t t' (started w, splits w) =
        (esc, (started w', splits w')) \<and> cap w' = cap w"
proof -
  assume run: "recover_escalating Q t t' nf fp w = (esc, w')"
  let ?w = "stopwatch_split Q t w" and ?fs = "splits w @ [t]" and ?N = "nat nf"
  have fs: "splits ?w = ?fs" and c: "cap ?w = ?N" and st: "started ?w = started w"
    using split [where w = w and t = t] N w by auto
  have last: "stopwatch_split_last Q ?w = length ?fs - 1"
    using split_last [of ?w] fs by simp
  have ge: "int (length ?fs - 1) \<ge> nf - 1 \<longleftrightarrow> ?N \<le> length ?fs"
    using N by auto
  have span: "stopwatch_time_split_get Q ?w (length ?fs - 1)
        (nat (int (length ?fs - 1) - (nf - 1))) =
      t - (if ?N = 1 then started w else ?fs ! (length ?fs - ?N))" if "?N \<le> length ?fs"
  proof -
    have older: "nat (int (length ?fs - 1) - (nf - 1)) = length ?fs - ?N"
      using that N by auto
    show ?thesis
    proof (cases "?N = 1")
      case True
      then show ?thesis
        unfolding older using time_split_start [of "length ?fs - 1" ?w] fs c st by simp
    next
      case False
      then show ?thesis
        unfolding older
        using time_split [of "length ?fs - ?N" "length ?fs - 1" ?w] fs c that N by simp
    qed
  qed
  show ?thesis
    using run start [where w = ?w] fs st c w ge span
    unfolding recover_escalating_def failure_spec_def last Let_def
    by (auto split: if_splits)
qed

end

section \<open>A client that counts, as the unit test does\<close>

text \<open>
  \<^verbatim>\<open>tests/check_recover.c\<close> drives a \<^verbatim>\<open>struct recover\<close> whose callbacks count how often they run.
\<close>

datatype test_cb = Restart_cb | Escalate_cb

record 'sw test_state =
  t_recover :: "(unit, test_cb, 'sw) recover"
  num_restarts :: nat
  num_escalations :: nat

fun test_call :: "test_cb \<Rightarrow> unit option \<Rightarrow> 'sw test_state \<Rightarrow> 'sw test_state res" where
  "test_call Restart_cb _ s = Inr (s\<lparr>num_restarts := Suc (num_restarts s)\<rparr>)"
| "test_call Escalate_cb _ s = Inr (s\<lparr>num_escalations := Suc (num_escalations s)\<rparr>)"

type_synonym set_event = "recover_state \<times> nat \<times> nat"

definition test_set :: "'sw sw_ops \<Rightarrow> set_event \<Rightarrow> 'sw test_state \<Rightarrow> 'sw test_state res" where
  "test_set Q ev s =
     (case ev of (st, t, t') \<Rightarrow>
        recover_state_set Q t t' (\<lambda>s. Inr (t_recover s))
          (\<lambda>f s. s\<lparr>t_recover := f (t_recover s)\<rparr>) (\<lambda>_ _ _ _ s. Inr s) test_call st s)"

definition test_init ::
  "'sw sw_ops \<Rightarrow> nat \<Rightarrow> string \<Rightarrow> string \<Rightarrow> (unit, test_cb, 'sw) recover \<Rightarrow> 'sw test_state" where
  "test_init Q born failures period r =
     \<lparr>t_recover = fst (recover_init Q born 0 (Some failures) (Some period)
        Restart_cb Escalate_cb None r),
      num_restarts = 0, num_escalations = 0\<rparr>"

definition test_run :: "'sw sw_ops \<Rightarrow> set_event list \<Rightarrow> 'sw test_state \<Rightarrow> 'sw test_state res" where
  "test_run Q = foldE (test_set Q)"

text \<open>The specification of a run: the state, the failures kept, and the two counters.\<close>

record spec_state =
  sp_state :: recover_state
  sp_failures :: failures
  sp_restarts :: nat
  sp_escalations :: nat

definition spec_set ::
  "(nat \<Rightarrow> nat \<Rightarrow> bool) \<Rightarrow> nat \<Rightarrow> nat \<Rightarrow> set_event \<Rightarrow> spec_state \<Rightarrow> spec_state" where
  "spec_set le N P ev s =
     (case ev of (st, t, t') \<Rightarrow>
        if sp_state s = st then s
        else if st \<noteq> RECOVER_STATE_FAILED then s\<lparr>sp_state := st\<rparr>
        else (case failure_spec le N P t t' (sp_failures s) of
                (True, fl) \<Rightarrow> s\<lparr>sp_state := st, sp_failures := fl,
                                sp_escalations := Suc (sp_escalations s)\<rparr>
              | (False, fl) \<Rightarrow> s\<lparr>sp_state := st, sp_failures := fl,
                                 sp_restarts := Suc (sp_restarts s)\<rparr>))"

definition spec_run ::
  "(nat \<Rightarrow> nat \<Rightarrow> bool) \<Rightarrow> nat \<Rightarrow> nat \<Rightarrow> set_event list \<Rightarrow> spec_state \<Rightarrow> spec_state" where
  "spec_run le N P = fold (spec_set le N P)"

definition spec_init :: "nat \<Rightarrow> spec_state" where
  "spec_init born = \<lparr>sp_state = RECOVER_STATE_UNKNOWN, sp_failures = (born, []),
     sp_restarts = 0, sp_escalations = 0\<rparr>"

definition test_abs :: "('sw \<Rightarrow> nat list) \<Rightarrow> ('sw \<Rightarrow> nat) \<Rightarrow> 'sw test_state \<Rightarrow> spec_state" where
  "test_abs splits started s =
     \<lparr>sp_state = rc_state (t_recover s),
      sp_failures = (case rc_sw (t_recover s) of None \<Rightarrow> (0, []) | Some w \<Rightarrow> (started w, splits w)),
      sp_restarts = num_restarts s, sp_escalations = num_escalations s\<rparr>"

definition test_ok :: "('sw \<Rightarrow> nat) \<Rightarrow> nat \<Rightarrow> nat \<Rightarrow> 'sw test_state \<Rightarrow> bool" where
  "test_ok cap N P s \<longleftrightarrow>
     (let r = t_recover s in
      0 < N \<and> 0 < P \<and> num_failures r = int N \<and> failure_period r = int P \<and>
      (case rc_sw r of None \<Rightarrow> False | Some w \<Rightarrow> cap w = N) \<and>
      restart r = Restart_cb \<and> escalate r = Escalate_cb \<and> state_changing r = None)"

section \<open>The larger state around a recover struct\<close>

text \<open>
  What a user of \<open>recover_state_set\<close> provides: reading and writing of its embedded struct, and
  callbacks that leave that struct alone.
\<close>

locale recover_host =
  fixes rd :: "'s \<Rightarrow> ('i, 'cb, 'sw) recover res"
    and upd :: "(('i, 'cb, 'sw) recover \<Rightarrow> ('i, 'cb, 'sw) recover) \<Rightarrow> 's \<Rightarrow> 's"
    and changing :: "'cb \<Rightarrow> 'i option \<Rightarrow> recover_state \<Rightarrow> recover_state \<Rightarrow> 's \<Rightarrow> 's res"
    and call :: "'cb \<Rightarrow> 'i option \<Rightarrow> 's \<Rightarrow> 's res"
  assumes rd_upd: "rd s = Inr r \<Longrightarrow> rd (upd g s) = Inr (g r)"
    and changing_keeps: "changing f i a b s = Inr s' \<Longrightarrow> rd s' = rd s"
    and call_keeps: "call f i s = Inr s' \<Longrightarrow> rd s' = rd s"
begin

lemma failed_result:
  assumes "recover_failed Q now now' rd upd call s = Inr s'" and "rd s = Inr r"
  shows "\<exists>w. rd s' = Inr (r\<lparr>rc_sw := w\<rparr>)"
proof -
  have r: "r\<lparr>rc_sw := rc_sw r\<rparr> = r" by simp
  have keep: "\<exists>w. rd s' = Inr (r\<lparr>rc_sw := w\<rparr>)" if "call f i s = Inr s'" for f i
    using call_keeps [OF that] assms(2) r by metis
  have upd_keep: "\<exists>w. rd s' = Inr (r\<lparr>rc_sw := w\<rparr>)"
    if "call f i (upd (\<lambda>r. r\<lparr>rc_sw := Some w\<rparr>) s) = Inr s'" for f i w
    using call_keeps [OF that] rd_upd [OF assms(2)] by metis
  show ?thesis
    using assms keep upd_keep
    by (auto simp: recover_failed_def bindE_eq_Inr derefE_eq_Inr Let_def case_prod_beta
        split: if_splits)
qed

lemma state_set_result:
  assumes "recover_state_set Q now now' rd upd changing call st s = Inr s'"
  shows "\<exists>r w. rd s = Inr r \<and> rd s' = Inr (r\<lparr>rc_state := st, rc_sw := w\<rparr>)"
proof -
  from assms obtain r where r: "rd s = Inr r"
    by (auto simp: recover_state_set_def bindE_eq_Inr)
  show ?thesis
  proof (cases "rc_state r = st")
    case True
    with assms r show ?thesis by (auto simp: recover_state_set_def intro: exI [of _ "rc_sw r"])
  next
    case False
    from assms r False obtain s1 where
      notify: "(case state_changing r of None \<Rightarrow> Inr s
         | Some f \<Rightarrow> changing f (rc_instance r) (rc_state r) st s) = Inr s1" and
      tail: "(if st \<noteq> RECOVER_STATE_FAILED then Inr (upd (\<lambda>r. r\<lparr>rc_state := st\<rparr>) s1)
         else recover_failed Q now now' rd upd call (upd (\<lambda>r. r\<lparr>rc_state := st\<rparr>) s1)) = Inr s'"
      by (auto simp: recover_state_set_def bindE_eq_Inr Let_def)
    have s1: "rd s1 = Inr r"
      using notify r by (auto dest: changing_keeps split: option.splits)
    have u: "rd (upd (\<lambda>r. r\<lparr>rc_state := st\<rparr>) s1) = Inr (r\<lparr>rc_state := st\<rparr>)"
      by (rule rd_upd [OF s1])
    show ?thesis
    proof (cases "st = RECOVER_STATE_FAILED")
      case True
      with tail failed_result [OF _ u] r show ?thesis by auto
    next
      case False
      with tail u r show ?thesis by (auto intro: exI [of _ "rc_sw r"])
    qed
  qed
qed

text \<open>A part of the larger state that the struct's own callbacks leave alone is left alone.\<close>

lemma state_set_view:
  assumes rd: "rd s = Inr r"
    and changing: "\<And>f. state_changing r = Some f \<Longrightarrow> keeps V (changing f (rc_instance r) (rc_state r) st)"
    and restart: "keeps V (call (restart r) (rc_instance r))"
    and escalate: "keeps V (call (escalate r) (rc_instance r))"
    and upd: "\<And>st s. V (upd (\<lambda>r. r\<lparr>rc_state := st\<rparr>) s) = V s" "\<And>w s. V (upd (\<lambda>r. r\<lparr>rc_sw := w\<rparr>) s) = V s"
  shows "okE (\<lambda>s'. V s' = V s) (recover_state_set Q now now' rd upd changing call st s)"
proof -
  have failed: "okE (\<lambda>s'. V s' = V s) (recover_failed Q now now' rd upd call u)"
    if u: "rd u = Inr (r\<lparr>rc_state := st\<rparr>)" "V u = V s" for u
  proof -
    let ?r = "r\<lparr>rc_state := st\<rparr>"
    have calls: "okE (\<lambda>s'. V s' = V s) (call (restart ?r) (rc_instance ?r) v)"
      "okE (\<lambda>s'. V s' = V s) (call (escalate ?r) (rc_instance ?r) v)" if "V v = V s" for v
      using keeps_okE [OF restart that] keeps_okE [OF escalate that] by simp_all
    show ?thesis
      unfolding recover_failed_def u(1) bindE_simps by (intro okE_intros calls; simp add: upd u(2))
  qed
  have notify: "okE (\<lambda>u. rd u = Inr r \<and> V u = V s) (case state_changing r of
      None \<Rightarrow> Inr s | Some f \<Rightarrow> changing f (rc_instance r) (rc_state r) st s)"
    using changing_keeps rd keeps_D [OF changing]
    by (cases "state_changing r") (auto simp: okE_def)
  show ?thesis
    unfolding recover_state_set_def
    by (simp add: rd) (intro impI okE_bind [OF notify] okE_let okE_if okE_Inr_I failed; simp add: upd rd_upd)
qed

end

section \<open>A run of the code follows the specification\<close>

context stopwatch_api
begin

lemma test_set_refines:
  assumes "test_ok cap N P s"
  shows "\<exists>s'. test_set Q ev s = Inr s' \<and> test_ok cap N P s' \<and>
     test_abs splits started s' = spec_set float_le_secs N P ev (test_abs splits started s)"
proof -
  obtain st t t' where ev: "ev = (st, t, t')" by (metis surj_pair)
  let ?r = "t_recover s"
  from assms obtain w where w: "rc_sw ?r = Some w" "cap w = N"
    by (auto simp: test_ok_def Let_def split: option.splits)
  obtain esc w' where esc: "recover_escalating Q t t' (int N) (int P) w = (esc, w')"
    by (metis surj_pair)
  have spec: "failure_spec float_le_secs N P t t' (started w, splits w) =
      (esc, (started w', splits w'))" and "cap w' = N"
    using recover_escalating_refines [OF _ _ esc] assms w by (auto simp: test_ok_def Let_def)
  then show ?thesis
    using assms w esc unfolding ev
    by (cases esc) (auto simp: test_set_def test_ok_def test_abs_def spec_set_def Let_def
        recover_state_set_def recover_failed_def)
qed

lemma test_run_refines:
  "test_ok cap N P s \<Longrightarrow> \<exists>s'. test_run Q evs s = Inr s' \<and> test_ok cap N P s' \<and>
     test_abs splits started s' = spec_run float_le_secs N P evs (test_abs splits started s)"
proof (induction evs arbitrary: s)
  case Nil
  then show ?case by (simp add: test_run_def spec_run_def)
next
  case (Cons ev evs)
  from test_set_refines [OF Cons.prems] obtain u where
    u: "test_set Q ev s = Inr u" "test_ok cap N P u"
      "test_abs splits started u = spec_set float_le_secs N P ev (test_abs splits started s)"
    by blast
  with Cons.IH [OF u(2)] show ?case by (auto simp: test_run_def spec_run_def)
qed

lemma test_init_ok:
  assumes "0 < N" "N < 2 ^ 31" "0 < P" "P < 2 ^ 31"
  shows "test_ok cap N P (test_init Q born (show_nat N) (show_nat P) r)"
    and "test_abs splits started (test_init Q born (show_nat N) (show_nat P) r) = spec_init born"
proof -
  have lim: "recover_limit 0 (Some (show_nat k)) = (int k, 0)" if "k < 2 ^ 31" for k
    using that strtol_show_nonneg [of k] int32_of_small [of "int k"]
    by (simp add: recover_limit_def LONG_MAX_def LONG_MIN_def ERANGE_def)
  show "test_ok cap N P (test_init Q born (show_nat N) (show_nat P) r)"
    and "test_abs splits started (test_init Q born (show_nat N) (show_nat P) r) = spec_init born"
    using assms lim [OF assms(2)] lim [OF assms(4)] create split_ctl
    by (simp_all add: test_ok_def test_init_def recover_init_def test_abs_def spec_init_def Let_def)
qed

end

lemma spec_run_cong:
  "(\<And>us. le us P \<longleftrightarrow> le' us P) \<Longrightarrow> spec_run le N P evs s = spec_run le' N P evs s"
  unfolding spec_run_def
  by (intro fold_cong) (auto simp: fun_eq_iff spec_set_def failure_spec_def Let_def)

text \<open>
  In the specification, every escalation consumes \<open>N\<close> failures of its own.
\<close>

definition failures_seen :: "set_event list \<Rightarrow> nat" where
  "failures_seen evs = length (filter (\<lambda>(st, _). st = RECOVER_STATE_FAILED) evs)"

lemma spec_set_budget:
  assumes "0 < N"
  shows "N * sp_escalations (spec_set le N P ev s) + length (snd (sp_failures (spec_set le N P ev s)))
    \<le> N * sp_escalations s + length (snd (sp_failures s)) + failures_seen [ev]"
  using assms
  by (auto simp: spec_set_def failure_spec_def failures_seen_def Let_def split: prod.splits if_splits)

lemma spec_run_budget:
  assumes "0 < N"
  shows "N * sp_escalations (spec_run le N P evs s) + length (snd (sp_failures (spec_run le N P evs s)))
    \<le> N * sp_escalations s + length (snd (sp_failures s)) + failures_seen evs"
proof (induction evs arbitrary: s)
  case Nil
  then show ?case by (simp add: spec_run_def)
next
  case (Cons ev evs)
  have "failures_seen (ev # evs) = failures_seen [ev] + failures_seen evs"
    by (simp add: failures_seen_def)
  with Cons [of "spec_set le N P ev s"] spec_set_budget [OF assms, of le P ev s]
  show ?case by (simp add: spec_run_def)
qed

section \<open>A stopwatch that keeps every split\<close>

record sw_list =
  sl_started :: nat
  sl_splits :: "nat list"
  sl_cap :: nat

definition sw_list_ops :: "sw_list sw_ops" where
  "sw_list_ops =
     \<lparr>stopwatch_create = (\<lambda>t. \<lparr>sl_started = t, sl_splits = [], sl_cap = 0\<rparr>),
      stopwatch_split_ctl = (\<lambda>w n. w\<lparr>sl_cap := n\<rparr>),
      stopwatch_split = (\<lambda>t w. w\<lparr>sl_splits := sl_splits w @ [t]\<rparr>),
      stopwatch_split_last = (\<lambda>w. length (sl_splits w) - 1),
      stopwatch_time_split_get = (\<lambda>w recent older.
        sl_splits w ! recent - (if recent = older then sl_started w else sl_splits w ! older)),
      stopwatch_start = (\<lambda>t w. w\<lparr>sl_started := t, sl_splits := []\<rparr>)\<rparr>"

interpretation sl: stopwatch_api sw_list_ops sl_splits sl_started sl_cap
  by unfold_locales (auto simp: sw_list_ops_def)

interpretation test_host: recover_host
  "\<lambda>s :: 'sw test_state. Inr (t_recover s)" "\<lambda>f s. s\<lparr>t_recover := f (t_recover s)\<rparr>"
  "\<lambda>_ _ _ _ s. Inr s" test_call
proof
  fix f i and s s' :: "'sw test_state"
  assume "test_call f i s = Inr s'"
  then show "(Inr (t_recover s') :: (unit, test_cb, 'sw) recover res) = Inr (t_recover s)"
    by (cases f) auto
qed auto

section \<open>Properties\<close>


text \<open>The sequence of the unit test: three failures within a second escalate.\<close>

definition fail_at :: "nat \<Rightarrow> set_event list" where
  "fail_at t = [(RECOVER_STATE_RUNNING, t, t), (RECOVER_STATE_FAILED, t, t)]"

definition blank_recover :: "(unit, test_cb, sw_list) recover" where
  "blank_recover = \<lparr>rc_instance = None, rc_state = RECOVER_STATE_UNKNOWN, num_failures = 0,
     failure_period = 0, rc_sw = None, restart = Restart_cb, escalate = Escalate_cb,
     state_changing = None\<rparr>"

lemmas spec_eval = spec_run_def spec_set_def spec_init_def failure_spec_def fail_at_def within_exact_def




text \<open>
  C26. Escalations are rationed: in any run, the number of escalations times \<open>N\<close> is at most the number
  of reported failures, so a component is escalated at most once per \<open>N\<close> failures.
\<close>

theorem recover_escalation_budget:
  assumes "stopwatch_api Q splits started cap"
    and "0 < N" and "N < 2 ^ 31" and "0 < P" and "P < 2 ^ 31"
    and "test_run Q evs (test_init Q born (show_nat N) (show_nat P) r) = Inr s'"
  shows "N * num_escalations s' \<le> failures_seen evs"
proof -
  have "test_abs splits started s' = spec_run float_le_secs N P evs (spec_init born)"
    using stopwatch_api.test_run_refines [OF assms(1)] stopwatch_api.test_init_ok [OF assms(1-5)]
      assms(6) by (metis sum.inject(2))
  then have "num_escalations s' = sp_escalations (spec_run float_le_secs N P evs (spec_init born))"
    by (metis test_abs_def spec_state.select_convs(4))
  moreover have "N * sp_escalations (spec_run float_le_secs N P evs (spec_init born)) \<le>
      N * sp_escalations (spec_init born) + length (snd (sp_failures (spec_init born))) + failures_seen evs"
    using spec_run_budget [OF assms(2), of float_le_secs P evs "spec_init born"] by linarith
  ultimately show ?thesis by (simp add: spec_init_def)
qed

theorem recover_escalation_budget_witness:
  "\<exists>s'. test_run sw_list_ops (concat (map fail_at [10, 20, 30]))
       (test_init sw_list_ops 0 (show_nat 3) (show_nat 1) blank_recover) = Inr s' \<and>
     3 * num_escalations s' \<le> failures_seen (concat (map fail_at [10, 20, 30]))"
proof -
  obtain s' where s': "test_run sw_list_ops (concat (map fail_at [10, 20, 30]))
      (test_init sw_list_ops 0 (show_nat 3) (show_nat 1) blank_recover) = Inr s'"
    using sl.test_run_refines [OF sl.test_init_ok(1) [of 3 1]] by fastforce
  then show ?thesis
    using recover_escalation_budget [where N = 3 and P = 1, OF sl.stopwatch_api_axioms _ _ _ _ s']
    by simp
qed

text \<open>
  Reporting the state a component is already in changes nothing, and a change to any state other
  than failed runs neither the restart nor the escalation callback: the result does not depend on
  what these callbacks do.
\<close>

lemma recover_state_set_quiet:
  assumes "rd s = Inr r" and "rc_state r = st \<or> st \<noteq> RECOVER_STATE_FAILED"
  shows "recover_state_set Q now now' rd upd changing call st s =
     (if rc_state r = st then Inr s
      else bindE (case state_changing r of None \<Rightarrow> Inr s
                  | Some f \<Rightarrow> changing f (rc_instance r) (rc_state r) st s)
             (\<lambda>s. Inr (upd (\<lambda>r. r\<lparr>rc_state := st\<rparr>) s)))"
  using assms by (auto simp: recover_state_set_def)



end
