(* ===== verification/Xml.thy ===== *)
theory Xml
  imports Prelude
begin

text \<open>
  Document trees, as the sources see them through the public node structure of libxml2: an element has
  a name, attributes and children; every other kind of node is text here. An element carries the
  address of its node, so that a pointer kept into a document (\<^verbatim>\<open>reference_param.xmlnode\<close>) names a
  node. The attribute and child operations are the ones the sources call, on this representation.
\<close>

datatype xml =
    Elem (x_addr: nat) (x_name: string) (x_attrs: "(string \<times> string) list") (x_kids: "xml list")
  | Text string

fun is_elem :: "xml \<Rightarrow> bool" where
  "is_elem (Elem _ _ _ _) = True"
| "is_elem (Text _) = False"

fun has_name :: "string \<Rightarrow> xml \<Rightarrow> bool" where
  "has_name n (Elem _ m _ _) = (m = n)"
| "has_name n (Text _) = False"

fun kids :: "xml \<Rightarrow> xml list" where
  "kids (Elem _ _ _ ks) = ks"
| "kids (Text _) = []"

fun xmlGetProp :: "xml \<Rightarrow> string \<Rightarrow> string option" where
  "xmlGetProp (Elem _ _ as _) k = map_of as k"
| "xmlGetProp (Text _) k = None"

fun xmlNewProp :: "string \<Rightarrow> string \<Rightarrow> xml \<Rightarrow> xml" where
  "xmlNewProp k v (Elem i n as ks) = Elem i n (as @ [(k, v)]) ks"
| "xmlNewProp k v (Text t) = Text t"

fun xmlAddChild :: "xml \<Rightarrow> xml \<Rightarrow> xml" where
  "xmlAddChild c (Elem i n as ks) = Elem i n as (ks @ [c])"
| "xmlAddChild c (Text t) = Text t"

text \<open>A fresh element, with a text child when it is given content.\<close>

definition xmlNewNode :: "string \<Rightarrow> string option \<Rightarrow> xml" where
  "xmlNewNode n content = Elem 0 n [] (case content of None \<Rightarrow> [] | Some t \<Rightarrow> [Text t])"

text \<open>\<^verbatim>\<open>xmlSetProp\<close> on the node with a given address, anywhere in a document.\<close>

definition set_attr :: "string \<Rightarrow> string \<Rightarrow> (string \<times> string) list \<Rightarrow> (string \<times> string) list" where
  "set_attr k v as = qb_map_put k v as"

fun xmlSetProp :: "nat \<Rightarrow> string \<Rightarrow> string \<Rightarrow> xml \<Rightarrow> xml" where
  "xmlSetProp p k v (Elem i n as ks) =
     Elem i n (if i = p then set_attr k v as else as) (map (xmlSetProp p k v) ks)"
| "xmlSetProp p k v (Text t) = Text t"

fun addrs :: "xml \<Rightarrow> nat list" where
  "addrs (Elem i _ _ ks) = i # concat (map addrs ks)"
| "addrs (Text _) = []"

lemma xmlGetProp_Elem [simp]: "xmlGetProp (Elem i n as ks) k = map_of as k"
  by simp

lemma addrs_xmlSetProp [simp]: "addrs (xmlSetProp p k v x) = addrs x"
proof (induction x)
  case (Elem i n as ks)
  have "concat (map (addrs \<circ> xmlSetProp p k v) ks) = concat (map addrs ks)"
    by (rule arg_cong [where f = concat]) (use Elem in auto)
  then show ?case by simp
qed simp

lemma map_of_set_attr: "map_of (set_attr k v as) = (map_of as)(k \<mapsto> v)"
  using qb_map_get_put [of k v as] by (auto simp: set_attr_def qb_map_get_def fun_eq_iff)

end
