(* ===== verification/Cape_State.thy ===== *)
theory Cape_State
  imports Recover Xml
begin

text \<open>
  The data the policy engine works on: the structs of \<^verbatim>\<open>cape.h\<close>, \<^verbatim>\<open>pcmk_pe.h\<close>, \<^verbatim>\<open>cape.c\<close> and
  \<^verbatim>\<open>trans_ssh.c\<close>, the file-scope variables of these files, and the pending work of the event loop.
  Objects live in heaps indexed by natural numbers (their addresses); a pointer whose object was freed
  is an index where the heap holds nothing, so that its use is the error \<open>BadPtr\<close>. Function pointers
  are values of the data types below.

  Third-party code is not defined here. Whatever a handler obtains from libqb, libssh2, the cloud
  interface or Pacemaker is a field of the environment \<open>'sw env\<close>, an argument of the definitions. The
  event loop is represented by what it was asked to do and has not done yet; the choice of the next
  job or timer is left open.
\<close>

section \<open>Policy engine operations (pcmk\_pe.h)\<close>

text \<open>
  \<^verbatim>\<open>enum ocf_exitcode\<close> is an \<^verbatim>\<open>int\<close> in C: the named values are abbreviations, so that a code outside
  the enumeration (an exit status read from a remote host) is representable.
\<close>

type_synonym ocf_exitcode = int

abbreviation OCF_PENDING :: ocf_exitcode where "OCF_PENDING \<equiv> -1"
abbreviation OCF_OK :: ocf_exitcode where "OCF_OK \<equiv> 0"
abbreviation OCF_UNKNOWN_ERROR :: ocf_exitcode where "OCF_UNKNOWN_ERROR \<equiv> 1"
abbreviation OCF_INVALID_PARAM :: ocf_exitcode where "OCF_INVALID_PARAM \<equiv> 2"
abbreviation OCF_UNIMPLEMENT_FEATURE :: ocf_exitcode where "OCF_UNIMPLEMENT_FEATURE \<equiv> 3"
abbreviation OCF_INSUFFICIENT_PRIV :: ocf_exitcode where "OCF_INSUFFICIENT_PRIV \<equiv> 4"
abbreviation OCF_NOT_INSTALLED :: ocf_exitcode where "OCF_NOT_INSTALLED \<equiv> 5"
abbreviation OCF_NOT_CONFIGURED :: ocf_exitcode where "OCF_NOT_CONFIGURED \<equiv> 6"
abbreviation OCF_NOT_RUNNING :: ocf_exitcode where "OCF_NOT_RUNNING \<equiv> 7"
abbreviation OCF_RUNNING_MASTER :: ocf_exitcode where "OCF_RUNNING_MASTER \<equiv> 8"
abbreviation OCF_FAILED_MASTER :: ocf_exitcode where "OCF_FAILED_MASTER \<equiv> 9"

type_synonym op_ptr = nat
type_synonym rsc_ptr = nat
type_synonym asm_ptr = nat
type_synonym trans_ptr = nat
type_synonym sshop_ptr = nat
type_synonym graph_ptr = nat
type_synonym timer_handle = nat

text \<open>\<open>op_digest\<close> is absent once the string it points to was freed by a history entry.\<close>

record pe_operation =
  op_hostname :: string
  op_node_uuid :: "string option"
  op_method :: string
  op_rname :: string
  op_rclass :: string
  op_rprovider :: "string option"
  op_rtype :: string
  op_params :: "string qb_map"
  op_digest :: "string option"
  op_timeout :: u32
  op_times_executed :: u32
  op_interval :: u32
  op_target_outcome :: u32
  op_graph :: graph_ptr
  op_action :: nat
  op_resource :: "rsc_ptr option"
  op_graph_id :: u32
  op_action_id :: u32
  op_refcount :: u32

section \<open>Nodes, resources and operation histories (cape.h, cape.c)\<close>

datatype recover_fn =
    Resource_recover_restart
  | Resource_recover_escalate
  | Resource_state_change_event
  | Node_recover_restart
  | Node_recover_escalate
  | Node_state_change_event

type_synonym 'sw cape_recover = "(nat, recover_fn, 'sw) recover"

record 'sw assembly =
  a_name :: string
  a_uuid :: string
  a_address :: "string option"
  a_instance_id :: string
  a_image_id :: string
  a_resource_map :: "rsc_ptr qb_map"
  a_transport :: "trans_ptr option"
  a_recover :: "'sw cape_recover"

record reference_param =
  rp_name :: string
  rp_assembly :: "string option"
  rp_parameter :: "string option"
  rp_xmlnode :: "nat option"

record 'sw resource =
  r_name :: string
  r_type :: string
  r_rclass :: string
  r_rprovider :: "string option"
  r_assembly :: asm_ptr
  r_monitor_op :: "op_ptr option"
  r_monitor_timer :: timer_handle
  r_recover :: "'sw cape_recover"
  r_ref_params_map :: "reference_param qb_map option"

text \<open>
  The digest of a history entry is either a copy of its own or, after \<open>op_history_save\<close> has replaced
  it, the very string the operation points to.
\<close>

datatype digest = Own_digest string | Digest_of op_ptr

record operation_history =
  oh_rsc_id :: string
  oh_operation :: string
  oh_call_id :: u32
  oh_interval :: u32
  oh_rc :: ocf_exitcode
  oh_target_outcome :: u32
  oh_last_run :: int
  oh_last_rc_change :: int
  oh_graph_id :: u32
  oh_action_id :: u32
  oh_op_digest :: digest
  oh_resource :: "rsc_ptr option"

section \<open>SSH transport (trans\_ssh.c)\<close>

datatype ssh_state =
    SSH_SESSION_CONNECTING
  | SSH_SESSION_INIT
  | SSH_SESSION_STARTUP
  | SSH_USERAUTH_PUBLICKEY_FROMFILE
  | SSH_KEEPALIVE_CONFIG
  | SSH_SESSION_CONNECTED

datatype ssh_exec_state =
    SSH_CHANNEL_OPEN
  | SSH_CHANNEL_EXEC
  | SSH_CHANNEL_READ
  | SSH_CHANNEL_READ_STDERR
  | SSH_CHANNEL_SEND_EOF
  | SSH_CHANNEL_WAIT_EOF
  | SSH_CHANNEL_CLOSE
  | SSH_CHANNEL_WAIT_CLOSED
  | SSH_CHANNEL_FREE

record ra_op =
  ra_assembly :: asm_ptr
  ra_resource :: "rsc_ptr option"
  ra_pe_op :: op_ptr

text \<open>
  The pair of completion and timeout functions of an ssh operation, with their data: either the
  health check of a node or a resource action.
\<close>

datatype ssh_client = Healthcheck asm_ptr | Resource_action ra_op

record ssh_op =
  so_ssh_rc :: int
  so_timer :: timer_handle
  so_exec_state :: ssh_exec_state
  so_client :: ssh_client
  so_channel :: bool
  so_failed :: bool
  so_command :: string
  so_transport :: trans_ptr

record trans_ssh =
  ts_ssh_state :: ssh_state
  ts_keepalive_timer :: timer_handle
  ts_session :: bool
  ts_address :: "string option"
  ts_ssh_op_head :: "sshop_ptr list"
  ts_scheduled :: bool
  ts_healthcheck_timer :: timer_handle

section \<open>Transition graphs of Pacemaker, as far as the code looks into them\<close>

text \<open>
  \<open>act_operation\<close>, \<open>act_rsc\<close>, \<open>act_node\<close>, \<open>act_uuid\<close> and \<open>act_target_rc\<close> are what the accessors of
  Pacemaker return on the XML of an action; \<open>act_op_type\<close>, \<open>act_params\<close>, \<open>act_interval\<close> and
  \<open>act_timeout\<close> are the fields of the \<^verbatim>\<open>lrm_op_t\<close> that \<^verbatim>\<open>convert_graph_action\<close> gives.
\<close>

record action_rsc =
  ar_id :: string
  ar_class :: string
  ar_provider :: "string option"
  ar_type :: string

record crm_action =
  act_id :: u32
  act_operation :: string
  act_rsc :: "action_rsc option"
  act_node :: string
  act_uuid :: "string option"
  act_target_rc :: "int option"
  act_op_type :: string
  act_params :: "string qb_map"
  act_interval :: u32
  act_timeout :: u32
  act_confirmed :: bool
  act_failed :: bool

record crm_graph =
  g_id :: u32
  g_abort_priority :: int
  g_actions :: "crm_action list"

datatype transition_status =
  transition_active | transition_pending | transition_complete | transition_stopped
| transition_terminated | transition_action_failed | transition_failed

datatype action_kind = Pseudo_action | Rsc_action | Crmd_action | Stonith_action

section \<open>The event loop of libqb: what is pending\<close>

datatype job =
    Process_job
  | Process_next_job graph_ptr
  | My_instance_state_get asm_ptr
  | Connect_execute asm_ptr
  | Ssh_assembly_connect asm_ptr
  | Assembly_ssh_exec sshop_ptr

datatype timer_fn =
    Resource_monitor_execute op_ptr
  | Instance_state_poll asm_ptr
  | Ssh_timeout sshop_ptr
  | Ssh_keepalive_send trans_ptr
  | Assembly_healthcheck asm_ptr

record timer =
  tm_handle :: timer_handle
  tm_fn :: timer_fn
  tm_nsec :: nat

section \<open>The whole state\<close>

text \<open>
  \<open>ev_node\<close> and \<open>ev_resource\<close> are the names an event carries; \<open>ev_state\<close> is absent where the table of
  state names of \<^verbatim>\<open>cape.c\<close> holds NULL.
\<close>

record event =
  ev_app :: string
  ev_node :: string
  ev_resource :: "string option"
  ev_state :: "string option"
  ev_reason :: string

record 'sw cape =
  application_name :: string
  application_uuid :: string
  crmd_uuid :: string
  cape_debug :: bool
  errno :: int
  pe_doc :: xml
  assembly_map :: "asm_ptr qb_map"
  op_history_map :: "operation_history qb_map"
  call_order :: u32
  asms :: "asm_ptr \<Rightarrow> 'sw assembly option"
  next_asm :: asm_ptr
  rscs :: "rsc_ptr \<Rightarrow> 'sw resource option"
  next_rsc :: rsc_ptr
  ops :: "op_ptr \<Rightarrow> pe_operation option"
  next_op :: op_ptr
  transs :: "trans_ptr \<Rightarrow> trans_ssh option"
  next_trans :: trans_ptr
  sshops :: "sshop_ptr \<Rightarrow> ssh_op option"
  next_sshop :: sshop_ptr
  ssh_init_rc :: int
  graphs :: "graph_ptr \<Rightarrow> crm_graph option"
  next_graph :: graph_ptr
  working_set :: bool
  graph_updated :: bool
  transition_count :: u32
  jobs :: "job list"
  timers :: "timer list"
  next_handle :: timer_handle
  events :: "event list"

section \<open>The environment: third-party answers during one handler\<close>

record ssh_answers =
  open_session_ok :: bool
  last_errno :: int
  exec_rc :: int
  send_eof_rc :: int
  wait_eof_rc :: int
  close_rc :: int
  read_rc :: int
  read_stderr_rc :: int
  wait_closed_rc :: int
  exit_status :: int
  free_rc :: int
  session_init_ok :: bool
  session_startup_rc :: int
  userauth_rc :: int
  keepalive_seconds :: nat
  connect_rc :: int
  libssh2_init_rc :: int

text \<open>
  The cloud interface of \<^verbatim>\<open>inst_ctrl.h\<close> (\<^verbatim>\<open>Cloud.thy\<close> models its two implementations) calls its
  completion function before it returns, or not at all: each operation is given by the arguments of
  that call, if it happens, unless the operation ends in an error.
\<close>

record cloud_answers =
  image_id_get :: "string \<Rightarrow> string option res"
  instance_create_from_image_id :: "string \<Rightarrow> string option res"
  instance_state_get :: "string \<Rightarrow> (string \<times> string option) option res"
  instance_destroy_by_instance_id :: "string \<Rightarrow> bool res"

text \<open>
  Pacemaker's \<^verbatim>\<open>update_graph\<close> marks what an action's completion triggers; \<^verbatim>\<open>run_graph\<close> fires actions,
  by calling the registered functions, and then reports a status. \<open>do_calculations\<close> stands for the
  calculation of a transition from a document together with the unpacking of its graph.
\<close>

record pcmk_answers =
  update_graph :: "crm_graph \<Rightarrow> nat \<Rightarrow> crm_graph"
  graph_fires :: "crm_graph \<Rightarrow> (action_kind \<times> nat) list"
  graph_status :: "crm_graph \<Rightarrow> transition_status"
  do_calculations :: "xml \<Rightarrow> crm_graph"
  validate_xml :: "xml \<Rightarrow> bool"
  calculate_operation_digest :: "string qb_map \<Rightarrow> string"
  crm_INFINITY :: int

record 'sw env =
  sw_lib :: "'sw sw_ops"
  clock :: nat
  clock' :: nat
  time_now :: int
  map_order :: "string list \<Rightarrow> string list"
  ssh :: ssh_answers
  cloud :: cloud_answers
  pcmk :: pcmk_answers

section \<open>Heap access\<close>

definition asm_get :: "'sw cape \<Rightarrow> asm_ptr \<Rightarrow> 'sw assembly res" where
  "asm_get s a = derefE BadPtr (asms s a)"

definition rsc_get :: "'sw cape \<Rightarrow> rsc_ptr \<Rightarrow> 'sw resource res" where
  "rsc_get s r = derefE BadPtr (rscs s r)"

definition op_get :: "'sw cape \<Rightarrow> op_ptr \<Rightarrow> pe_operation res" where
  "op_get s p = derefE BadPtr (ops s p)"

definition trans_get :: "'sw cape \<Rightarrow> trans_ptr \<Rightarrow> trans_ssh res" where
  "trans_get s t = derefE BadPtr (transs s t)"

definition sshop_get :: "'sw cape \<Rightarrow> sshop_ptr \<Rightarrow> ssh_op res" where
  "sshop_get s p = derefE BadPtr (sshops s p)"

definition graph_get :: "'sw cape \<Rightarrow> graph_ptr \<Rightarrow> crm_graph res" where
  "graph_get s g = derefE BadPtr (graphs s g)"

definition upd_asm :: "asm_ptr \<Rightarrow> ('sw assembly \<Rightarrow> 'sw assembly) \<Rightarrow> 'sw cape \<Rightarrow> 'sw cape" where
  "upd_asm a f s = s\<lparr>asms := (asms s)(a := map_option f (asms s a))\<rparr>"

definition upd_rsc :: "rsc_ptr \<Rightarrow> ('sw resource \<Rightarrow> 'sw resource) \<Rightarrow> 'sw cape \<Rightarrow> 'sw cape" where
  "upd_rsc r f s = s\<lparr>rscs := (rscs s)(r := map_option f (rscs s r))\<rparr>"

definition upd_op :: "op_ptr \<Rightarrow> (pe_operation \<Rightarrow> pe_operation) \<Rightarrow> 'sw cape \<Rightarrow> 'sw cape" where
  "upd_op p f s = s\<lparr>ops := (ops s)(p := map_option f (ops s p))\<rparr>"

definition upd_trans :: "trans_ptr \<Rightarrow> (trans_ssh \<Rightarrow> trans_ssh) \<Rightarrow> 'sw cape \<Rightarrow> 'sw cape" where
  "upd_trans t f s = s\<lparr>transs := (transs s)(t := map_option f (transs s t))\<rparr>"

definition upd_sshop :: "sshop_ptr \<Rightarrow> (ssh_op \<Rightarrow> ssh_op) \<Rightarrow> 'sw cape \<Rightarrow> 'sw cape" where
  "upd_sshop p f s = s\<lparr>sshops := (sshops s)(p := map_option f (sshops s p))\<rparr>"

definition upd_graph :: "graph_ptr \<Rightarrow> (crm_graph \<Rightarrow> crm_graph) \<Rightarrow> 'sw cape \<Rightarrow> 'sw cape" where
  "upd_graph g f s = s\<lparr>graphs := (graphs s)(g := map_option f (graphs s g))\<rparr>"

section \<open>Requests to the event loop\<close>

definition loop_job_add :: "job \<Rightarrow> 'sw cape \<Rightarrow> 'sw cape" where
  "loop_job_add j s = s\<lparr>jobs := jobs s @ [j]\<rparr>"

definition loop_job_del :: "job \<Rightarrow> 'sw cape \<Rightarrow> 'sw cape" where
  "loop_job_del j s = s\<lparr>jobs := remove1 j (jobs s)\<rparr>"

text \<open>\<^verbatim>\<open>qb_loop_timer_add\<close> hands out a handle that no other timer has; 0 is never a handle.\<close>

definition loop_timer_add :: "timer_fn \<Rightarrow> nat \<Rightarrow> 'sw cape \<Rightarrow> timer_handle \<times> 'sw cape" where
  "loop_timer_add f nsec s =
     (let h = Suc (next_handle s)
      in (h, s\<lparr>timers := timers s @ [\<lparr>tm_handle = h, tm_fn = f, tm_nsec = nsec\<rparr>],
               next_handle := h\<rparr>))"

definition loop_timer_del :: "timer_handle \<Rightarrow> 'sw cape \<Rightarrow> 'sw cape" where
  "loop_timer_del h s = s\<lparr>timers := filter (\<lambda>t. tm_handle t \<noteq> h) (timers s)\<rparr>"

definition loop_timer_is_running :: "timer_handle \<Rightarrow> 'sw cape \<Rightarrow> bool" where
  "loop_timer_is_running h s \<longleftrightarrow> (\<exists>t \<in> set (timers s). tm_handle t = h)"

lemmas heap_defs = asm_get_def rsc_get_def op_get_def trans_get_def sshop_get_def graph_get_def
  upd_asm_def upd_rsc_def upd_op_def upd_trans_def upd_sshop_def upd_graph_def

lemmas loop_defs = loop_job_add_def loop_job_del_def loop_timer_add_def loop_timer_del_def
  loop_timer_is_running_def

lemma heap_get_simps [res_simps]:
  "asm_get s a = Inr x \<longleftrightarrow> asms s a = Some x"
  "rsc_get s r = Inr y \<longleftrightarrow> rscs s r = Some y"
  "op_get s p = Inr z \<longleftrightarrow> ops s p = Some z"
  "trans_get s t = Inr u \<longleftrightarrow> transs s t = Some u"
  "sshop_get s q = Inr v \<longleftrightarrow> sshops s q = Some v"
  "graph_get s g = Inr w \<longleftrightarrow> graphs s g = Some w"
  by (auto simp: asm_get_def rsc_get_def op_get_def trans_get_def sshop_get_def graph_get_def
      derefE_eq_Inr)

text \<open>Taking a handler apart at its reads.\<close>

lemma okE_heap_get [okE_intros]:
  "(\<And>x. asms s a = Some x \<Longrightarrow> okE P (f1 x)) \<Longrightarrow> okE P (bindE (asm_get s a) f1)"
  "(\<And>x. rscs s r = Some x \<Longrightarrow> okE P (f2 x)) \<Longrightarrow> okE P (bindE (rsc_get s r) f2)"
  "(\<And>x. ops s p = Some x \<Longrightarrow> okE P (f3 x)) \<Longrightarrow> okE P (bindE (op_get s p) f3)"
  "(\<And>x. transs s t = Some x \<Longrightarrow> okE P (f4 x)) \<Longrightarrow> okE P (bindE (trans_get s t) f4)"
  "(\<And>x. sshops s q = Some x \<Longrightarrow> okE P (f5 x)) \<Longrightarrow> okE P (bindE (sshop_get s q) f5)"
  "(\<And>x. graphs s g = Some x \<Longrightarrow> okE P (f6 x)) \<Longrightarrow> okE P (bindE (graph_get s g) f6)"
  by (auto intro!: okE_bind_get simp: heap_get_simps)

text \<open>Whatever the cloud answered.\<close>

lemma okE_cloud_answer [okE_intros]:
  "(\<And>x. okE P (f1 x)) \<Longrightarrow> okE P (bindE (image_id_get c n) f1)"
  "(\<And>x. okE P (f1 x)) \<Longrightarrow> okE P (bindE (instance_create_from_image_id c n) f1)"
  "(\<And>x. okE P (f2 x)) \<Longrightarrow> okE P (bindE (instance_state_get c n) f2)"
  "(\<And>x. okE P (f3 x)) \<Longrightarrow> okE P (bindE (instance_destroy_by_instance_id c n) f3)"
  by (auto intro: okE_bind_get)

section \<open>The initial state\<close>

text \<open>
  \<^verbatim>\<open>cape_init\<close> of \<^verbatim>\<open>cape.c\<close> on the zeroed static variables: \<open>uuid\<close> is the text that libuuid generates.
\<close>

definition cape_init :: "bool \<Rightarrow> string \<Rightarrow> 'sw cape" where
  "cape_init debug uuid =
     \<lparr>application_name = [], application_uuid = [], crmd_uuid = uuid, cape_debug = debug, errno = 0,
      pe_doc = Text [], assembly_map = [], op_history_map = [], call_order = 0,
      asms = (\<lambda>_. None), next_asm = 0, rscs = (\<lambda>_. None), next_rsc = 0, ops = (\<lambda>_. None), next_op = 0,
      transs = (\<lambda>_. None), next_trans = 0, sshops = (\<lambda>_. None), next_sshop = 0, ssh_init_rc = -1,
      graphs = (\<lambda>_. None), next_graph = 0, working_set = False, graph_updated = False,
      transition_count = 0, jobs = [], timers = [], next_handle = 0, events = []\<rparr>"

section \<open>A concrete environment\<close>

text \<open>
  The environment in which every request succeeds at once; the concrete instances of the theorems use
  it, with single answers replaced where needed.
\<close>

definition demo_ssh :: ssh_answers where
  "demo_ssh = \<lparr>open_session_ok = True, last_errno = 0, exec_rc = 0, send_eof_rc = 0, wait_eof_rc = 0,
     close_rc = 0, read_rc = 0, read_stderr_rc = 0, wait_closed_rc = 0, exit_status = 0, free_rc = 0,
     session_init_ok = True, session_startup_rc = 0, userauth_rc = 0, keepalive_seconds = 15,
     connect_rc = 0, libssh2_init_rc = 0\<rparr>"

definition demo_cloud :: cloud_answers where
  "demo_cloud = \<lparr>image_id_get = (\<lambda>_. Inr (Some ''img'')),
     instance_create_from_image_id = (\<lambda>_. Inr (Some ''vm'')),
     instance_state_get = (\<lambda>_. Inr (Some (''ACTIVE'', Some ''10.0.0.1''))),
     instance_destroy_by_instance_id = (\<lambda>_. Inr True)\<rparr>"

definition demo_pcmk :: pcmk_answers where
  "demo_pcmk = \<lparr>update_graph = (\<lambda>g _. g), graph_fires = (\<lambda>_. []), graph_status = (\<lambda>_. transition_complete),
     do_calculations = (\<lambda>_. \<lparr>g_id = 0, g_abort_priority = 0, g_actions = []\<rparr>),
     validate_xml = (\<lambda>_. True), calculate_operation_digest = (\<lambda>_. ''digest''), crm_INFINITY = 1000000\<rparr>"

definition demo_env :: "sw_list env" where
  "demo_env = \<lparr>sw_lib = sw_list_ops, clock = 0, clock' = 0, time_now = 0, map_order = (\<lambda>ks. ks),
     ssh = demo_ssh, cloud = demo_cloud, pcmk = demo_pcmk\<rparr>"

definition demo_op :: pe_operation where
  "demo_op = \<lparr>op_hostname = ''web'', op_node_uuid = Some ''u1'', op_method = ''start'',
     op_rname = ''rsc_web_httpd'', op_rclass = ''lsb'', op_rprovider = None, op_rtype = ''httpd'',
     op_params = [], op_digest = Some ''digest'', op_timeout = 10000, op_times_executed = 0,
     op_interval = 0, op_target_outcome = 0, op_graph = 0, op_action = 0, op_resource = None,
     op_graph_id = 1, op_action_id = 1, op_refcount = 1\<rparr>"

text \<open>One running node with one resource and a connected transport.\<close>

definition demo_recover :: "nat \<Rightarrow> recover_fn \<Rightarrow> recover_fn \<Rightarrow> recover_fn \<Rightarrow> sw_list cape_recover" where
  "demo_recover i re es ch = \<lparr>rc_instance = Some i, rc_state = RECOVER_STATE_RUNNING, num_failures = -1,
     failure_period = -1, rc_sw = None, restart = re, escalate = es, state_changing = Some ch\<rparr>"

definition demo_node :: "sw_list assembly" where
  "demo_node = \<lparr>a_name = ''web'', a_uuid = ''u1'', a_address = Some ''10.0.0.1'', a_instance_id = ''vm'',
     a_image_id = ''img'', a_resource_map = [(''rsc_web_httpd'', 0)], a_transport = Some 0,
     a_recover = demo_recover 0 Node_recover_restart Node_recover_escalate Node_state_change_event\<rparr>"

definition demo_rsc :: "sw_list resource" where
  "demo_rsc = \<lparr>r_name = ''rsc_web_httpd'', r_type = ''httpd'', r_rclass = ''lsb'', r_rprovider = None,
     r_assembly = 0, r_monitor_op = None, r_monitor_timer = 0,
     r_recover = demo_recover 0 Resource_recover_restart Resource_recover_escalate
       Resource_state_change_event,
     r_ref_params_map = None\<rparr>"

definition demo_trans :: trans_ssh where
  "demo_trans = \<lparr>ts_ssh_state = SSH_SESSION_CONNECTED, ts_keepalive_timer = 0, ts_session = True,
     ts_address = Some ''10.0.0.1'', ts_ssh_op_head = [], ts_scheduled = False, ts_healthcheck_timer = 0\<rparr>"

definition demo_state :: "sw_list cape" where
  "demo_state = (cape_init False ''crmd'')
     \<lparr>application_name := ''app'', assembly_map := [(''web'', 0)], asms := [0 \<mapsto> demo_node], next_asm := 1,
      rscs := [0 \<mapsto> demo_rsc], next_rsc := 1, ops := [0 \<mapsto> demo_op], next_op := 1,
      transs := [0 \<mapsto> demo_trans], next_trans := 1\<rparr>"

lemmas demo_defs = demo_env_def demo_ssh_def demo_cloud_def demo_pcmk_def

lemmas demo_state_defs = demo_state_def demo_node_def demo_rsc_def demo_recover_def demo_trans_def
  demo_op_def cape_init_def

end
