(* ===== verification/Pcmk_Pe.thy ===== *)
theory Pcmk_Pe
  imports Cape_State
begin

text \<open>
  \<^verbatim>\<open>src/src/pcmk_pe.c\<close>: the layer over Pacemaker's policy engine. It translates exit codes, counts
  the references to an operation, turns the actions of a transition graph into operations, and runs
  one transition at a time as a chain of jobs. The graph itself belongs to Pacemaker; the code behind
  the registered \<^verbatim>\<open>pe_resource_execute_t\<close> pointer is the argument \<open>run_fn\<close>.
\<close>

section \<open>Exit codes\<close>

definition pe_resource_ocf_exitcode_get :: "pe_operation \<Rightarrow> int \<Rightarrow> ocf_exitcode" where
  "pe_resource_ocf_exitcode_get op lsb_exitcode =
     (if op_rclass op = ''lsb'' \<and> op_method op = ''monitor'' then
        (if lsb_exitcode = 0 then OCF_OK
         else if lsb_exitcode = 1 then OCF_NOT_RUNNING
         else if lsb_exitcode = 2 then OCF_NOT_RUNNING
         else if lsb_exitcode = 3 then OCF_NOT_RUNNING
         else if lsb_exitcode = 4 then OCF_UNKNOWN_ERROR
         else OCF_UNKNOWN_ERROR)
      else if lsb_exitcode > 7 then OCF_UNKNOWN_ERROR
      else lsb_exitcode)"

definition ocf_reasons :: "string list" where
  "ocf_reasons =
     [''OK'', ''unknown error'', ''invalid paramter'', ''unimplemented feature'',
      ''insufficient privliges'', ''not installed'', ''not configured'', ''not running'',
      ''already running on the master'', ''failed on the master'']"

definition pe_resource_is_hard_error :: "ocf_exitcode \<Rightarrow> bool" where
  "pe_resource_is_hard_error ec \<longleftrightarrow>
     ec = OCF_INVALID_PARAM \<or> ec = OCF_UNIMPLEMENT_FEATURE \<or> ec = OCF_INSUFFICIENT_PRIV \<or>
     ec = OCF_NOT_INSTALLED \<or> ec = OCF_NOT_CONFIGURED"

definition pe_resource_reason_get :: "ocf_exitcode \<Rightarrow> string" where
  "pe_resource_reason_get exitcode =
     (if exitcode = OCF_PENDING then ''Operation pending''
      else if exitcode < OCF_OK \<or> exitcode > OCF_FAILED_MASTER then ''Unknown Error''
      else ocf_reasons ! nat exitcode)"

section \<open>Reference counts\<close>

definition pe_resource_ref :: "op_ptr \<Rightarrow> 'sw cape \<Rightarrow> 'sw cape res" where
  "pe_resource_ref p s =
     bindE (op_get s p) (\<lambda>_.
     Inr (upd_op p (\<lambda>op. op\<lparr>op_refcount := op_refcount op + 1\<rparr>) s))"

text \<open>
  The last reference frees the operation and its strings; a digest that a history entry has freed
  already is freed a second time.
\<close>

definition pe_resource_unref :: "op_ptr \<Rightarrow> 'sw cape \<Rightarrow> 'sw cape res" where
  "pe_resource_unref p s =
     bindE (op_get s p) (\<lambda>op.
     if op_refcount op - 1 = 0 then
       bindE (derefE BadPtr (op_digest op)) (\<lambda>_.
       Inr (s\<lparr>ops := (ops s)(p := None)\<rparr>))
     else Inr (upd_op p (\<lambda>op. op\<lparr>op_refcount := op_refcount op - 1\<rparr>) s))"

section \<open>Actions of a graph\<close>

definition set_action :: "nat \<Rightarrow> (crm_action \<Rightarrow> crm_action) \<Rightarrow> crm_graph \<Rightarrow> crm_graph" where
  "set_action i f g = g\<lparr>g_actions := (g_actions g)[i := f (g_actions g ! i)]\<rparr>"

definition graph_confirm :: "'sw env \<Rightarrow> graph_ptr \<Rightarrow> nat \<Rightarrow> 'sw cape \<Rightarrow> 'sw cape" where
  "graph_confirm E g i s =
     (upd_graph g (\<lambda>gr. update_graph (pcmk E) (set_action i (\<lambda>a. a\<lparr>act_confirmed := True\<rparr>) gr) i) s)
       \<lparr>graph_updated := True\<rparr>"

definition pe_resource_completed :: "'sw env \<Rightarrow> op_ptr \<Rightarrow> u32 \<Rightarrow> 'sw cape \<Rightarrow> 'sw cape res" where
  "pe_resource_completed E p return_code s =
     bindE (op_get s p) (\<lambda>op.
     if \<not> working_set s then Inr s
     else
       bindE (graph_get s (op_graph op)) (\<lambda>_.
       let s = (if return_code \<noteq> op_target_outcome op
                then upd_graph (op_graph op) (\<lambda>gr.
                       (set_action (op_action op) (\<lambda>a. a\<lparr>act_failed := True\<rparr>) gr)
                         \<lparr>g_abort_priority := crm_INFINITY (pcmk E)\<rparr>) s
                else s)
       in Inr (graph_confirm E (op_graph op) (op_action op) s)))"

definition PE_DEFAULT_TIMEOUT :: u32 where "PE_DEFAULT_TIMEOUT = 10000"

text \<open>The operation built from an action; \<open>g\<close> is the address of its graph and \<open>i\<close> the action.\<close>

definition pe_operation_of ::
  "'sw env \<Rightarrow> graph_ptr \<Rightarrow> crm_graph \<Rightarrow> nat \<Rightarrow> crm_action \<Rightarrow> action_rsc \<Rightarrow> pe_operation" where
  "pe_operation_of E g gr i act rsc =
     \<lparr>op_hostname = act_node act,
      op_node_uuid = act_uuid act,
      op_method = act_op_type act,
      op_rname = ar_id rsc,
      op_rclass = ar_class rsc,
      op_rprovider = ar_provider rsc,
      op_rtype = ar_type rsc,
      op_params = act_params act,
      op_digest = Some (calculate_operation_digest (pcmk E) (act_params act)),
      op_timeout = (if act_timeout act = 0
                    then (if act_interval act = 0 then PE_DEFAULT_TIMEOUT else act_interval act div 2)
                    else act_timeout act),
      op_times_executed = 0,
      op_interval = act_interval act,
      op_target_outcome = (case act_target_rc act of None \<Rightarrow> 0 | Some rc \<Rightarrow> word_of_int rc),
      op_graph = g,
      op_action = i,
      op_resource = None,
      op_graph_id = g_id gr,
      op_action_id = act_id act,
      op_refcount = 1\<rparr>"

definition exec_rsc_action ::
  "'sw env \<Rightarrow> (op_ptr \<Rightarrow> 'sw cape \<Rightarrow> 'sw cape res) \<Rightarrow> graph_ptr \<Rightarrow> nat \<Rightarrow> 'sw cape \<Rightarrow>
   (bool \<times> 'sw cape) res" where
  "exec_rsc_action E run_fn g i s =
     bindE (graph_get s g) (\<lambda>gr.
     let act = g_actions gr ! i in
     if act_operation act = ''probe_complete'' then Inr (True, graph_confirm E g i s)
     else (case act_rsc act of
        None \<Rightarrow> Inr (False, s)
      | Some rsc \<Rightarrow>
          let p = next_op s;
              s = s\<lparr>ops := (ops s)(p := Some (pe_operation_of E g gr i act rsc)), next_op := Suc p\<rparr>
          in bindE (run_fn p s) (\<lambda>s. Inr (True, s))))"

definition exec_pseudo_action :: "'sw env \<Rightarrow> graph_ptr \<Rightarrow> nat \<Rightarrow> 'sw cape \<Rightarrow> (bool \<times> 'sw cape) res" where
  "exec_pseudo_action E g i s = bindE (graph_get s g) (\<lambda>_. Inr (True, graph_confirm E g i s))"

definition exec_crmd_action :: "'sw env \<Rightarrow> graph_ptr \<Rightarrow> nat \<Rightarrow> 'sw cape \<Rightarrow> (bool \<times> 'sw cape) res" where
  "exec_crmd_action E g i s = bindE (graph_get s g) (\<lambda>_. Inr (True, graph_confirm E g i s))"

definition exec_stonith_action :: "'sw env \<Rightarrow> graph_ptr \<Rightarrow> nat \<Rightarrow> 'sw cape \<Rightarrow> (bool \<times> 'sw cape) res" where
  "exec_stonith_action E g i s = bindE (graph_get s g) (\<lambda>_. Inr (True, graph_confirm E g i s))"

text \<open>The table \<open>graph_exec_fns\<close>, through which \<^verbatim>\<open>run_graph\<close> fires an action.\<close>

fun graph_exec_fns ::
  "'sw env \<Rightarrow> (op_ptr \<Rightarrow> 'sw cape \<Rightarrow> 'sw cape res) \<Rightarrow> graph_ptr \<Rightarrow> action_kind \<times> nat \<Rightarrow>
   'sw cape \<Rightarrow> (bool \<times> 'sw cape) res" where
  "graph_exec_fns E run_fn g (Pseudo_action, i) s = exec_pseudo_action E g i s"
| "graph_exec_fns E run_fn g (Rsc_action, i) s = exec_rsc_action E run_fn g i s"
| "graph_exec_fns E run_fn g (Crmd_action, i) s = exec_crmd_action E g i s"
| "graph_exec_fns E run_fn g (Stonith_action, i) s = exec_stonith_action E g i s"

section \<open>Running a transition\<close>

definition pe_is_busy_processing :: "'sw cape \<Rightarrow> bool" where
  "pe_is_busy_processing s = working_set s"

definition process_next_job ::
  "'sw env \<Rightarrow> (op_ptr \<Rightarrow> 'sw cape \<Rightarrow> 'sw cape res) \<Rightarrow> graph_ptr \<Rightarrow> 'sw cape \<Rightarrow> 'sw cape res" where
  "process_next_job E run_fn g s =
     (if \<not> graph_updated s then Inr (loop_job_add (Process_next_job g) s)
      else
        let s = s\<lparr>graph_updated := False\<rparr> in
        bindE (graph_get s g) (\<lambda>gr.
        bindE (foldE (\<lambda>x s. bindE (graph_exec_fns E run_fn g x s) (\<lambda>(_, s). Inr s))
                 (graph_fires (pcmk E) gr) s) (\<lambda>s.
        bindE (graph_get s g) (\<lambda>gr.
        let graph_rc = graph_status (pcmk E) gr in
        if graph_rc = transition_active \<or> graph_rc = transition_pending
        then Inr (loop_job_add (Process_next_job g) s)
        else Inr (s\<lparr>graphs := (graphs s)(g := None), working_set := False\<rparr>)))))"

definition EEXIST :: int where "EEXIST = 17"

definition pe_process_state :: "'sw env \<Rightarrow> xml \<Rightarrow> bool \<Rightarrow> 'sw cape \<Rightarrow> (int \<times> 'sw cape) res" where
  "pe_process_state E doc debug s =
     (if working_set s then Inr (- EEXIST, s)
      else
        let s = s\<lparr>transition_count := transition_count s + 1\<rparr> in
        bindE (if debug then assertE (validate_xml (pcmk E) doc) s else Inr s) (\<lambda>s.
        let g = next_graph s;
            s = s\<lparr>working_set := True,
                  graphs := (graphs s)(g := Some (do_calculations (pcmk E) doc)),
                  next_graph := Suc g,
                  graph_updated := True\<rparr>
        in Inr (0, loop_job_add (Process_next_job g) s)))"

lemma pe_process_state_started:
  assumes "pe_process_state E doc debug s = Inr (rc, s')" and "\<not> working_set s"
  shows "rc = 0"
    and "s' = loop_job_add (Process_next_job (next_graph s))
       (s\<lparr>transition_count := transition_count s + 1, working_set := True,
          graphs := (graphs s)(next_graph s := Some (do_calculations (pcmk E) doc)),
          next_graph := Suc (next_graph s), graph_updated := True\<rparr>)"
  using assms by (auto simp: pe_process_state_def Let_def assertE_def split: if_splits)

section \<open>The life of an operation\<close>

text \<open>\<open>n\<close> further references, and \<open>n\<close> references given back.\<close>

primrec pe_resource_refs :: "nat \<Rightarrow> op_ptr \<Rightarrow> 'sw cape \<Rightarrow> 'sw cape res" where
  "pe_resource_refs 0 p s = Inr s"
| "pe_resource_refs (Suc n) p s = bindE (pe_resource_refs n p s) (pe_resource_ref p)"

primrec pe_resource_unrefs :: "nat \<Rightarrow> op_ptr \<Rightarrow> 'sw cape \<Rightarrow> 'sw cape res" where
  "pe_resource_unrefs 0 p s = Inr s"
| "pe_resource_unrefs (Suc n) p s = bindE (pe_resource_unrefs n p s) (pe_resource_unref p)"

lemma unat_u32 [simp]: "n < 2 ^ 32 \<Longrightarrow> unat (of_nat n :: u32) = n"
  by (simp add: unat_of_nat take_bit_nat_eq_self)

lemma unat_less_2_32: "unat (w :: u32) < 2 ^ 32"
  using unsigned_less [of w] by simp

text \<open>The operation with another reference count.\<close>

definition counted :: "op_ptr \<Rightarrow> u32 \<Rightarrow> 'sw cape \<Rightarrow> 'sw cape" where
  "counted p n = upd_op p (\<lambda>op. op\<lparr>op_refcount := n\<rparr>)"

lemma counted_simps [simp]:
  "ops (counted p n s) p = map_option (\<lambda>op. op\<lparr>op_refcount := n\<rparr>) (ops s p)"
  "counted p n (counted p m s) = counted p n s"
  "(counted p n s)\<lparr>ops := (ops (counted p n s))(p := None)\<rparr> = s\<lparr>ops := (ops s)(p := None)\<rparr>"
  by (cases "ops s p"; simp add: counted_def upd_op_def)+

lemma counted_same: "ops s p = Some op \<Longrightarrow> op_refcount op = n \<Longrightarrow> counted p n s = s"
  by (auto simp: counted_def upd_op_def fun_upd_idem)

lemma ref_counted:
  "ops s p = Some op \<Longrightarrow> pe_resource_ref p s = Inr (counted p (op_refcount op + 1) s)"
  by (simp add: pe_resource_ref_def op_get_def upd_op_def counted_def)

lemma unref_counted:
  "ops s p = Some op \<Longrightarrow> op_refcount op \<noteq> 1 \<Longrightarrow>
   pe_resource_unref p s = Inr (counted p (op_refcount op - 1) s)"
  by (simp add: pe_resource_unref_def op_get_def upd_op_def counted_def)

lemma unref_last:
  "ops s p = Some op \<Longrightarrow> op_refcount op = 1 \<Longrightarrow> op_digest op = Some d \<Longrightarrow>
   pe_resource_unref p s = Inr (s\<lparr>ops := (ops s)(p := None)\<rparr>)"
  by (simp add: pe_resource_unref_def op_get_def)

lemma refs_counted:
  assumes "ops s p = Some op"
  shows "pe_resource_refs n p s = Inr (counted p (op_refcount op + of_nat n) s)"
proof (induction n)
  case 0
  then show ?case using assms by (simp add: counted_same)
next
  case (Suc n)
  with assms show ?case by (simp add: ref_counted ac_simps)
qed

lemma unrefs_counted:
  assumes "ops s p = Some op" and "n < unat (op_refcount op)"
  shows "pe_resource_unrefs n p s = Inr (counted p (op_refcount op - of_nat n) s)"
  using assms(2)
proof (induction n)
  case 0
  then show ?case using assms(1) by (simp add: counted_same)
next
  case (Suc n)
  have "unat (of_nat (Suc n) :: u32) = Suc n"
    using Suc.prems unat_less_2_32 [of "op_refcount op"] by (intro unat_u32) simp
  with Suc.prems have "op_refcount op \<noteq> of_nat (Suc n)" by auto
  then have "op_refcount op - of_nat n \<noteq> 1" by (auto simp: algebra_simps)
  with assms(1) Suc show ?case by (simp add: unref_counted algebra_simps)
qed

text \<open>
  C9. An operation lives exactly as long as it is referenced: a new operation that was given \<open>n\<close>
  further references survives the return of any \<open>k \<le> n\<close> of them, with all its data but the count as
  it was; the return number \<open>n + 1\<close> frees it and nothing else, and one more is a use after free. The
  bound on \<open>n\<close> is the range of the 32-bit counter.
\<close>

theorem operation_lifetime:
  assumes "ops s p = Some op" and "op_refcount op = 1" and "op_digest op = Some d"
    and "k \<le> n" and "n < 2 ^ 32 - 1"
  shows "bindE (pe_resource_refs n p s) (pe_resource_unrefs k p) = Inr (counted p (of_nat (Suc n - k)) s) \<and>
    bindE (pe_resource_refs n p s) (pe_resource_unrefs (Suc n) p) = Inr (s\<lparr>ops := (ops s)(p := None)\<rparr>) \<and>
    bindE (pe_resource_refs n p s) (pe_resource_unrefs (Suc (Suc n)) p) = Inl BadPtr"
proof -
  let ?s = "counted p (of_nat (Suc n)) s"
  have refs: "pe_resource_refs n p s = Inr ?s"
    using refs_counted [OF assms(1)] assms(2) by simp
  have n: "unat (of_nat (Suc n) :: u32) = Suc n"
    using assms(5) by (intro unat_u32) simp
  have unrefs: "pe_resource_unrefs j p ?s = Inr (counted p (of_nat (Suc n - j)) s)" if "j \<le> n" for j
    using unrefs_counted [of ?s p "op\<lparr>op_refcount := of_nat (Suc n)\<rparr>" j] n that assms(1)
    by (simp add: of_nat_diff algebra_simps)
  have last: "pe_resource_unrefs (Suc n) p ?s = Inr (s\<lparr>ops := (ops s)(p := None)\<rparr>)"
    using unrefs [of n] assms(1,3) unref_last [of "counted p 1 s"] by simp
  then have "pe_resource_unrefs (Suc (Suc n)) p ?s = Inl BadPtr"
    unfolding pe_resource_unrefs.simps(2) [of "Suc n"] by (simp add: pe_resource_unref_def op_get_def)
  with refs unrefs [OF assms(4)] last show ?thesis by simp
qed

theorem operation_lifetime_witness:
  "bindE (pe_resource_refs 3 0 ((cape_init False ''crmd'' :: sw_list cape)\<lparr>ops := [0 \<mapsto> demo_op]\<rparr>))
     (pe_resource_unrefs (Suc 3) 0) = Inr (cape_init False ''crmd'')"
  using operation_lifetime [of "(cape_init False ''crmd'' :: sw_list cape)\<lparr>ops := [0 \<mapsto> demo_op]\<rparr>" 0 demo_op
      "''digest''" 3 3]
  by (simp add: demo_op_def cape_init_def)

end
