(* ===== verification/Trans_Ssh.thy ===== *)
theory Trans_Ssh
  imports Pcmk_Pe
begin

text \<open>
  \<^verbatim>\<open>src/src/trans_ssh.c\<close>, the operations that the rest of the engine calls: connecting and
  disconnecting a node's transport, and queueing a command on it. A transport executes one command at
  a time; the others wait in \<open>ts_ssh_op_head\<close>. The handlers that the event loop runs (the channel
  state machine, timeouts, completions) are in \<^verbatim>\<open>Ssh_Events.thy\<close>, after the engine they call back.
\<close>

definition COMMAND_MAX :: nat where "COMMAND_MAX = 32000"
definition RESOURCE_ENVIRONMENT_MAX :: nat where "RESOURCE_ENVIRONMENT_MAX = 2048"
definition SSH_TIMEOUT :: nat where "SSH_TIMEOUT = 5000"
definition HEALTHCHECK_TIMEOUT :: nat where "HEALTHCHECK_TIMEOUT = 3000"
definition PENDING_TIMEOUT :: nat where "PENDING_TIMEOUT = 250"
definition QB_TIME_NS_IN_MSEC :: nat where "QB_TIME_NS_IN_MSEC = 1000000"
definition OCF_ROOT :: string where "OCF_ROOT = ''/usr/lib/ocf''"

section \<open>The command queue\<close>

definition transport_schedule :: "trans_ptr \<Rightarrow> 'sw cape \<Rightarrow> 'sw cape res" where
  "transport_schedule t s =
     bindE (trans_get s t) (\<lambda>ts.
     case ts_ssh_op_head ts of
       q # _ \<Rightarrow> Inr (loop_job_add (Assembly_ssh_exec q) (upd_trans t (\<lambda>ts. ts\<lparr>ts_scheduled := True\<rparr>) s))
     | [] \<Rightarrow> Inr (upd_trans t (\<lambda>ts. ts\<lparr>ts_scheduled := False\<rparr>) s))"

text \<open>
  With an empty queue the code computes an address inside the transport itself, for which no job was
  ever added.
\<close>

definition transport_unschedule :: "trans_ptr \<Rightarrow> 'sw cape \<Rightarrow> 'sw cape res" where
  "transport_unschedule t s =
     bindE (trans_get s t) (\<lambda>ts.
     if ts_scheduled ts then
       (let s = upd_trans t (\<lambda>ts. ts\<lparr>ts_scheduled := False\<rparr>) s
        in case ts_ssh_op_head ts of
             q # _ \<Rightarrow> Inr (loop_job_del (Assembly_ssh_exec q) s)
           | [] \<Rightarrow> Inr s)
     else Inr s)"

definition transport_failed :: "trans_ptr \<Rightarrow> 'sw cape \<Rightarrow> 'sw cape res" where
  "transport_failed t s =
     bindE (trans_get s t) (\<lambda>ts. Inr (loop_timer_del (ts_keepalive_timer ts) s))"

definition new_ssh_op :: "trans_ptr \<Rightarrow> ssh_client \<Rightarrow> string \<Rightarrow> ssh_op" where
  "new_ssh_op t client command =
     \<lparr>so_ssh_rc = 0, so_timer = 0, so_exec_state = SSH_CHANNEL_OPEN, so_client = client,
      so_channel = False, so_failed = False, so_command = command, so_transport = t\<rparr>"

definition transport_execute ::
  "trans_ptr option \<Rightarrow> ssh_client \<Rightarrow> nat \<Rightarrow> string \<Rightarrow> 'sw cape \<Rightarrow> 'sw cape res" where
  "transport_execute transport client timeout_msec command s =
     bindE (derefE AssertFail transport) (\<lambda>t.
     bindE (trans_get s t) (\<lambda>ts.
     if ts_ssh_state ts \<noteq> SSH_SESSION_CONNECTED then Inr s
     else
       let q = next_sshop s;
           s = s\<lparr>sshops := (sshops s)(q := Some (new_ssh_op t client (snprintf COMMAND_MAX command))),
                 next_sshop := Suc q\<rparr>;
           s = upd_trans t (\<lambda>ts. ts\<lparr>ts_ssh_op_head := ts_ssh_op_head ts @ [q]\<rparr>) s
       in bindE (if ts_scheduled ts then Inr s else transport_schedule t s) (\<lambda>s.
          let (h, s) = loop_timer_add (Ssh_timeout q) (timeout_msec * QB_TIME_NS_IN_MSEC) s
          in Inr (upd_sshop q (\<lambda>so. so\<lparr>so_timer := h\<rparr>) s))))"

section \<open>Resource actions as commands\<close>

definition set_ocf_env_with_prefix :: "string \<times> string \<Rightarrow> string" where
  "set_ocf_env_with_prefix kv = ''OCF_RESKEY_'' @ fst kv @ ''='' @ snd kv"

text \<open>The environment string of an OCF action, built by \<^verbatim>\<open>strcat\<close> in a buffer of 2048 bytes.\<close>

definition ocf_envs :: "'sw env \<Rightarrow> pe_operation \<Rightarrow> string" where
  "ocf_envs E op =
     ''OCF_RA_VERSION_MAJOR=1 OCF_RA_VERSION_MINOR=0 OCF_ROOT='' @ OCF_ROOT @
     ''OCF_RESOURCE_INSTANCE='' @ op_rname op @
     ''OCF_RESOURCE_TYPE='' @ op_rtype op @
     (case op_rprovider op of None \<Rightarrow> [] | Some prov \<Rightarrow> ''OCF_RESOURCE_PROVIDER='' @ prov) @
     concat (map (\<lambda>k. case qb_map_get (op_params op) k of
                        None \<Rightarrow> [] | Some v \<Rightarrow> set_ocf_env_with_prefix (k, v))
              (map_order E (qb_keys (op_params op))))"

definition c_string :: "string option \<Rightarrow> string" where
  "c_string str = (case str of None \<Rightarrow> ''(null)'' | Some x \<Rightarrow> x)"

definition resource_command :: "'sw env \<Rightarrow> pe_operation \<Rightarrow> string res" where
  "resource_command E op =
     (if op_rclass op = ''lsb'' then
        (if op_method op = ''monitor''
         then Inr (''systemctl status '' @ op_rtype op @ ''.service'')
         else Inr (''systemctl '' @ op_method op @ '' '' @ op_rtype op @ ''.service''))
      else if length (ocf_envs E op) < RESOURCE_ENVIRONMENT_MAX then
        Inr (ocf_envs E op @ '' '' @ OCF_ROOT @ ''/resource.d/'' @ c_string (op_rprovider op) @ ''/'' @
             op_rtype op @ '' '' @ op_method op @ '' )'')
      else Inl BufferOverflow)"

definition transport_resource_action ::
  "'sw env \<Rightarrow> asm_ptr \<Rightarrow> rsc_ptr option \<Rightarrow> op_ptr \<Rightarrow> 'sw cape \<Rightarrow> 'sw cape res" where
  "transport_resource_action E a r p s =
     bindE (asm_get s a) (\<lambda>assembly.
     bindE (pe_resource_ref p s) (\<lambda>s.
     bindE (op_get s p) (\<lambda>op.
     bindE (resource_command E op) (\<lambda>command.
     transport_execute (a_transport assembly)
       (Resource_action \<lparr>ra_assembly = a, ra_resource = r, ra_pe_op = p\<rparr>) SSH_TIMEOUT command s))))"

section \<open>Connecting and disconnecting\<close>

definition transport_connect :: "'sw env \<Rightarrow> asm_ptr \<Rightarrow> 'sw cape \<Rightarrow> 'sw cape res" where
  "transport_connect E a s =
     (let s = (if ssh_init_rc s \<noteq> 0 then s\<lparr>ssh_init_rc := libssh2_init_rc (ssh E)\<rparr> else s) in
      bindE (assertE (ssh_init_rc s = 0) s) (\<lambda>s.
      bindE (asm_get s a) (\<lambda>assembly.
      bindE (derefE NullDeref (a_address assembly)) (\<lambda>address.
      let t = next_trans s;
          ts = \<lparr>ts_ssh_state = SSH_SESSION_CONNECTING, ts_keepalive_timer = 0, ts_session = False,
                ts_address = Some address, ts_ssh_op_head = [], ts_scheduled = False,
                ts_healthcheck_timer = 0\<rparr>;
          s = s\<lparr>transs := (transs s)(t := Some ts), next_trans := Suc t\<rparr>;
          s = upd_asm a (\<lambda>x. x\<lparr>a_transport := Some t\<rparr>) s
      in Inr (loop_job_add (Connect_execute a) s)))))"

text \<open>One round of the loop that deletes the outstanding commands of a transport.\<close>

definition ssh_op_delete :: "sshop_ptr \<Rightarrow> 'sw cape \<Rightarrow> 'sw cape res" where
  "ssh_op_delete q s =
     bindE (sshop_get s q) (\<lambda>so.
     let s = loop_timer_del (so_timer so) s
     in Inr (s\<lparr>sshops := (sshops s)(q := None)\<rparr>))"

text \<open>The first and the last part of \<open>transport_disconnect\<close>.\<close>

definition disconnect_begin :: "asm_ptr \<Rightarrow> trans_ssh \<Rightarrow> 'sw cape \<Rightarrow> 'sw cape" where
  "disconnect_begin a ts s =
     (let s = loop_timer_del (ts_healthcheck_timer ts) s;
          s = (if ts_ssh_state ts = SSH_SESSION_INIT then loop_job_del (Connect_execute a) s else s)
      in if ts_ssh_state ts \<noteq> SSH_SESSION_CONNECTED then loop_job_del (Ssh_assembly_connect a) s else s)"

definition disconnect_end :: "asm_ptr \<Rightarrow> trans_ptr \<Rightarrow> trans_ssh \<Rightarrow> 'sw cape \<Rightarrow> 'sw cape" where
  "disconnect_end a t ts s =
     (let s = (if ts_ssh_state ts \<in> {SSH_SESSION_CONNECTED, SSH_SESSION_STARTUP,
                 SSH_USERAUTH_PUBLICKEY_FROMFILE, SSH_KEEPALIVE_CONFIG}
               then loop_timer_del (ts_keepalive_timer ts) s else s);
          s = (if ts_ssh_state ts \<in> {SSH_SESSION_CONNECTED, SSH_SESSION_STARTUP,
                 SSH_USERAUTH_PUBLICKEY_FROMFILE, SSH_KEEPALIVE_CONFIG, SSH_SESSION_INIT}
               then loop_job_del (Ssh_assembly_connect a) s else s)
      in s\<lparr>transs := (transs s)(t := None)\<rparr>)"

text \<open>
  The transport is freed, and the node keeps the pointer to it.
\<close>

definition transport_disconnect :: "asm_ptr \<Rightarrow> 'sw cape \<Rightarrow> 'sw cape res" where
  "transport_disconnect a s =
     bindE (asm_get s a) (\<lambda>assembly.
     case a_transport assembly of
       None \<Rightarrow> Inr s
     | Some t \<Rightarrow>
         bindE (trans_get s t) (\<lambda>ts.
         let s = disconnect_begin a ts s in
         bindE (if ts_ssh_state ts = SSH_SESSION_CONNECTED then transport_unschedule t s else Inr s) (\<lambda>s.
         bindE (foldE ssh_op_delete (ts_ssh_op_head ts) s) (\<lambda>s.
         Inr (disconnect_end a t ts s)))))"

end
