(* ===== verification/Inst_Ctrl.thy ===== *)
theory Inst_Ctrl
  imports Trans_Ssh
begin

text \<open>
  \<^verbatim>\<open>src/src/inst_ctrl.c\<close>: creating and destroying the virtual machine of a node. The cloud interface
  (\<^verbatim>\<open>inst_ctrl.h\<close>, implemented by \<^verbatim>\<open>openstackv1.c\<close> or \<^verbatim>\<open>deltacloud.c\<close>) answers through completion
  functions, which copy identifiers into buffers of 64 bytes. The completion of a state request is in
  \<^verbatim>\<open>Ssh_Events.thy\<close>, since it reports to the failure bookkeeping.
\<close>

definition ID_MAX :: nat where "ID_MAX = 64"

definition image_id_get_completion :: "string \<Rightarrow> asm_ptr \<Rightarrow> 'sw cape \<Rightarrow> 'sw cape res" where
  "image_id_get_completion image_id a s =
     bindE (asm_get s a) (\<lambda>_.
     if length image_id < ID_MAX then Inr (upd_asm a (\<lambda>x. x\<lparr>a_image_id := image_id\<rparr>) s)
     else Inl BufferOverflow)"

definition instance_create_completion :: "string \<Rightarrow> asm_ptr \<Rightarrow> 'sw cape \<Rightarrow> 'sw cape res" where
  "instance_create_completion instance_id a s =
     bindE (asm_get s a) (\<lambda>_.
     if length instance_id < ID_MAX then Inr (upd_asm a (\<lambda>x. x\<lparr>a_instance_id := instance_id\<rparr>) s)
     else Inl BufferOverflow)"

definition instance_destroy_completion :: "asm_ptr \<Rightarrow> 'sw cape \<Rightarrow> 'sw cape res" where
  "instance_destroy_completion a s =
     bindE (asm_get s a) (\<lambda>_. Inr (upd_asm a (\<lambda>x. x\<lparr>a_instance_id := []\<rparr>) s))"

definition instance_create :: "'sw env \<Rightarrow> asm_ptr \<Rightarrow> 'sw cape \<Rightarrow> 'sw cape res" where
  "instance_create E a s =
     bindE (asm_get s a) (\<lambda>assembly.
     bindE (image_id_get (cloud E) (a_name assembly)) (\<lambda>answer.
     bindE (case answer of
              None \<Rightarrow> Inr s
            | Some image_id \<Rightarrow> image_id_get_completion image_id a s) (\<lambda>s.
     bindE (asm_get s a) (\<lambda>assembly.
     bindE (instance_create_from_image_id (cloud E) (a_image_id assembly)) (\<lambda>answer.
     bindE (case answer of
              None \<Rightarrow> Inr s
            | Some instance_id \<Rightarrow> instance_create_completion instance_id a s) (\<lambda>s.
     Inr (loop_job_add (My_instance_state_get a) s)))))))"

definition instance_destroy :: "'sw env \<Rightarrow> asm_ptr \<Rightarrow> 'sw cape \<Rightarrow> 'sw cape res" where
  "instance_destroy E a s =
     bindE (asm_get s a) (\<lambda>assembly.
     bindE (instance_destroy_by_instance_id (cloud E) (a_instance_id assembly)) (\<lambda>completed.
     if completed then instance_destroy_completion a s else Inr s))"

end
