(* ===== verification/Cape_Engine.thy ===== *)
theory Cape_Engine
  imports Inst_Ctrl
begin

text \<open>
  \<^verbatim>\<open>src/src/cape.c\<close>, the core of the policy engine: the history of resource operations, the recurring
  monitors, the reactions to state changes of nodes and resources, and the execution of the
  operations that the policy engine asks for. The parts of \<^verbatim>\<open>cape.c\<close> that build the status document
  are in \<^verbatim>\<open>Cape_Status.thy\<close>.
\<close>

section \<open>Operation history\<close>

definition RESOURCE_NAME_MAX :: nat where "RESOURCE_NAME_MAX = 1024"
definition METHOD_NAME_MAX :: nat where "METHOD_NAME_MAX = 20"
definition OP_NAME_MAX :: nat where "OP_NAME_MAX = 15"

definition history_key :: "string \<Rightarrow> string \<Rightarrow> u32 \<Rightarrow> string" where
  "history_key rname method interval =
     snprintf (RESOURCE_NAME_MAX + METHOD_NAME_MAX + OP_NAME_MAX + 3)
       (rname @ ''_'' @ method @ ''_'' @ show_d interval)"

definition digest_read :: "'sw cape \<Rightarrow> digest \<Rightarrow> string res" where
  "digest_read s d =
     (case d of
        Own_digest x \<Rightarrow> Inr x
      | Digest_of q \<Rightarrow> bindE (op_get s q) (\<lambda>op. derefE BadPtr (op_digest op)))"

definition digest_free :: "digest \<Rightarrow> 'sw cape \<Rightarrow> 'sw cape res" where
  "digest_free d s =
     (case d of
        Own_digest x \<Rightarrow> Inr s
      | Digest_of q \<Rightarrow>
          bindE (digest_read s d) (\<lambda>_. Inr (upd_op q (\<lambda>op. op\<lparr>op_digest := None\<rparr>) s)))"

definition new_history :: "rsc_ptr option \<Rightarrow> string \<Rightarrow> pe_operation \<Rightarrow> string \<Rightarrow> operation_history" where
  "new_history r key op dig =
     \<lparr>oh_rsc_id = key, oh_operation = op_method op, oh_call_id = 0, oh_interval = op_interval op,
      oh_rc = OCF_PENDING, oh_target_outcome = op_target_outcome op, oh_last_run = 0,
      oh_last_rc_change = 0, oh_graph_id = 0, oh_action_id = 0, oh_op_digest = Own_digest dig,
      oh_resource = r\<rparr>"

text \<open>
  The entry of an operation: a new one, or the recorded one. A recorded digest that differs is freed
  and replaced by the pointer to the operation's digest, which is not copied.
\<close>

definition history_entry ::
  "rsc_ptr option \<Rightarrow> op_ptr \<Rightarrow> pe_operation \<Rightarrow> string \<Rightarrow> 'sw cape \<Rightarrow>
   (operation_history \<times> 'sw cape) res" where
  "history_entry r p op key s =
     bindE (derefE BadPtr (op_digest op)) (\<lambda>dig.
     case qb_map_get (op_history_map s) key of
       None \<Rightarrow> Inr (new_history r key op dig, s)
     | Some oh \<Rightarrow>
         bindE (digest_read s (oh_op_digest oh)) (\<lambda>old.
         if old \<noteq> dig
         then bindE (digest_free (oh_op_digest oh) s) (\<lambda>s. Inr (oh\<lparr>oh_op_digest := Digest_of p\<rparr>, s))
         else Inr (oh, s)))"

definition op_history_save ::
  "'sw env \<Rightarrow> rsc_ptr option \<Rightarrow> op_ptr \<Rightarrow> ocf_exitcode \<Rightarrow> 'sw cape \<Rightarrow> 'sw cape res" where
  "op_history_save E r p ec s =
     bindE (op_get s p) (\<lambda>op.
     let key = history_key (op_rname op) (op_method op) (op_interval op) in
     bindE (history_entry r p op key s) (\<lambda>(oh, s).
     let oh = (if oh_rc oh \<noteq> ec then oh\<lparr>oh_last_rc_change := time_now E, oh_rc := ec\<rparr> else oh);
         oh = oh\<lparr>oh_last_run := time_now E, oh_call_id := call_order s,
                 oh_graph_id := op_graph_id op, oh_action_id := op_action_id op\<rparr>
     in Inr (s\<lparr>op_history_map := qb_map_put key oh (op_history_map s),
               call_order := call_order s + 1\<rparr>)))"

section \<open>State changes\<close>

fun state_str :: "recover_state \<Rightarrow> recover_state \<Rightarrow> string option" where
  "state_str RECOVER_STATE_UNKNOWN RECOVER_STATE_UNKNOWN = None"
| "state_str RECOVER_STATE_UNKNOWN RECOVER_STATE_RUNNING = Some ''running''"
| "state_str RECOVER_STATE_UNKNOWN RECOVER_STATE_FAILED = None"
| "state_str RECOVER_STATE_UNKNOWN RECOVER_STATE_STOPPED = Some ''needs starting''"
| "state_str RECOVER_STATE_UNKNOWN RECOVER_STATE_UNRECOVERABLE = Some ''unrecoverable''"
| "state_str RECOVER_STATE_RUNNING RECOVER_STATE_UNKNOWN = Some ''unknown''"
| "state_str RECOVER_STATE_RUNNING RECOVER_STATE_RUNNING = None"
| "state_str RECOVER_STATE_RUNNING RECOVER_STATE_FAILED = Some ''recovering''"
| "state_str RECOVER_STATE_RUNNING RECOVER_STATE_STOPPED = Some ''stopped''"
| "state_str RECOVER_STATE_RUNNING RECOVER_STATE_UNRECOVERABLE = Some ''unrecoverable''"
| "state_str RECOVER_STATE_FAILED RECOVER_STATE_UNKNOWN = Some ''unknown''"
| "state_str RECOVER_STATE_FAILED RECOVER_STATE_RUNNING = Some ''running''"
| "state_str RECOVER_STATE_FAILED RECOVER_STATE_FAILED = None"
| "state_str RECOVER_STATE_FAILED RECOVER_STATE_STOPPED = Some ''stopped''"
| "state_str RECOVER_STATE_FAILED RECOVER_STATE_UNRECOVERABLE = Some ''unrecoverable''"
| "state_str RECOVER_STATE_STOPPED RECOVER_STATE_UNKNOWN = Some ''unknown''"
| "state_str RECOVER_STATE_STOPPED RECOVER_STATE_RUNNING = Some ''started''"
| "state_str RECOVER_STATE_STOPPED RECOVER_STATE_FAILED = None"
| "state_str RECOVER_STATE_STOPPED RECOVER_STATE_STOPPED = None"
| "state_str RECOVER_STATE_STOPPED RECOVER_STATE_UNRECOVERABLE = Some ''unrecoverable''"
| "state_str RECOVER_STATE_UNRECOVERABLE _ = None"

text \<open>A call of \<^verbatim>\<open>cape_admin_event_send\<close> is recorded with its arguments.\<close>

definition event_send :: "event \<Rightarrow> 'sw cape \<Rightarrow> 'sw cape" where
  "event_send ev s = s\<lparr>events := events s @ [ev]\<rparr>"

definition resource_state_change_event ::
  "rsc_ptr \<Rightarrow> recover_state \<Rightarrow> recover_state \<Rightarrow> 'sw cape \<Rightarrow> 'sw cape res" where
  "resource_state_change_event r from to s =
     bindE (rsc_get s r) (\<lambda>rsc.
     bindE (asm_get s (r_assembly rsc)) (\<lambda>assembly.
     Inr (event_send \<lparr>ev_app = application_name s, ev_node = a_name assembly,
            ev_resource = Some (r_name rsc), ev_state = state_str from to, ev_reason = ''bla''\<rparr> s)))"

definition resource_recover_restart :: "rsc_ptr \<Rightarrow> 'sw cape \<Rightarrow> 'sw cape res" where
  "resource_recover_restart r s =
     bindE (rsc_get s r) (\<lambda>rsc. Inr (loop_timer_del (r_monitor_timer rsc) s))"

definition resource_recover_escalate :: "'sw env \<Rightarrow> rsc_ptr \<Rightarrow> 'sw cape \<Rightarrow> 'sw cape res" where
  "resource_recover_escalate E r s =
     bindE (rsc_get s r) (\<lambda>rsc.
     let s = loop_timer_del (r_monitor_timer rsc) s
     in instance_destroy E (r_assembly rsc) s)"

definition schedule_processing :: "'sw cape \<Rightarrow> 'sw cape" where
  "schedule_processing s = loop_job_add Process_job s"

section \<open>Recurring monitors, part one\<close>

definition recurring_monitor_stop :: "op_ptr \<Rightarrow> 'sw cape \<Rightarrow> 'sw cape res" where
  "recurring_monitor_stop p s =
     bindE (op_get s p) (\<lambda>op.
     bindE (derefE NullDeref (op_resource op)) (\<lambda>r.
     bindE (rsc_get s r) (\<lambda>rsc.
     bindE (if loop_timer_is_running (r_monitor_timer rsc) s
            then pe_resource_unref p (loop_timer_del (r_monitor_timer rsc) s)
            else Inr s) (\<lambda>s.
     pe_resource_unref p (upd_rsc r (\<lambda>x. x\<lparr>r_monitor_op := None\<rparr>) s)))))"

text \<open>
  The body shared by the two loops that drop history entries: stop the recurring monitor of the
  entry's resource if its timer runs, then remove and free the entry.
\<close>

definition history_drop :: "rsc_ptr \<Rightarrow> string \<Rightarrow> operation_history \<Rightarrow> 'sw cape \<Rightarrow> 'sw cape res" where
  "history_drop r key oh s =
     bindE (rsc_get s r) (\<lambda>rsc.
     bindE (case r_monitor_op rsc of
              Some m \<Rightarrow> (if loop_timer_is_running (r_monitor_timer rsc) s
                          then recurring_monitor_stop m s else Inr s)
            | None \<Rightarrow> Inr s) (\<lambda>s.
     digest_free (oh_op_digest oh) (s\<lparr>op_history_map := qb_map_rm key (op_history_map s)\<rparr>)))"

definition history_clear_one :: "asm_ptr \<Rightarrow> string \<Rightarrow> 'sw cape \<Rightarrow> 'sw cape res" where
  "history_clear_one a key s =
     (case qb_map_get (op_history_map s) key of
        None \<Rightarrow> Inr s
      | Some oh \<Rightarrow>
          bindE (derefE NullDeref (oh_resource oh)) (\<lambda>r.
          bindE (rsc_get s r) (\<lambda>rsc.
          if r_assembly rsc = a then history_drop r key oh s else Inr s)))"

definition node_op_history_clear :: "'sw env \<Rightarrow> asm_ptr \<Rightarrow> 'sw cape \<Rightarrow> 'sw cape res" where
  "node_op_history_clear E a s =
     foldE (history_clear_one a) (map_order E (qb_keys (op_history_map s))) s"

section \<open>Nodes\<close>

text \<open>One reference parameter against the node whose address has changed.\<close>

definition ref_param_update :: "'sw assembly \<Rightarrow> reference_param \<Rightarrow> xml \<Rightarrow> xml res" where
  "ref_param_update a_changed p doc =
     (case rp_xmlnode p of
        None \<Rightarrow> Inr doc
      | Some node \<Rightarrow>
          bindE (derefE NullDeref (rp_assembly p)) (\<lambda>asm.
          if asm = a_name a_changed then
            bindE (derefE NullDeref (rp_parameter p)) (\<lambda>parameter.
            if parameter = ''hostname''
            then Inr (xmlSetProp node ''value'' (a_name a_changed) doc)
            else Inr (xmlSetProp node ''value''
                        (case a_address a_changed of None \<Rightarrow> [] | Some x \<Rightarrow> x) doc))
          else Inr doc))"

definition node_update_addr_info :: "'sw env \<Rightarrow> asm_ptr \<Rightarrow> 'sw cape \<Rightarrow> 'sw cape res" where
  "node_update_addr_info E a_changed s =
     bindE (asm_get s a_changed) (\<lambda>changed.
     bindE (foldE (\<lambda>a_key doc.
       bindE (derefE NullDeref (qb_map_get (assembly_map s) a_key)) (\<lambda>ap.
       bindE (asm_get s ap) (\<lambda>a.
       foldE (\<lambda>r_key doc.
         bindE (derefE NullDeref (qb_map_get (a_resource_map a) r_key)) (\<lambda>rp.
         bindE (rsc_get s rp) (\<lambda>r.
         case r_ref_params_map r of
           None \<Rightarrow> Inr doc
         | Some params \<Rightarrow>
             foldE (\<lambda>p_key doc.
               bindE (derefE NullDeref (qb_map_get params p_key)) (\<lambda>p.
               ref_param_update changed p doc))
               (map_order E (qb_keys params)) doc)))
         (map_order E (qb_keys (a_resource_map a))) doc)))
       (map_order E (qb_keys (assembly_map s))) (pe_doc s)) (\<lambda>doc.
     Inr (s\<lparr>pe_doc := doc\<rparr>)))"

definition node_state_change_event ::
  "'sw env \<Rightarrow> asm_ptr \<Rightarrow> recover_state \<Rightarrow> recover_state \<Rightarrow> 'sw cape \<Rightarrow> 'sw cape res" where
  "node_state_change_event E a from to s =
     bindE (asm_get s a) (\<lambda>assembly.
     let s = event_send \<lparr>ev_app = application_name s, ev_node = a_name assembly,
               ev_resource = None, ev_state = state_str from to, ev_reason = ''bla''\<rparr> s
     in bindE (if to = RECOVER_STATE_RUNNING then node_update_addr_info E a s else Inr s) (\<lambda>s.
        Inr (schedule_processing s)))"

definition node_recover_restart :: "'sw env \<Rightarrow> asm_ptr \<Rightarrow> 'sw cape \<Rightarrow> 'sw cape res" where
  "node_recover_restart E a s =
     bindE (transport_disconnect a s) (\<lambda>s.
     bindE (node_op_history_clear E a s) (\<lambda>s.
     instance_create E a s))"

definition node_recover_escalate :: "asm_ptr \<Rightarrow> 'sw cape \<Rightarrow> 'sw cape res" where
  "node_recover_escalate a s = Inr s"

section \<open>Function pointers\<close>

text \<open>
  The code behind the function pointers of a recover struct; the two kinds have different signatures,
  so that a pointer of the other kind is never called.
\<close>

definition cape_call :: "'sw env \<Rightarrow> recover_fn \<Rightarrow> nat option \<Rightarrow> 'sw cape \<Rightarrow> 'sw cape res" where
  "cape_call E f inst s =
     bindE (derefE NullDeref inst) (\<lambda>i.
     case f of
       Resource_recover_restart \<Rightarrow> resource_recover_restart i s
     | Resource_recover_escalate \<Rightarrow> resource_recover_escalate E i s
     | Node_recover_restart \<Rightarrow> node_recover_restart E i s
     | Node_recover_escalate \<Rightarrow> node_recover_escalate i s
     | _ \<Rightarrow> Inl BadPtr)"

definition cape_changing ::
  "'sw env \<Rightarrow> recover_fn \<Rightarrow> nat option \<Rightarrow> recover_state \<Rightarrow> recover_state \<Rightarrow> 'sw cape \<Rightarrow> 'sw cape res" where
  "cape_changing E f inst from to s =
     bindE (derefE NullDeref inst) (\<lambda>i.
     case f of
       Resource_state_change_event \<Rightarrow> resource_state_change_event i from to s
     | Node_state_change_event \<Rightarrow> node_state_change_event E i from to s
     | _ \<Rightarrow> Inl BadPtr)"

text \<open>\<open>recover_state_set\<close> on the struct of a node and on the struct of a resource.\<close>

definition node_rd :: "asm_ptr \<Rightarrow> 'sw cape \<Rightarrow> 'sw cape_recover res" where
  "node_rd a s = bindE (asm_get s a) (\<lambda>x. Inr (a_recover x))"

definition node_upd :: "asm_ptr \<Rightarrow> ('sw cape_recover \<Rightarrow> 'sw cape_recover) \<Rightarrow> 'sw cape \<Rightarrow> 'sw cape" where
  "node_upd a f = upd_asm a (\<lambda>x. x\<lparr>a_recover := f (a_recover x)\<rparr>)"

definition rsc_rd :: "rsc_ptr \<Rightarrow> 'sw cape \<Rightarrow> 'sw cape_recover res" where
  "rsc_rd r s = bindE (rsc_get s r) (\<lambda>x. Inr (r_recover x))"

definition rsc_upd :: "rsc_ptr \<Rightarrow> ('sw cape_recover \<Rightarrow> 'sw cape_recover) \<Rightarrow> 'sw cape \<Rightarrow> 'sw cape" where
  "rsc_upd r f = upd_rsc r (\<lambda>x. x\<lparr>r_recover := f (r_recover x)\<rparr>)"

definition node_state_set :: "'sw env \<Rightarrow> asm_ptr \<Rightarrow> recover_state \<Rightarrow> 'sw cape \<Rightarrow> 'sw cape res" where
  "node_state_set E a st s =
     recover_state_set (sw_lib E) (clock E) (clock' E) (node_rd a) (node_upd a)
       (cape_changing E) (cape_call E) st s"

definition rsc_state_set :: "'sw env \<Rightarrow> rsc_ptr \<Rightarrow> recover_state \<Rightarrow> 'sw cape \<Rightarrow> 'sw cape res" where
  "rsc_state_set E r st s =
     recover_state_set (sw_lib E) (clock E) (clock' E) (rsc_rd r) (rsc_upd r)
       (cape_changing E) (cape_call E) st s"

text \<open>A recover struct that reports to its own node, or to its own resource.\<close>

definition rc_wired :: "nat \<Rightarrow> recover_fn \<Rightarrow> recover_fn \<Rightarrow> recover_fn \<Rightarrow> 'sw cape_recover \<Rightarrow> bool" where
  "rc_wired i re es ch r \<longleftrightarrow>
     rc_instance r = Some i \<and> restart r = re \<and> escalate r = es \<and> state_changing r = Some ch"

definition node_wired :: "asm_ptr \<Rightarrow> 'sw assembly \<Rightarrow> bool" where
  "node_wired a x \<longleftrightarrow>
     rc_wired a Node_recover_restart Node_recover_escalate Node_state_change_event (a_recover x)"

definition rsc_wired :: "rsc_ptr \<Rightarrow> 'sw resource \<Rightarrow> bool" where
  "rsc_wired r y \<longleftrightarrow>
     rc_wired r Resource_recover_restart Resource_recover_escalate Resource_state_change_event (r_recover y)"

section \<open>Completion of resource operations\<close>

definition resource_state_set ::
  "'sw env \<Rightarrow> rsc_ptr option \<Rightarrow> pe_operation \<Rightarrow> ocf_exitcode \<Rightarrow> 'sw cape \<Rightarrow> 'sw cape res" where
  "resource_state_set E rp op pe_exitcode s =
     (if op_method op = ''monitor'' then
        bindE (derefE NullDeref rp) (\<lambda>r.
        if pe_exitcode = OCF_OK then rsc_state_set E r RECOVER_STATE_RUNNING s
        else if op_interval op = 0 then rsc_state_set E r RECOVER_STATE_STOPPED s
        else rsc_state_set E r RECOVER_STATE_FAILED s)
      else if op_method op = ''start'' then
        bindE (derefE NullDeref rp) (\<lambda>r.
        if pe_exitcode = OCF_OK then rsc_state_set E r RECOVER_STATE_RUNNING s
        else if pe_resource_is_hard_error pe_exitcode
             then rsc_state_set E r RECOVER_STATE_UNRECOVERABLE s
        else rsc_state_set E r RECOVER_STATE_UNKNOWN s)
      else if op_method op = ''stop'' then
        bindE (derefE NullDeref rp) (\<lambda>r.
        if pe_exitcode = OCF_OK then rsc_state_set E r RECOVER_STATE_STOPPED s
        else if pe_resource_is_hard_error pe_exitcode
             then rsc_state_set E r RECOVER_STATE_UNRECOVERABLE s
        else rsc_state_set E r RECOVER_STATE_UNKNOWN s)
      else Inr s)"

text \<open>The node an operation names, and its resource (NULL when the map has none).\<close>

definition op_target ::
  "pe_operation \<Rightarrow> 'sw cape \<Rightarrow> (asm_ptr \<times> 'sw assembly \<times> rsc_ptr option) res" where
  "op_target op s =
     bindE (derefE NullDeref (qb_map_get (assembly_map s) (op_hostname op))) (\<lambda>a.
     bindE (asm_get s a) (\<lambda>assembly.
     Inr (a, assembly, qb_map_get (a_resource_map assembly) (op_rname op))))"

text \<open>The end of \<open>resource_action_completed\<close>: a recurring monitor that met its target is re-armed.\<close>

definition monitor_rearm :: "rsc_ptr option \<Rightarrow> op_ptr \<Rightarrow> u32 \<Rightarrow> 'sw cape \<Rightarrow> 'sw cape res" where
  "monitor_rearm rp p interval s =
     (let (h, s) = loop_timer_add (Resource_monitor_execute p) (unat interval * QB_TIME_NS_IN_MSEC) s in
      bindE (derefE NullDeref rp) (\<lambda>r.
      Inr (upd_rsc r (\<lambda>x. x\<lparr>r_monitor_timer := h\<rparr>) s)))"

definition resource_action_completed ::
  "'sw env \<Rightarrow> op_ptr \<Rightarrow> ocf_exitcode \<Rightarrow> 'sw cape \<Rightarrow> 'sw cape res" where
  "resource_action_completed E p pe_exitcode s =
     bindE (op_get s p) (\<lambda>op.
     bindE (op_target op s) (\<lambda>(a, _, r).
     let s = upd_op p (\<lambda>op. op\<lparr>op_times_executed := op_times_executed op + 1\<rparr>) s;
         met = (word_of_int pe_exitcode = op_target_outcome op)
     in
     bindE (if strstr (op_rname op) (op_hostname op) then op_history_save E r p pe_exitcode s
            else Inr s) (\<lambda>s.
     bindE (if op_times_executed op + 1 \<le> 1
            then pe_resource_completed E p (word_of_int pe_exitcode) s else Inr s) (\<lambda>s.
     bindE (resource_state_set E r op pe_exitcode s) (\<lambda>s.
     let s = (if met then s else schedule_processing s) in
     if op_interval op > 0 \<and> met then monitor_rearm r p (op_interval op) s
     else pe_resource_unref p s)))))"

section \<open>Recurring monitors, part two\<close>

definition resource_monitor_execute :: "'sw env \<Rightarrow> op_ptr \<Rightarrow> 'sw cape \<Rightarrow> 'sw cape res" where
  "resource_monitor_execute E p s =
     bindE (op_get s p) (\<lambda>op.
     bindE (op_target op s) (\<lambda>(a, assembly, r).
     if rc_state (a_recover assembly) \<noteq> RECOVER_STATE_RUNNING
     then resource_action_completed E p OCF_UNKNOWN_ERROR s
     else transport_resource_action E a r p s))"

definition recurring_monitor_start :: "'sw env \<Rightarrow> op_ptr \<Rightarrow> 'sw cape \<Rightarrow> 'sw cape res" where
  "recurring_monitor_start E p s =
     bindE (op_get s p) (\<lambda>op.
     bindE (derefE NullDeref (op_resource op)) (\<lambda>r.
     bindE (rsc_get s r) (\<lambda>rsc.
     if \<not> loop_timer_is_running (r_monitor_timer rsc) s then
       bindE (pe_resource_ref p s) (\<lambda>s.
       resource_monitor_execute E p (upd_rsc r (\<lambda>x. x\<lparr>r_monitor_op := Some p\<rparr>) s))
     else
       bindE (pe_resource_completed E p (word_of_int OCF_OK) s) (\<lambda>s.
       pe_resource_unref p s))))"

definition op_history_delete :: "'sw env \<Rightarrow> op_ptr \<Rightarrow> 'sw cape \<Rightarrow> 'sw cape res" where
  "op_history_delete E p s =
     bindE (op_get s p) (\<lambda>op.
     bindE (foldE (\<lambda>key s.
              case qb_map_get (op_history_map s) key of
                None \<Rightarrow> Inr s
              | Some oh \<Rightarrow>
                  if oh_resource oh = op_resource op
                  then bindE (derefE NullDeref (oh_resource oh)) (\<lambda>r. history_drop r key oh s)
                  else Inr s)
              (map_order E (qb_keys (op_history_map s))) s) (\<lambda>s.
     bindE (pe_resource_completed E p (word_of_int OCF_OK) s) (\<lambda>s.
     pe_resource_unref p s)))"

section \<open>Execution of an operation of the policy engine\<close>

definition resource_execute_cb :: "'sw env \<Rightarrow> op_ptr \<Rightarrow> 'sw cape \<Rightarrow> 'sw cape res" where
  "resource_execute_cb E p s =
     bindE (op_get s p) (\<lambda>op.
     bindE (op_target op s) (\<lambda>(a, assembly, r).
     if rc_state (a_recover assembly) \<noteq> RECOVER_STATE_RUNNING
     then resource_action_completed E p OCF_UNKNOWN_ERROR s
     else
       let s = upd_op p (\<lambda>op. op\<lparr>op_resource := r\<rparr>) s in
       if op_method op = ''monitor'' then
         (if strstr (op_rname op) (op_hostname op) then
            bindE (assertE (r \<noteq> None) s) (\<lambda>s.
            if op_interval op > 0 then recurring_monitor_start E p s
            else resource_monitor_execute E p s)
          else
            bindE (pe_resource_completed E p (word_of_int OCF_NOT_RUNNING) s) (\<lambda>s.
            pe_resource_unref p s))
       else if op_method op = ''start'' then transport_resource_action E a r p s
       else if op_method op = ''stop'' then
         bindE (derefE NullDeref r) (\<lambda>rp.
         bindE (rsc_get s rp) (\<lambda>rsc.
         bindE (case r_monitor_op rsc of None \<Rightarrow> Inr s | Some m \<Rightarrow> recurring_monitor_stop m s) (\<lambda>s.
         transport_resource_action E a r p s)))
       else if op_method op = ''delete'' then op_history_delete E p s
       else Inl AssertFail))"

section \<open>Views: the parts of the state a handler leaves alone\<close>

text \<open>
  A view is any function of the state. \<open>callback_view\<close> lists the writes that the recovery callbacks of
  nodes and resources can make; a view that ignores these writes is unchanged by the callbacks.
  \<open>op_view\<close>, \<open>task_view\<close> and \<open>engine_view\<close> add the writes of the operations on resources.
\<close>

fun is_next_job :: "job \<Rightarrow> bool" where
  "is_next_job (Process_next_job g) = True"
| "is_next_job _ = False"

locale callback_view =
  fixes V :: "'sw cape \<Rightarrow> 'v"
  assumes v_ops [simp]: "V (s\<lparr>ops := x1\<rparr>) = V s"
    and v_history [simp]: "V (s\<lparr>op_history_map := x2\<rparr>) = V s"
    and v_events [simp]: "V (s\<lparr>events := x3\<rparr>) = V s"
    and v_pe_doc [simp]: "V (s\<lparr>pe_doc := x4\<rparr>) = V s"
    and v_sshops [simp]: "V (s\<lparr>sshops := x5\<rparr>) = V s"
    and v_transs [simp]: "V (s\<lparr>transs := x6\<rparr>) = V s"
    and v_timers [simp]: "V (s\<lparr>timers := x7\<rparr>) = V s"
    and v_monitor_op [simp]: "V (upd_rsc r (\<lambda>x. x\<lparr>r_monitor_op := m\<rparr>) s) = V s"
    and v_image_id [simp]: "V (upd_asm a (\<lambda>x. x\<lparr>a_image_id := i\<rparr>) s) = V s"
    and v_instance_id [simp]: "V (upd_asm a (\<lambda>x. x\<lparr>a_instance_id := i\<rparr>) s) = V s"
    and v_job_add [simp]: "\<not> is_next_job j \<Longrightarrow> V (loop_job_add j s) = V s"
    and v_job_del [simp]: "\<not> is_next_job j \<Longrightarrow> V (loop_job_del j s) = V s"
begin

lemma v_upd_op [simp]: "V (upd_op p f s) = V s"
  by (simp add: upd_op_def)

lemma v_upd_sshop [simp]: "V (upd_sshop q f s) = V s"
  by (simp add: upd_sshop_def)

lemma v_upd_trans [simp]: "V (upd_trans t f s) = V s"
  by (simp add: upd_trans_def)

lemma v_timer_del [simp]: "V (loop_timer_del h s) = V s"
  by (simp add: loop_timer_del_def)

lemma v_event_send [simp]: "V (event_send ev s) = V s"
  by (simp add: event_send_def)

lemma v_schedule_processing [simp]: "V (schedule_processing s) = V s"
  by (simp add: schedule_processing_def)

lemma keeps_ref: "keeps V (pe_resource_ref p)"
  unfolding pe_resource_ref_def by (rule keeps_I) (intro okE_intros; simp)

lemma keeps_unref: "keeps V (pe_resource_unref p)"
  unfolding pe_resource_unref_def by (rule keeps_I) (intro okE_intros; simp)

lemma keeps_schedule: "keeps V (transport_schedule t)"
  unfolding transport_schedule_def by (rule keeps_I) (intro okE_intros; simp)

lemma keeps_unschedule: "keeps V (transport_unschedule t)"
  unfolding transport_unschedule_def by (rule keeps_I) (intro okE_intros; simp)

lemma keeps_ssh_op_delete: "keeps V (ssh_op_delete q)"
  unfolding ssh_op_delete_def by (rule keeps_I) (intro okE_intros; simp)

lemma keeps_disconnect: "keeps V (transport_disconnect a)"
  unfolding transport_disconnect_def disconnect_begin_def disconnect_end_def Let_def
  by (rule keeps_I) (intro okE_intros keep_bind keeps_okE [OF keeps_unschedule]
      keeps_okE [OF keeps_foldE [OF keeps_ssh_op_delete]]; simp)

lemma keeps_digest_free: "keeps V (digest_free d)"
  unfolding digest_free_def
  by (rule keeps_I) (cases d; simp; intro okE_intros okE_bind_get; simp)

lemma keeps_monitor_stop: "keeps V (recurring_monitor_stop p)"
  unfolding recurring_monitor_stop_def
  by (rule keeps_I) (intro okE_intros keep_bind keeps_okE [OF keeps_unref]; simp)

lemma keeps_history_drop: "keeps V (history_drop r key oh)"
  unfolding history_drop_def
  by (rule keeps_I) (intro okE_intros keep_bind keeps_okE [OF keeps_monitor_stop]
      keeps_okE [OF keeps_digest_free]; simp)

lemma keeps_history_clear: "keeps V (node_op_history_clear E a)"
  unfolding node_op_history_clear_def history_clear_one_def
  by (rule keeps_I) (intro keeps_okE [OF keeps_foldE] keeps_I okE_intros
      keeps_okE [OF keeps_history_drop]; simp)

lemma keeps_instance_create: "keeps V (instance_create E a)"
  unfolding instance_create_def image_id_get_completion_def instance_create_completion_def
  by (rule keeps_I) (intro okE_intros keep_bind; simp)

lemma keeps_instance_destroy: "keeps V (instance_destroy E a)"
  unfolding instance_destroy_def instance_destroy_completion_def
  by (rule keeps_I) (intro okE_intros keep_bind; simp)

lemma keeps_addr_info: "keeps V (node_update_addr_info E a)"
  unfolding node_update_addr_info_def
  by (rule keeps_I) (intro okE_intros okE_bind_get; simp)

lemma keeps_node_restart: "keeps V (node_recover_restart E a)"
  unfolding node_recover_restart_def
  by (rule keeps_I) (intro keep_bind keeps_okE [OF keeps_disconnect] keeps_okE [OF keeps_history_clear]
      keeps_okE [OF keeps_instance_create]; simp)

lemma keeps_call: "keeps V (cape_call E f i)"
  unfolding cape_call_def resource_recover_restart_def resource_recover_escalate_def
    node_recover_escalate_def
  by (rule keeps_I) (cases f; simp; intro okE_intros keeps_okE [OF keeps_node_restart]
      keeps_okE [OF keeps_instance_destroy]; simp)

lemma keeps_changing: "keeps V (cape_changing E f i from to)"
  unfolding cape_changing_def resource_state_change_event_def node_state_change_event_def
  by (rule keeps_I) (cases f; simp; intro okE_intros keep_bind keeps_okE [OF keeps_addr_info]; simp)

end

text \<open>
  \<open>op_view\<close> adds the writes that record the completion of an operation.
\<close>

locale op_view = callback_view V for V :: "'sw cape \<Rightarrow> 'v" +
  assumes v_monitor_timer [simp]: "V (upd_rsc r (\<lambda>x. x\<lparr>r_monitor_timer := h\<rparr>) s) = V s"
    and v_graph_updated [simp]: "V (s\<lparr>graph_updated := y1\<rparr>) = V s"
    and v_upd_graph [simp]: "V (upd_graph gp k s) = V s"
    and v_call_order [simp]: "V (s\<lparr>call_order := y2\<rparr>) = V s"
    and v_next_handle [simp]: "V (s\<lparr>next_handle := y3\<rparr>) = V s"
begin

lemma v_timer_add: "(h, s') = loop_timer_add f n s \<Longrightarrow> V s' = V s"
  by (auto simp: loop_timer_add_def Let_def)

lemma v_graph_confirm [simp]: "V (graph_confirm E g i s) = V s"
  by (simp add: graph_confirm_def)

lemma keeps_completed: "keeps V (pe_resource_completed E p rc)"
  unfolding pe_resource_completed_def
  by (rule keeps_I) (intro okE_intros; simp)

lemma keeps_history_entry: "okE (\<lambda>(oh, u). V u = V s) (history_entry r p op key s)"
  unfolding history_entry_def
  by (intro okE_intros okE_bind_get [where m = "digest_read _ _"]
      okE_bind [where Q = "\<lambda>u. V u = V s"] keeps_okE [OF keeps_digest_free]; simp)

lemma keeps_history_save: "keeps V (op_history_save E r p ec)"
  unfolding op_history_save_def
proof (intro keeps_I okE_heap_get okE_let, goal_cases)
  case (1 s op key)
  show ?case
    by (rule okE_bind [OF keeps_history_entry]) (auto simp: Let_def)
qed

lemma keeps_monitor_rearm: "keeps V (monitor_rearm r p n)"
  unfolding monitor_rearm_def
  by (rule keeps_I) (intro okE_intros; simp add: v_timer_add)

end

text \<open>The recovery struct of any node and of any resource is such a view.\<close>

interpretation node_view: op_view "node_rd a :: 'sw cape \<Rightarrow> 'sw cape_recover res" for a
  by unfold_locales
    (auto simp: node_rd_def heap_defs loop_job_add_def loop_job_del_def derefE_def split: option.splits)

interpretation rsc_view: op_view "rsc_rd r :: 'sw cape \<Rightarrow> 'sw cape_recover res" for r
  by unfold_locales
    (auto simp: rsc_rd_def heap_defs loop_job_add_def loop_job_del_def derefE_def split: option.splits)

interpretation node: recover_host "node_rd a" "node_upd a" "cape_changing E" "cape_call E"
  for a and E :: "'sw env"
proof
  show "node_rd a s = Inr r \<Longrightarrow> node_rd a (node_upd a g s) = Inr (g r)" for s :: "'sw cape" and r g
    by (auto simp: node_rd_def node_upd_def heap_defs bindE_eq_Inr derefE_eq_Inr)
  show "cape_changing E f i b c s = Inr s' \<Longrightarrow> node_rd a s' = node_rd a s" for f i b c and s s' :: "'sw cape"
    by (rule keeps_D [OF node_view.keeps_changing])
  show "cape_call E f i s = Inr s' \<Longrightarrow> node_rd a s' = node_rd a s" for f i and s s' :: "'sw cape"
    by (rule keeps_D [OF node_view.keeps_call])
qed

interpretation rsc: recover_host "rsc_rd r" "rsc_upd r" "cape_changing E" "cape_call E"
  for r and E :: "'sw env"
proof
  show "rsc_rd r s = Inr x \<Longrightarrow> rsc_rd r (rsc_upd r g s) = Inr (g x)" for s :: "'sw cape" and x g
    by (auto simp: rsc_rd_def rsc_upd_def heap_defs bindE_eq_Inr derefE_eq_Inr)
  show "cape_changing E f i b c s = Inr s' \<Longrightarrow> rsc_rd r s' = rsc_rd r s" for f i b c and s s' :: "'sw cape"
    by (rule keeps_D [OF rsc_view.keeps_changing])
  show "cape_call E f i s = Inr s' \<Longrightarrow> rsc_rd r s' = rsc_rd r s" for f i and s s' :: "'sw cape"
    by (rule keeps_D [OF rsc_view.keeps_call])
qed

text \<open>\<open>task_view\<close> adds the writes that record what became of a resource, and new operations.\<close>

locale task_view = op_view V for V :: "'sw cape \<Rightarrow> 'v" +
  assumes v_rsc_state [simp]: "V (rsc_upd r (\<lambda>x. x\<lparr>rc_state := st\<rparr>) s) = V s"
    and v_rsc_sw [simp]: "V (rsc_upd r (\<lambda>x. x\<lparr>rc_sw := w\<rparr>) s) = V s"
    and v_next_op [simp]: "V (s\<lparr>next_op := y4\<rparr>) = V s"
begin

lemma keeps_rsc_failed: "keeps V (recover_failed Q now now' rd (rsc_upd r) (cape_call E))"
  unfolding recover_failed_def
  by (rule keeps_I, intro okE_intros okE_bind_get [where m = "rd _"] keeps_okE [OF keeps_call]; simp)

lemma keeps_rsc_state_set: "keeps V (rsc_state_set E r st)"
  unfolding rsc_state_set_def recover_state_set_def
  by (rule keeps_I) (intro okE_intros okE_bind_get [where m = "rsc_rd _ _"] keep_bind
      keeps_okE [OF keeps_changing] keeps_okE [OF keeps_rsc_failed]; simp)

lemma keeps_resource_state_set: "keeps V (resource_state_set E r op ec)"
  unfolding resource_state_set_def
  by (rule keeps_I) (intro okE_intros keeps_okE [OF keeps_rsc_state_set]; simp)

lemma keeps_action_completed: "keeps V (resource_action_completed E p ec)"
  unfolding resource_action_completed_def
  by (rule keeps_I) (intro okE_intros okE_bind_get [where m = "op_target _ _"] keep_bind
      keeps_okE [OF keeps_history_save] keeps_okE [OF keeps_completed]
      keeps_okE [OF keeps_resource_state_set] keeps_okE [OF keeps_monitor_rearm]
      keeps_okE [OF keeps_unref]; simp)

lemma keeps_history_delete: "keeps V (op_history_delete E p)"
  unfolding op_history_delete_def
  by (rule keeps_I) (intro okE_intros keep_bind keeps_okE [OF keeps_foldE] keeps_I
      keeps_okE [OF keeps_history_drop] keeps_okE [OF keeps_completed] keeps_okE [OF keeps_unref]; simp)

end

text \<open>\<open>engine_view\<close> adds the state of the nodes and new commands.\<close>

locale engine_view = task_view V for V :: "'sw cape \<Rightarrow> 'v" +
  assumes v_node_state [simp]: "V (node_upd a (\<lambda>x. x\<lparr>rc_state := st\<rparr>) s) = V s"
    and v_node_sw [simp]: "V (node_upd a (\<lambda>x. x\<lparr>rc_sw := w\<rparr>) s) = V s"
    and v_next_sshop [simp]: "V (s\<lparr>next_sshop := y5\<rparr>) = V s"
begin

lemma keeps_node_failed: "keeps V (recover_failed Q now now' rd (node_upd a) (cape_call E))"
  unfolding recover_failed_def
  by (rule keeps_I, intro okE_intros okE_bind_get [where m = "rd _"] keeps_okE [OF keeps_call]; simp)

lemma keeps_node_state_set: "keeps V (node_state_set E a st)"
  unfolding node_state_set_def recover_state_set_def
  by (rule keeps_I) (intro okE_intros okE_bind_get [where m = "node_rd _ _"] keep_bind
      keeps_okE [OF keeps_changing] keeps_okE [OF keeps_node_failed]; simp)

lemma keeps_transport_execute: "keeps V (transport_execute t client ms cmd)"
  unfolding transport_execute_def
  by (rule keeps_I) (intro okE_intros keep_bind keeps_okE [OF keeps_schedule]; simp add: v_timer_add)

lemma keeps_resource_action: "keeps V (transport_resource_action E a r p)"
  unfolding transport_resource_action_def
  by (rule keeps_I) (intro okE_intros okE_bind_get [where m = "resource_command _ _"] keep_bind
      keeps_okE [OF keeps_ref] keeps_okE [OF keeps_transport_execute]; simp)

lemma keeps_monitor_execute: "keeps V (resource_monitor_execute E p)"
  unfolding resource_monitor_execute_def
  by (rule keeps_I) (intro okE_intros okE_bind_get [where m = "op_target _ _"]
      keeps_okE [OF keeps_action_completed] keeps_okE [OF keeps_resource_action]; simp)

lemma keeps_monitor_start: "keeps V (recurring_monitor_start E p)"
  unfolding recurring_monitor_start_def
  by (rule keeps_I) (intro okE_intros keep_bind keeps_okE [OF keeps_ref] keeps_okE [OF keeps_unref]
      keeps_okE [OF keeps_completed] keeps_okE [OF keeps_monitor_execute]; simp)

lemma keeps_execute_cb: "keeps V (resource_execute_cb E p)"
  unfolding resource_execute_cb_def
  by (rule keeps_I) (intro okE_intros okE_bind_get [where m = "op_target _ _"] keep_bind
      keeps_okE [OF keeps_action_completed] keeps_okE [OF keeps_monitor_start]
      keeps_okE [OF keeps_monitor_execute] keeps_okE [OF keeps_completed] keeps_okE [OF keeps_unref]
      keeps_okE [OF keeps_resource_action] keeps_okE [OF keeps_monitor_stop]
      keeps_okE [OF keeps_history_delete]; simp)

end

end
