(* ===== verification/Ssh_Events.thy ===== *)
theory Ssh_Events
  imports Cape_Engine
begin

text \<open>
  The handlers of \<^verbatim>\<open>src/src/trans_ssh.c\<close> and \<^verbatim>\<open>src/src/inst_ctrl.c\<close> that the event loop runs: polling the
  cloud for a node's address, connecting, setting up the ssh session, executing one queued command
  through its channel states, and the completions and timeouts of commands.

  The \<^verbatim>\<open>switch\<close> statements fall through from each state to the next; the model has one definition
  per state, which ends in the definition of the next state. A failed \<^verbatim>\<open>assert\<close> stops the program, so
  that what follows an \<^verbatim>\<open>assert(0)\<close> is not reached.
\<close>

definition LIBSSH2_ERROR_EAGAIN :: int where "LIBSSH2_ERROR_EAGAIN = -37"

section \<open>Health checks and completions\<close>

definition assembly_healthcheck :: "asm_ptr \<Rightarrow> 'sw cape \<Rightarrow> 'sw cape res" where
  "assembly_healthcheck a s =
     bindE (asm_get s a) (\<lambda>assembly.
     transport_execute (a_transport assembly) (Healthcheck a) SSH_TIMEOUT ''uptime'' s)"

definition assembly_healthcheck_failed :: "'sw env \<Rightarrow> asm_ptr \<Rightarrow> 'sw cape \<Rightarrow> 'sw cape res" where
  "assembly_healthcheck_failed E a s =
     bindE (asm_get s a) (\<lambda>assembly.
     bindE (derefE NullDeref (a_transport assembly)) (\<lambda>t.
     bindE (transport_failed t s) (\<lambda>s.
     node_state_set E a RECOVER_STATE_FAILED s)))"

definition assembly_healthcheck_timeout :: "'sw env \<Rightarrow> asm_ptr \<Rightarrow> 'sw cape \<Rightarrow> 'sw cape res" where
  "assembly_healthcheck_timeout E a s = assembly_healthcheck_failed E a s"

definition assembly_healthcheck_completion ::
  "'sw env \<Rightarrow> asm_ptr \<Rightarrow> int \<Rightarrow> 'sw cape \<Rightarrow> 'sw cape res" where
  "assembly_healthcheck_completion E a ssh_rc s =
     bindE (asm_get s a) (\<lambda>assembly.
     if ssh_rc \<noteq> 0 then
       bindE (derefE NullDeref (a_transport assembly)) (\<lambda>t.
       bindE (transport_failed t s) (\<lambda>s.
       node_state_set E a RECOVER_STATE_FAILED s))
     else if rc_state (a_recover assembly) = RECOVER_STATE_RUNNING then
       (let (h, s) = loop_timer_add (Assembly_healthcheck a) (HEALTHCHECK_TIMEOUT * QB_TIME_NS_IN_MSEC) s in
        bindE (derefE NullDeref (a_transport assembly)) (\<lambda>t.
        bindE (trans_get s t) (\<lambda>_.
        Inr (upd_trans t (\<lambda>ts. ts\<lparr>ts_healthcheck_timer := h\<rparr>) s))))
     else Inr s)"

definition resource_action_completion :: "'sw env \<Rightarrow> ra_op \<Rightarrow> int \<Rightarrow> 'sw cape \<Rightarrow> 'sw cape res" where
  "resource_action_completion E ra ssh_rc s =
     bindE (op_get s (ra_pe_op ra)) (\<lambda>op.
     let pe_rc = (if op_rclass op = ''lsb'' then pe_resource_ocf_exitcode_get op ssh_rc else ssh_rc) in
     bindE (resource_action_completed E (ra_pe_op ra) pe_rc s) (\<lambda>s.
     pe_resource_unref (ra_pe_op ra) s))"

definition resource_action_timeout :: "'sw env \<Rightarrow> ra_op \<Rightarrow> 'sw cape \<Rightarrow> 'sw cape res" where
  "resource_action_timeout E ra s = node_state_set E (ra_assembly ra) RECOVER_STATE_FAILED s"

text \<open>The completion and timeout functions stored in an ssh operation.\<close>

definition completion_func :: "'sw env \<Rightarrow> ssh_client \<Rightarrow> int \<Rightarrow> 'sw cape \<Rightarrow> 'sw cape res" where
  "completion_func E client rc s =
     (case client of
        Healthcheck a \<Rightarrow> assembly_healthcheck_completion E a rc s
      | Resource_action ra \<Rightarrow> resource_action_completion E ra rc s)"

definition timeout_func :: "'sw env \<Rightarrow> ssh_client \<Rightarrow> 'sw cape \<Rightarrow> 'sw cape res" where
  "timeout_func E client s =
     (case client of
        Healthcheck a \<Rightarrow> assembly_healthcheck_timeout E a s
      | Resource_action ra \<Rightarrow> resource_action_timeout E ra s)"

section \<open>Execution of the command at the head of the queue\<close>

definition ssh_op_complete :: "'sw env \<Rightarrow> sshop_ptr \<Rightarrow> 'sw cape \<Rightarrow> 'sw cape res" where
  "ssh_op_complete E q s =
     bindE (sshop_get s q) (\<lambda>so.
     let s = loop_timer_del (so_timer so) s;
         s = upd_trans (so_transport so) (\<lambda>ts. ts\<lparr>ts_ssh_op_head := remove1 q (ts_ssh_op_head ts)\<rparr>) s
     in bindE (if so_failed so then Inr s
               else completion_func E (so_client so) (so_ssh_rc so) s) (\<lambda>s.
        Inr (s\<lparr>sshops := (sshops s)(q := None)\<rparr>)))"

definition job_repeat_schedule :: "sshop_ptr \<Rightarrow> 'sw cape \<Rightarrow> 'sw cape res" where
  "job_repeat_schedule q s = Inr (loop_job_add (Assembly_ssh_exec q) s)"

definition exec_state_set :: "sshop_ptr \<Rightarrow> ssh_exec_state \<Rightarrow> 'sw cape \<Rightarrow> 'sw cape" where
  "exec_state_set q st = upd_sshop q (\<lambda>so. so\<lparr>so_exec_state := st\<rparr>)"

definition channel_free :: "'sw env \<Rightarrow> trans_ptr \<Rightarrow> sshop_ptr \<Rightarrow> 'sw cape \<Rightarrow> 'sw cape res" where
  "channel_free E t q s =
     (if free_rc (ssh E) = LIBSSH2_ERROR_EAGAIN then job_repeat_schedule q s
      else if free_rc (ssh E) \<noteq> 0 then Inl AssertFail
      else bindE (ssh_op_complete E q s) (\<lambda>s. transport_schedule t s))"

definition channel_wait_closed :: "'sw env \<Rightarrow> trans_ptr \<Rightarrow> sshop_ptr \<Rightarrow> 'sw cape \<Rightarrow> 'sw cape res" where
  "channel_wait_closed E t q s =
     (if wait_closed_rc (ssh E) = LIBSSH2_ERROR_EAGAIN then job_repeat_schedule q s
      else if wait_closed_rc (ssh E) \<noteq> 0 then Inl AssertFail
      else channel_free E t q
             (exec_state_set q SSH_CHANNEL_FREE
               (upd_sshop q (\<lambda>so. so\<lparr>so_ssh_rc := exit_status (ssh E)\<rparr>) s)))"

definition channel_read_stderr :: "'sw env \<Rightarrow> trans_ptr \<Rightarrow> sshop_ptr \<Rightarrow> 'sw cape \<Rightarrow> 'sw cape res" where
  "channel_read_stderr E t q s =
     (if read_stderr_rc (ssh E) = LIBSSH2_ERROR_EAGAIN then job_repeat_schedule q s
      else if read_stderr_rc (ssh E) < 0 then Inl AssertFail
      else channel_wait_closed E t q (exec_state_set q SSH_CHANNEL_WAIT_CLOSED s))"

definition channel_read :: "'sw env \<Rightarrow> trans_ptr \<Rightarrow> sshop_ptr \<Rightarrow> 'sw cape \<Rightarrow> 'sw cape res" where
  "channel_read E t q s =
     (if read_rc (ssh E) = LIBSSH2_ERROR_EAGAIN then job_repeat_schedule q s
      else if read_rc (ssh E) < 0 then Inl AssertFail
      else channel_read_stderr E t q (exec_state_set q SSH_CHANNEL_READ_STDERR s))"

definition channel_close :: "'sw env \<Rightarrow> trans_ptr \<Rightarrow> sshop_ptr \<Rightarrow> 'sw cape \<Rightarrow> 'sw cape res" where
  "channel_close E t q s =
     (if close_rc (ssh E) = LIBSSH2_ERROR_EAGAIN then job_repeat_schedule q s
      else if close_rc (ssh E) \<noteq> 0 then Inl AssertFail
      else channel_read E t q (exec_state_set q SSH_CHANNEL_READ s))"

definition channel_wait_eof :: "'sw env \<Rightarrow> trans_ptr \<Rightarrow> sshop_ptr \<Rightarrow> 'sw cape \<Rightarrow> 'sw cape res" where
  "channel_wait_eof E t q s =
     (if wait_eof_rc (ssh E) = LIBSSH2_ERROR_EAGAIN then job_repeat_schedule q s
      else if wait_eof_rc (ssh E) \<noteq> 0 then Inl AssertFail
      else channel_close E t q (exec_state_set q SSH_CHANNEL_CLOSE s))"

definition channel_send_eof :: "'sw env \<Rightarrow> trans_ptr \<Rightarrow> sshop_ptr \<Rightarrow> 'sw cape \<Rightarrow> 'sw cape res" where
  "channel_send_eof E t q s =
     (if send_eof_rc (ssh E) = LIBSSH2_ERROR_EAGAIN then job_repeat_schedule q s
      else if send_eof_rc (ssh E) \<noteq> 0 then Inl AssertFail
      else channel_wait_eof E t q (exec_state_set q SSH_CHANNEL_WAIT_EOF s))"

definition channel_exec :: "'sw env \<Rightarrow> trans_ptr \<Rightarrow> sshop_ptr \<Rightarrow> 'sw cape \<Rightarrow> 'sw cape res" where
  "channel_exec E t q s =
     (if exec_rc (ssh E) = LIBSSH2_ERROR_EAGAIN then job_repeat_schedule q s
      else if exec_rc (ssh E) \<noteq> 0 then Inl AssertFail
      else channel_send_eof E t q (exec_state_set q SSH_CHANNEL_SEND_EOF s))"

definition channel_open :: "'sw env \<Rightarrow> trans_ptr \<Rightarrow> sshop_ptr \<Rightarrow> 'sw cape \<Rightarrow> 'sw cape res" where
  "channel_open E t q s =
     (if \<not> open_session_ok (ssh E) then
        (if last_errno (ssh E) = LIBSSH2_ERROR_EAGAIN then job_repeat_schedule q s else Inr s)
      else channel_exec E t q
             (exec_state_set q SSH_CHANNEL_EXEC (upd_sshop q (\<lambda>so. so\<lparr>so_channel := True\<rparr>) s)))"

definition assembly_ssh_exec :: "'sw env \<Rightarrow> sshop_ptr \<Rightarrow> 'sw cape \<Rightarrow> 'sw cape res" where
  "assembly_ssh_exec E q s =
     bindE (sshop_get s q) (\<lambda>so.
     let t = so_transport so in
     bindE (trans_get s t) (\<lambda>ts.
     bindE (assertE (ts_ssh_state ts = SSH_SESSION_CONNECTED) s) (\<lambda>s.
     case so_exec_state so of
       SSH_CHANNEL_OPEN \<Rightarrow> channel_open E t q s
     | SSH_CHANNEL_EXEC \<Rightarrow> channel_exec E t q s
     | SSH_CHANNEL_SEND_EOF \<Rightarrow> channel_send_eof E t q s
     | SSH_CHANNEL_WAIT_EOF \<Rightarrow> channel_wait_eof E t q s
     | SSH_CHANNEL_CLOSE \<Rightarrow> channel_close E t q s
     | SSH_CHANNEL_READ \<Rightarrow> channel_read E t q s
     | SSH_CHANNEL_READ_STDERR \<Rightarrow> channel_read_stderr E t q s
     | SSH_CHANNEL_WAIT_CLOSED \<Rightarrow> channel_wait_closed E t q s
     | SSH_CHANNEL_FREE \<Rightarrow> channel_free E t q s)))"

definition ssh_timeout :: "'sw env \<Rightarrow> sshop_ptr \<Rightarrow> 'sw cape \<Rightarrow> 'sw cape res" where
  "ssh_timeout E q s =
     bindE (sshop_get s q) (\<lambda>so.
     let t = so_transport so in
     bindE (transport_unschedule t s) (\<lambda>s.
     bindE (trans_get s t) (\<lambda>ts.
     bindE (foldE (\<lambda>q s. bindE (sshop_get s q) (\<lambda>so. Inr (loop_timer_del (so_timer so) s)))
              (ts_ssh_op_head ts) s) (\<lambda>s.
     timeout_func E (so_client so) (upd_trans t (\<lambda>ts. ts\<lparr>ts_ssh_op_head := []\<rparr>) s)))))"

section \<open>Connecting\<close>

definition ssh_keepalive_send :: "'sw env \<Rightarrow> trans_ptr \<Rightarrow> 'sw cape \<Rightarrow> 'sw cape res" where
  "ssh_keepalive_send E t s =
     bindE (trans_get s t) (\<lambda>_.
     let (h, s) = loop_timer_add (Ssh_keepalive_send t)
                    (keepalive_seconds (ssh E) * 1000 * QB_TIME_NS_IN_MSEC) s
     in Inr (upd_trans t (\<lambda>ts. ts\<lparr>ts_keepalive_timer := h\<rparr>) s))"

definition ssh_state_set :: "trans_ptr \<Rightarrow> ssh_state \<Rightarrow> 'sw cape \<Rightarrow> 'sw cape" where
  "ssh_state_set t st = upd_trans t (\<lambda>ts. ts\<lparr>ts_ssh_state := st\<rparr>)"

definition connect_repeat_schedule :: "asm_ptr \<Rightarrow> 'sw cape \<Rightarrow> 'sw cape res" where
  "connect_repeat_schedule a s = Inr (loop_job_add (Ssh_assembly_connect a) s)"

definition session_connected :: "'sw env \<Rightarrow> asm_ptr \<Rightarrow> 'sw cape \<Rightarrow> 'sw cape res" where
  "session_connected E a s =
     bindE (node_state_set E a RECOVER_STATE_RUNNING s) (\<lambda>s. assembly_healthcheck a s)"

definition session_keepalive_config :: "'sw env \<Rightarrow> asm_ptr \<Rightarrow> trans_ptr \<Rightarrow> 'sw cape \<Rightarrow> 'sw cape res" where
  "session_keepalive_config E a t s =
     bindE (ssh_keepalive_send E t s) (\<lambda>s.
     session_connected E a (ssh_state_set t SSH_SESSION_CONNECTED s))"

text \<open>A failed authentication is logged, and the session goes on.\<close>

definition session_userauth :: "'sw env \<Rightarrow> asm_ptr \<Rightarrow> trans_ptr \<Rightarrow> 'sw cape \<Rightarrow> 'sw cape res" where
  "session_userauth E a t s =
     (if userauth_rc (ssh E) = LIBSSH2_ERROR_EAGAIN then connect_repeat_schedule a s
      else session_keepalive_config E a t (ssh_state_set t SSH_KEEPALIVE_CONFIG s))"

definition session_startup :: "'sw env \<Rightarrow> asm_ptr \<Rightarrow> trans_ptr \<Rightarrow> 'sw cape \<Rightarrow> 'sw cape res" where
  "session_startup E a t s =
     (if session_startup_rc (ssh E) = LIBSSH2_ERROR_EAGAIN then connect_repeat_schedule a s
      else if session_startup_rc (ssh E) \<noteq> 0 then Inr s
      else session_userauth E a t (ssh_state_set t SSH_USERAUTH_PUBLICKEY_FROMFILE s))"

definition session_init :: "'sw env \<Rightarrow> asm_ptr \<Rightarrow> trans_ptr \<Rightarrow> 'sw cape \<Rightarrow> 'sw cape res" where
  "session_init E a t s =
     (let s = upd_trans t (\<lambda>ts. ts\<lparr>ts_session := session_init_ok (ssh E)\<rparr>) s in
      if \<not> session_init_ok (ssh E) then connect_repeat_schedule a s
      else session_startup E a t (ssh_state_set t SSH_SESSION_STARTUP s))"

definition ssh_assembly_connect :: "'sw env \<Rightarrow> asm_ptr \<Rightarrow> 'sw cape \<Rightarrow> 'sw cape res" where
  "ssh_assembly_connect E a s =
     bindE (asm_get s a) (\<lambda>assembly.
     bindE (derefE NullDeref (a_transport assembly)) (\<lambda>t.
     bindE (trans_get s t) (\<lambda>ts.
     case ts_ssh_state ts of
       SSH_SESSION_INIT \<Rightarrow> session_init E a t s
     | SSH_SESSION_STARTUP \<Rightarrow> session_startup E a t s
     | SSH_USERAUTH_PUBLICKEY_FROMFILE \<Rightarrow> session_userauth E a t s
     | SSH_KEEPALIVE_CONFIG \<Rightarrow> session_keepalive_config E a t s
     | SSH_SESSION_CONNECTED \<Rightarrow> session_connected E a s
     | SSH_SESSION_CONNECTING \<Rightarrow> Inl AssertFail)))"

definition connect_execute :: "'sw env \<Rightarrow> asm_ptr \<Rightarrow> 'sw cape \<Rightarrow> 'sw cape res" where
  "connect_execute E a s =
     bindE (asm_get s a) (\<lambda>assembly.
     bindE (derefE NullDeref (a_transport assembly)) (\<lambda>t.
     bindE (trans_get s t) (\<lambda>_.
     if connect_rc (ssh E) = 0
     then Inr (loop_job_add (Ssh_assembly_connect a) (ssh_state_set t SSH_SESSION_INIT s))
     else Inr (loop_job_add (Connect_execute a) s))))"

section \<open>Polling the cloud for the state of a node\<close>

definition instance_state_completion ::
  "'sw env \<Rightarrow> string \<Rightarrow> string option \<Rightarrow> asm_ptr \<Rightarrow> 'sw cape \<Rightarrow> 'sw cape res" where
  "instance_state_completion E state address a s =
     bindE (asm_get s a) (\<lambda>_.
     if state = ''ACTIVE'' then
       bindE (derefE NullDeref address) (\<lambda>addr.
       transport_connect E a (upd_asm a (\<lambda>x. x\<lparr>a_address := Some addr\<rparr>) s))
     else
       bindE (node_state_set E a RECOVER_STATE_UNKNOWN s) (\<lambda>s.
       Inr (snd (loop_timer_add (Instance_state_poll a) (PENDING_TIMEOUT * QB_TIME_NS_IN_MSEC) s))))"

definition my_instance_state_get :: "'sw env \<Rightarrow> asm_ptr \<Rightarrow> 'sw cape \<Rightarrow> 'sw cape res" where
  "my_instance_state_get E a s =
     bindE (asm_get s a) (\<lambda>assembly.
     bindE (instance_state_get (cloud E) (a_instance_id assembly)) (\<lambda>answer.
     case answer of
       None \<Rightarrow> Inr s
     | Some (state, address) \<Rightarrow> instance_state_completion E state address a s))"

section \<open>Views of the handlers\<close>

text \<open>
  \<open>handler_view\<close> adds the writes of connecting a transport; such a view is unchanged by every handler
  of the transport and of the instance control.
\<close>

locale handler_view = engine_view V for V :: "'sw cape \<Rightarrow> 'v" +
  assumes v_address [simp]: "V (upd_asm a (\<lambda>x. x\<lparr>a_address := z1\<rparr>) s) = V s"
    and v_transport [simp]: "V (upd_asm a (\<lambda>x. x\<lparr>a_transport := z2\<rparr>) s) = V s"
    and v_next_trans [simp]: "V (s\<lparr>next_trans := z3\<rparr>) = V s"
    and v_ssh_init_rc [simp]: "V (s\<lparr>ssh_init_rc := z4\<rparr>) = V s"
begin

lemma keeps_transport_failed: "keeps V (transport_failed t)"
  unfolding transport_failed_def by (rule keeps_I) (intro okE_intros; simp)

lemma keeps_healthcheck: "keeps V (assembly_healthcheck a)"
  unfolding assembly_healthcheck_def
  by (rule keeps_I) (intro okE_intros keeps_okE [OF keeps_transport_execute]; simp)

lemma keeps_healthcheck_failed: "keeps V (assembly_healthcheck_failed E a)"
  unfolding assembly_healthcheck_failed_def
  by (rule keeps_I) (intro okE_intros keep_bind keeps_okE [OF keeps_transport_failed]
      keeps_okE [OF keeps_node_state_set]; simp)

lemma keeps_healthcheck_completion: "keeps V (assembly_healthcheck_completion E a rc)"
  unfolding assembly_healthcheck_completion_def
  by (rule keeps_I) (intro okE_intros keep_bind keeps_okE [OF keeps_transport_failed]
      keeps_okE [OF keeps_node_state_set]; simp add: v_timer_add)

lemma keeps_action_completion: "keeps V (resource_action_completion E ra rc)"
  unfolding resource_action_completion_def
  by (rule keeps_I) (intro okE_intros keep_bind keeps_okE [OF keeps_action_completed]
      keeps_okE [OF keeps_unref]; simp)

lemma keeps_completion_func: "keeps V (completion_func E client rc)"
  unfolding completion_func_def
  by (rule keeps_I) (cases client; simp; intro keeps_okE [OF keeps_healthcheck_completion]
      keeps_okE [OF keeps_action_completion]; simp)

lemma keeps_timeout_func: "keeps V (timeout_func E client)"
  unfolding timeout_func_def assembly_healthcheck_timeout_def resource_action_timeout_def
  by (rule keeps_I) (cases client; simp; intro keeps_okE [OF keeps_healthcheck_failed]
      keeps_okE [OF keeps_node_state_set]; simp)

lemma keeps_ssh_op_complete: "keeps V (ssh_op_complete E q)"
  unfolding ssh_op_complete_def
  by (rule keeps_I) (intro okE_intros keep_bind keeps_okE [OF keeps_completion_func]; simp)

lemma keeps_channel_free: "keeps V (channel_free E t q)"
  unfolding channel_free_def job_repeat_schedule_def
  by (rule keeps_I) (intro okE_intros keep_bind keeps_okE [OF keeps_ssh_op_complete]
      keeps_okE [OF keeps_schedule]; simp)

lemma keeps_channel_states:
  "keeps V (channel_wait_closed E t q)" "keeps V (channel_read_stderr E t q)"
  "keeps V (channel_read E t q)" "keeps V (channel_close E t q)" "keeps V (channel_wait_eof E t q)"
  "keeps V (channel_send_eof E t q)" "keeps V (channel_exec E t q)" "keeps V (channel_open E t q)"
proof -
  note defs = job_repeat_schedule_def exec_state_set_def
  show a: "keeps V (channel_wait_closed E t q)"
    unfolding channel_wait_closed_def defs
    by (rule keeps_I) (intro okE_intros keeps_okE [OF keeps_channel_free]; simp)
  show b: "keeps V (channel_read_stderr E t q)"
    unfolding channel_read_stderr_def defs by (rule keeps_I) (intro okE_intros keeps_okE [OF a]; simp)
  show c: "keeps V (channel_read E t q)"
    unfolding channel_read_def defs by (rule keeps_I) (intro okE_intros keeps_okE [OF b]; simp)
  show d: "keeps V (channel_close E t q)"
    unfolding channel_close_def defs by (rule keeps_I) (intro okE_intros keeps_okE [OF c]; simp)
  show e: "keeps V (channel_wait_eof E t q)"
    unfolding channel_wait_eof_def defs by (rule keeps_I) (intro okE_intros keeps_okE [OF d]; simp)
  show f: "keeps V (channel_send_eof E t q)"
    unfolding channel_send_eof_def defs by (rule keeps_I) (intro okE_intros keeps_okE [OF e]; simp)
  show g: "keeps V (channel_exec E t q)"
    unfolding channel_exec_def defs by (rule keeps_I) (intro okE_intros keeps_okE [OF f]; simp)
  show "keeps V (channel_open E t q)"
    unfolding channel_open_def defs by (rule keeps_I) (intro okE_intros keeps_okE [OF g]; simp)
qed

lemma keeps_ssh_exec: "keeps V (assembly_ssh_exec E q)"
  unfolding assembly_ssh_exec_def
proof (intro keeps_I okE_intros, goal_cases)
  case (1 s so t ts)
  show ?case
    by (cases "so_exec_state so")
      (auto intro: keeps_okE [OF keeps_channel_free] keeps_channel_states [THEN keeps_okE])
qed

lemma keeps_ssh_timeout: "keeps V (ssh_timeout E q)"
  unfolding ssh_timeout_def
  by (rule keeps_I) (intro okE_intros keep_bind keeps_okE [OF keeps_unschedule]
      keeps_okE [OF keeps_foldE] keeps_I keeps_okE [OF keeps_timeout_func]; simp)

lemma keeps_keepalive: "keeps V (ssh_keepalive_send E t)"
  unfolding ssh_keepalive_send_def by (rule keeps_I) (intro okE_intros; simp add: v_timer_add)

lemma keeps_session_states:
  "keeps V (session_connected E a)" "keeps V (session_keepalive_config E a t)"
  "keeps V (session_userauth E a t)" "keeps V (session_startup E a t)" "keeps V (session_init E a t)"
proof -
  note defs = connect_repeat_schedule_def ssh_state_set_def
  show a: "keeps V (session_connected E a)"
    unfolding session_connected_def
    by (rule keeps_I) (intro keep_bind keeps_okE [OF keeps_node_state_set]
        keeps_okE [OF keeps_healthcheck]; simp)
  show b: "keeps V (session_keepalive_config E a t)"
    unfolding session_keepalive_config_def defs
    by (rule keeps_I) (intro keep_bind keeps_okE [OF keeps_keepalive] keeps_okE [OF a]; simp)
  show c: "keeps V (session_userauth E a t)"
    unfolding session_userauth_def defs by (rule keeps_I) (intro okE_intros keeps_okE [OF b]; simp)
  show d: "keeps V (session_startup E a t)"
    unfolding session_startup_def defs by (rule keeps_I) (intro okE_intros keeps_okE [OF c]; simp)
  show "keeps V (session_init E a t)"
    unfolding session_init_def defs by (rule keeps_I) (intro okE_intros keeps_okE [OF d]; simp)
qed

lemma keeps_assembly_connect: "keeps V (ssh_assembly_connect E a)"
  unfolding ssh_assembly_connect_def
proof (intro keeps_I okE_intros, goal_cases)
  case (1 s x t ts)
  show ?case
    by (cases "ts_ssh_state ts") (auto intro: keeps_session_states [THEN keeps_okE])
qed

lemma keeps_connect_execute: "keeps V (connect_execute E a)"
  unfolding connect_execute_def ssh_state_set_def by (rule keeps_I) (intro okE_intros; simp)

lemma keeps_transport_connect: "keeps V (transport_connect E a)"
  unfolding transport_connect_def by (rule keeps_I) (intro okE_intros; simp)

lemma keeps_instance_state_get: "keeps V (my_instance_state_get E a)"
  unfolding my_instance_state_get_def instance_state_completion_def
  by (rule keeps_I) (intro okE_intros keep_bind keeps_okE [OF keeps_transport_connect]
      keeps_okE [OF keeps_node_state_set]; simp add: loop_timer_add_def)

end

end
