(* ===== verification/Cape_Status.thy ===== *)
theory Cape_Status
  imports Ssh_Events
begin

text \<open>
  \<^verbatim>\<open>src/src/cape.c\<close>, the status section: before each calculation the engine replaces the
  \<^verbatim>\<open>status\<close> element of the policy document by one that lists every node with its membership and the
  recorded operations of its resources, and hands the document to the policy engine.
\<close>

definition PE_CRM_VERSION :: string where "PE_CRM_VERSION = ''3.0.5''"

section \<open>Elements of the status section\<close>

definition xml_new_int_prop :: "string \<Rightarrow> int \<Rightarrow> xml \<Rightarrow> xml" where
  "xml_new_int_prop name val n = xmlNewProp name (snprintf 36 (show_int (int32_of val))) n"

definition xml_new_time_prop :: "string \<Rightarrow> int \<Rightarrow> xml \<Rightarrow> xml" where
  "xml_new_time_prop name val n = xmlNewProp name (snprintf 36 (show_int (int32_of val))) n"

definition transition_key :: "string \<Rightarrow> operation_history \<Rightarrow> string" where
  "transition_key uuid oh =
     snprintf 255 (show_d (oh_action_id oh) @ '':'' @ show_d (oh_graph_id oh) @ '':'' @
       show_d (oh_target_outcome oh) @ '':'' @ uuid)"

definition transition_magic :: "string \<Rightarrow> operation_history \<Rightarrow> string" where
  "transition_magic uuid oh =
     snprintf 255 (''0:'' @ show_int (int32_of (oh_rc oh)) @ '':'' @ transition_key uuid oh)"

definition op_history_insert :: "'sw cape \<Rightarrow> operation_history \<Rightarrow> xml \<Rightarrow> xml res" where
  "op_history_insert s oh resource_xml =
     bindE (digest_read s (oh_op_digest oh)) (\<lambda>dig.
     let op = xmlNewNode ''lrm_rsc_op'' None;
         op = xmlNewProp ''id'' (oh_rsc_id oh) op;
         op = xmlNewProp ''operation'' (oh_operation oh) op;
         op = xml_new_int_prop ''call-id'' (uint (oh_call_id oh)) op;
         op = xml_new_int_prop ''rc-code'' (oh_rc oh) op;
         op = xml_new_int_prop ''interval'' (uint (oh_interval oh)) op;
         op = xml_new_time_prop ''last-run'' (oh_last_run oh) op;
         op = xml_new_time_prop ''last-rc-change'' (oh_last_rc_change oh) op;
         op = xmlNewProp ''transition-key'' (transition_key (crmd_uuid s) oh) op;
         op = xmlNewProp ''transition-magic'' (transition_magic (crmd_uuid s) oh) op;
         op = xmlNewProp ''op-digest'' dig op;
         op = xmlNewProp ''crm-debug-origin'' ''op_history_insert'' op;
         op = xmlNewProp ''crm_feature_set'' PE_CRM_VERSION op;
         op = xmlNewProp ''op-status'' ''0'' op;
         op = xmlNewProp ''exec-time'' ''0'' op;
         op = xmlNewProp ''queue-time'' ''0'' op
     in Inr (xmlAddChild op resource_xml))"

definition insert_resource :: "'sw resource \<Rightarrow> xml" where
  "insert_resource rsc =
     (let x = xmlNewNode ''lrm_resource'' None;
          x = xmlNewProp ''id'' (r_name rsc) x;
          x = xmlNewProp ''type'' (r_type rsc) x;
          x = xmlNewProp ''class'' (r_rclass rsc) x
      in if r_rclass rsc = ''ocf''
         then xmlNewProp ''provider'' (case r_rprovider rsc of None \<Rightarrow> [] | Some p \<Rightarrow> p) x
         else x)"

text \<open>One round of the loop over the histories: the entry of a resource whose name contains the node's.\<close>

definition history_element :: "'sw cape \<Rightarrow> string \<Rightarrow> operation_history \<Rightarrow> xml \<Rightarrow> xml res" where
  "history_element s node oh resources_xml =
     bindE (derefE NullDeref (oh_resource oh)) (\<lambda>r.
     bindE (rsc_get s r) (\<lambda>rsc.
     if \<not> strstr (r_name rsc) node then Inr resources_xml
     else bindE (op_history_insert s oh (insert_resource rsc)) (\<lambda>x.
          Inr (xmlAddChild x resources_xml))))"

definition insert_status :: "'sw env \<Rightarrow> 'sw cape \<Rightarrow> 'sw assembly \<Rightarrow> xml \<Rightarrow> xml res" where
  "insert_status E s assembly status =
     (let node_state = xmlNewNode ''node_state'' None;
          node_state = xmlNewProp ''id'' (a_uuid assembly) node_state;
          node_state = xmlNewProp ''uname'' (a_name assembly) node_state;
          node_state = xmlNewProp ''ha'' ''active'' node_state;
          node_state = xmlNewProp ''expected'' ''member'' node_state;
          node_state = xmlNewProp ''in_ccm'' ''true'' node_state;
          node_state = xmlNewProp ''crmd'' ''online'' node_state;
          node_state = (if rc_state (a_recover assembly) = RECOVER_STATE_RUNNING
                        then xmlNewProp ''join'' ''member'' node_state
                        else xmlNewProp ''join'' ''pending'' node_state)
      in bindE (foldE (\<lambda>key resources_xml.
                  bindE (derefE NullDeref (qb_map_get (op_history_map s) key)) (\<lambda>oh.
                  history_element s (a_name assembly) oh resources_xml))
                (map_order E (qb_keys (op_history_map s))) (xmlNewNode ''lrm_resources'' None)) (\<lambda>resources_xml.
         Inr (xmlAddChild
               (xmlAddChild (xmlAddChild resources_xml (xmlNewNode ''lrm'' None)) node_state) status)))"

section \<open>Processing\<close>

text \<open>The first status element of the document is unlinked.\<close>

fun remove_status :: "xml list \<Rightarrow> xml list" where
  "remove_status [] = []"
| "remove_status (x # xs) = (if has_name ''status'' x then xs else x # remove_status xs)"

definition remove_status_of :: "xml \<Rightarrow> xml" where
  "remove_status_of doc =
     (case doc of Elem i n as ks \<Rightarrow> Elem i n as (remove_status ks) | Text t \<Rightarrow> Text t)"

definition status_section :: "'sw env \<Rightarrow> 'sw cape \<Rightarrow> xml res" where
  "status_section E s =
     foldE (\<lambda>key status.
       bindE (derefE NullDeref (qb_map_get (assembly_map s) key)) (\<lambda>a.
       bindE (asm_get s a) (\<lambda>assembly.
       insert_status E s assembly status)))
       (map_order E (qb_keys (assembly_map s))) (xmlNewNode ''status'' None)"

definition process :: "'sw env \<Rightarrow> 'sw cape \<Rightarrow> 'sw cape res" where
  "process E s =
     bindE (status_section E s) (\<lambda>status.
     let s = s\<lparr>pe_doc := xmlAddChild status (remove_status_of (pe_doc s))\<rparr> in
     bindE (pe_process_state E (pe_doc s) (cape_debug s) s) (\<lambda>(rc, s).
     Inr (if rc \<noteq> 0 then schedule_processing s else s)))"

lemma processE:
  assumes "process E s = Inr s'"
  obtains d rc u where "pe_process_state E d (cape_debug s) (s\<lparr>pe_doc := d\<rparr>) = Inr (rc, u)"
    and "s' = (if rc \<noteq> 0 then schedule_processing u else u)"
proof -
  from assms obtain status where "bindE
       (pe_process_state E (xmlAddChild status (remove_status_of (pe_doc s))) (cape_debug s)
         (s\<lparr>pe_doc := xmlAddChild status (remove_status_of (pe_doc s))\<rparr>))
       (\<lambda>(rc, s). Inr (if rc \<noteq> 0 then schedule_processing s else s)) = Inr s'"
    unfolding process_def bindE_eq_Inr [of "status_section E s"] by (auto simp: Let_def)
  then obtain d x where x: "pe_process_state E d (cape_debug s) (s\<lparr>pe_doc := d\<rparr>) = Inr x"
    "(case x of (rc, s) \<Rightarrow> Inr (if rc \<noteq> 0 then schedule_processing s else s)) = (Inr s' :: 'a cape res)"
    unfolding bindE_eq_Inr by (elim exE conjE) (rule that)
  show ?thesis
    using x by (cases x) (auto intro: that)
qed

definition process_job :: "'sw env \<Rightarrow> 'sw cape \<Rightarrow> 'sw cape res" where
  "process_job E s = (if pe_is_busy_processing s then Inr (schedule_processing s) else process E s)"

section \<open>The document handed to the policy engine\<close>

text \<open>What the policy engine reads about the membership of a node.\<close>

definition membership_of :: "'sw cape \<Rightarrow> string \<Rightarrow> xml \<Rightarrow> bool" where
  "membership_of s key n \<longleftrightarrow>
     (case qb_map_get (assembly_map s) key of
        None \<Rightarrow> False
      | Some a \<Rightarrow>
          (case asms s a of
             None \<Rightarrow> False
           | Some x \<Rightarrow> has_name ''node_state'' n \<and> xmlGetProp n ''id'' = Some (a_uuid x) \<and>
               xmlGetProp n ''uname'' = Some (a_name x) \<and>
               xmlGetProp n ''join'' =
                 Some (if rc_state (a_recover x) = RECOVER_STATE_RUNNING then ''member'' else ''pending'')))"

lemma insert_status_kids:
  assumes "insert_status E s x status = Inr st"
  shows "\<exists>lrm. st = xmlAddChild (Elem 0 ''node_state'' [(''id'', a_uuid x), (''uname'', a_name x),
     (''ha'', ''active''), (''expected'', ''member''), (''in_ccm'', ''true''), (''crmd'', ''online''),
     (''join'', if rc_state (a_recover x) = RECOVER_STATE_RUNNING then ''member'' else ''pending'')] [lrm]) status"
  using assms by (auto simp: insert_status_def xmlNewNode_def Let_def bindE_eq_Inr split: if_splits)

lemma status_fold:
  assumes "foldE (\<lambda>key status.
       bindE (derefE NullDeref (qb_map_get (assembly_map s) key)) (\<lambda>a.
       bindE (asm_get s a) (\<lambda>assembly.
       insert_status E s assembly status))) keys (Elem i n as ks) = Inr st"
  shows "\<exists>ns. st = Elem i n as (ks @ ns) \<and> list_all2 (membership_of s) keys ns"
  using assms
proof (induction keys arbitrary: ks)
  case (Cons key keys)
  from Cons.prems obtain a x u where a: "qb_map_get (assembly_map s) key = Some a" "asms s a = Some x"
    and u: "insert_status E s x (Elem i n as ks) = Inr u"
    and rest: "foldE (\<lambda>key status.
       bindE (derefE NullDeref (qb_map_get (assembly_map s) key)) (\<lambda>a.
       bindE (asm_get s a) (\<lambda>assembly.
       insert_status E s assembly status))) keys u = Inr st"
    by (auto simp: bindE_eq_Inr derefE_eq_Inr asm_get_def)
  from insert_status_kids [OF u] obtain m where "u = Elem i n as (ks @ [m])" "membership_of s key m"
    using a by (auto simp: membership_of_def)
  with Cons.IH [of "ks @ [m]"] rest show ?case by (auto intro: exI [of _ "m # _"])
qed simp

lemma remove_status_filter:
  "length (filter (has_name ''status'') ks) \<le> 1 \<Longrightarrow>
   remove_status ks = filter (\<lambda>k. \<not> has_name ''status'' k) ks"
proof (induction ks)
  case (Cons k ks)
  then show ?case by (auto simp: filter_empty_conv filter_id_conv split: if_splits)
qed simp

lemma process_doc:
  assumes "process E s = Inr s'"
  shows "\<exists>status. status_section E s = Inr status \<and> pe_doc s' = xmlAddChild status (remove_status_of (pe_doc s))"
proof -
  from assms obtain status where status: "status_section E s = Inr status"
    by (cases "status_section E s") (auto simp: process_def)
  have "okE (\<lambda>(rc, u). pe_doc u = pe_doc t) (pe_process_state E d b t)" for d b and t :: "'a cape"
    unfolding pe_process_state_def
    by (intro okE_intros okE_bind [where Q = "\<lambda>u. pe_doc u = pe_doc t"] okE_assert;
        simp add: loop_job_add_def)
  then have "okE (\<lambda>u. pe_doc u = xmlAddChild status (remove_status_of (pe_doc s))) (process E s)"
    unfolding process_def status bindE_simps Let_def
    by (rule okE_bind) (auto simp: schedule_processing_def loop_job_add_def)
  with status show ?thesis using assms by (auto dest: okE_D)
qed

text \<open>
  C23. The document of a calculation: the old status section is replaced by exactly one new one, at the
  end, and the rest of the document is unchanged. The section has one entry per node, in the order of
  the iteration, with the node's name and identifier; the node counts as a member of the cluster
  exactly when it is in the running state.
\<close>

theorem process_status_document:
  assumes "process E s = Inr s'" and "pe_doc s = Elem i n as ks"
    and "length (filter (has_name ''status'') ks) \<le> 1"
  shows "\<exists>ns. pe_doc s' = Elem i n as (filter (\<lambda>k. \<not> has_name ''status'' k) ks @ [Elem 0 ''status'' [] ns]) \<and>
    list_all2 (membership_of s) (map_order E (qb_keys (assembly_map s))) ns"
proof -
  from process_doc [OF assms(1)] obtain status where
    st: "status_section E s = Inr status" and doc: "pe_doc s' = xmlAddChild status (remove_status_of (pe_doc s))"
    by blast
  from st obtain ns where "status = Elem 0 ''status'' [] ns"
    "list_all2 (membership_of s) (map_order E (qb_keys (assembly_map s))) ns"
    using status_fold [of s E _ 0 "''status''" "[]" "[]" status] by (auto simp: status_section_def xmlNewNode_def)
  with doc assms(2) show ?thesis
    by (auto simp: remove_status_of_def remove_status_filter [OF assms(3)])
qed

theorem process_status_document_witness:
  "\<exists>s' m. process demo_env (demo_state\<lparr>pe_doc := Elem 1 ''cib'' [] [Elem 2 ''configuration'' [] [], Elem 3 ''status'' [] []]\<rparr>)
      = Inr s' \<and>
     pe_doc s' = Elem 1 ''cib'' [] [Elem 2 ''configuration'' [] [], Elem 0 ''status'' [] [m]] \<and>
     xmlGetProp m ''join'' = Some ''member''"
proof -
  let ?s = "demo_state\<lparr>pe_doc := Elem 1 ''cib'' [] [Elem 2 ''configuration'' [] [], Elem 3 ''status'' [] []]\<rparr>"
  have "\<exists>s'. process demo_env ?s = Inr s'"
    by (simp add: process_def status_section_def insert_status_def demo_state_defs demo_defs qb_keys_def
        qb_map_get_def heap_defs pe_process_state_def loop_job_add_def Let_def)
  then obtain s' where s': "process demo_env ?s = Inr s'" by blast
  have map: "map_order demo_env (qb_keys (assembly_map ?s)) = [''web'']" "asms ?s 0 = Some demo_node"
    "qb_map_get (assembly_map ?s) ''web'' = Some 0" "rc_state (a_recover demo_node) = RECOVER_STATE_RUNNING"
    by (simp_all add: demo_state_defs demo_env_def qb_keys_def qb_map_get_def)
  show ?thesis
    using process_status_document [OF s', of 1 "''cib''" "[]"] s' map
    by (auto simp: list_all2_Cons1 membership_of_def)
qed

end
