(* ===== verification/Cape_Config.thy ===== *)
theory Cape_Config
  imports Cape_Status
begin

text \<open>
  \<^verbatim>\<open>src/src/cape.c\<close>, from \<open>get_xml_child_by\<close> to the end of the file: building the nodes and resources
  from the configuration document, and the initial and final operations of the engine. The style sheet
  that derives the policy document from the configuration is the argument \<open>xslt\<close>; the file system is
  the argument \<open>fs\<close>, which gives an error number or what the parser makes of the file; \<open>parse\<close> is the
  parser on a buffer. Both give nothing for a text that is not well formed, which \<open>parse_and_load\<close>
  does not check: the name of the missing root element is then copied from a NULL pointer.
\<close>

definition ASSEMBLY_NAME_MAX :: nat where "ASSEMBLY_NAME_MAX = 1024"
definition PATH_MAX :: nat where "PATH_MAX = 4096"

section \<open>Looking up elements\<close>

definition child_matches :: "string \<Rightarrow> string option \<Rightarrow> string option \<Rightarrow> xml \<Rightarrow> bool" where
  "child_matches node_name prop_name prop_value x \<longleftrightarrow>
     has_name node_name x \<and>
     (case (prop_name, prop_value) of
        (Some k, Some v) \<Rightarrow> xmlGetProp x k = Some v
      | _ \<Rightarrow> True)"

definition get_xml_child_by :: "xml \<Rightarrow> string \<Rightarrow> string option \<Rightarrow> string option \<Rightarrow> xml option" where
  "get_xml_child_by parent node_name prop_name prop_value =
     List.find (child_matches node_name prop_name prop_value) (kids parent)"

definition find_pe_parameter :: "xml \<Rightarrow> string \<Rightarrow> string option \<Rightarrow> xml option res" where
  "find_pe_parameter pe rsc_id parm_name =
     bindE (derefE AssertFail (get_xml_child_by pe ''configuration'' None None)) (\<lambda>config_node.
     bindE (derefE AssertFail (get_xml_child_by config_node ''resources'' None None)) (\<lambda>rscs_node.
     case get_xml_child_by rscs_node ''primitive'' (Some ''id'') (Some rsc_id) of
       None \<Rightarrow> Inr None
     | Some prim_node \<Rightarrow>
         (case get_xml_child_by prim_node ''instance_attributes'' None None of
            None \<Rightarrow> Inr None
          | Some insts_node \<Rightarrow>
              Inr (get_xml_child_by insts_node ''nvpair'' (Some ''name'') parm_name))))"

section \<open>Resources\<close>

text \<open>One \<^verbatim>\<open>reference\<close> element of a parameter.\<close>

definition ref_param_add :: "rsc_ptr \<Rightarrow> xml \<Rightarrow> xml \<Rightarrow> 'sw cape \<Rightarrow> 'sw cape res" where
  "ref_param_add r child_node ref_node s =
     bindE (rsc_get s r) (\<lambda>rsc.
     let params = (case r_ref_params_map rsc of None \<Rightarrow> [] | Some m \<Rightarrow> m);
         name = xmlGetProp child_node ''name'' in
     bindE (find_pe_parameter (pe_doc s) (r_name rsc) name) (\<lambda>found.
     bindE (derefE AssertFail found) (\<lambda>xmlnode.
     bindE (derefE NullDeref name) (\<lambda>nm.
     let p = \<lparr>rp_name = nm, rp_assembly = xmlGetProp ref_node ''assembly'',
              rp_parameter = xmlGetProp ref_node ''parameter'', rp_xmlnode = Some (x_addr xmlnode)\<rparr>
     in Inr (upd_rsc r (\<lambda>x. x\<lparr>r_ref_params_map := Some (qb_map_put nm p params)\<rparr>) s)))))"

definition resource_add_ref_params :: "xml option \<Rightarrow> rsc_ptr \<Rightarrow> 'sw cape \<Rightarrow> 'sw cape res" where
  "resource_add_ref_params params_node r s =
     (case params_node of
        None \<Rightarrow> Inr s
      | Some params \<Rightarrow>
          foldE (\<lambda>child_node s.
            if \<not> has_name ''parameter'' child_node then Inr s
            else foldE (\<lambda>ref_node s.
                   if \<not> has_name ''reference'' ref_node then Inr s
                   else ref_param_add r child_node ref_node s) (kids child_node) s)
            (kids params) s)"

text \<open>
  The memory of a new struct; every field but the instance is written by \<open>recover_init\<close>.
\<close>

definition calloc_recover :: "'sw cape_recover" where
  "calloc_recover = \<lparr>rc_instance = None, rc_state = RECOVER_STATE_UNKNOWN, num_failures = 0,
     failure_period = 0, rc_sw = None, restart = Resource_recover_restart,
     escalate = Resource_recover_escalate, state_changing = None\<rparr>"

text \<open>
  The part that \<open>configure_resource_create\<close> and \<open>resource_create\<close> share: allocate the resource,
  initialise its failure bookkeeping and enter it in the map of its node.
\<close>

definition resource_new ::
  "'sw env \<Rightarrow> asm_ptr \<Rightarrow> string \<Rightarrow> string \<Rightarrow> string \<Rightarrow> string option \<Rightarrow> string option \<Rightarrow> string option \<Rightarrow>
   'sw cape \<Rightarrow> rsc_ptr \<times> 'sw cape" where
  "resource_new E a name type rclass rprovider escalation_failures escalation_period s =
     (let r = next_rsc s;
          (rec, err) = recover_init (sw_lib E) (clock E) (errno s) escalation_failures escalation_period
             Resource_recover_restart Resource_recover_escalate (Some Resource_state_change_event)
             calloc_recover;
          rsc = \<lparr>r_name = name, r_type = type, r_rclass = rclass, r_rprovider = rprovider,
                 r_assembly = a, r_monitor_op = None, r_monitor_timer = 0,
                 r_recover = rec\<lparr>rc_instance := Some r\<rparr>, r_ref_params_map = None\<rparr>;
          s = s\<lparr>rscs := (rscs s)(r := Some rsc), next_rsc := Suc r, errno := err\<rparr>
      in (r, upd_asm a (\<lambda>x. x\<lparr>a_resource_map := qb_map_put name r (a_resource_map x)\<rparr>) s))"

definition configure_resource_create ::
  "'sw env \<Rightarrow> xml \<Rightarrow> xml option \<Rightarrow> asm_ptr \<Rightarrow> 'sw cape \<Rightarrow> 'sw cape res" where
  "configure_resource_create E rsc_node params_node a s =
     bindE (asm_get s a) (\<lambda>assembly.
     let resource_name = snprintf (ASSEMBLY_NAME_MAX + RESOURCE_NAME_MAX + 6)
           (''cfg_'' @ a_name assembly @ ''_'' @ c_string (xmlGetProp rsc_node ''name''));
         (r, s) = resource_new E a resource_name ''script_runner'' ''ocf'' (Some ''pacemaker-cloud'')
                    (Some ''-1'') (Some ''-1'') s
     in resource_add_ref_params params_node r s)"

definition resource_create :: "'sw env \<Rightarrow> xml \<Rightarrow> asm_ptr \<Rightarrow> 'sw cape \<Rightarrow> 'sw cape res" where
  "resource_create E cur_node a s =
     (let params_node = List.find (has_name ''parameters'') (kids cur_node) in
      bindE (if List.find (has_name ''configure_executable'') (kids cur_node) \<noteq> None
             then configure_resource_create E cur_node params_node a s else Inr s) (\<lambda>s.
      bindE (asm_get s a) (\<lambda>assembly.
      let resource_name = snprintf (ASSEMBLY_NAME_MAX + RESOURCE_NAME_MAX + 6)
            (''rsc_'' @ a_name assembly @ ''_'' @ c_string (xmlGetProp cur_node ''name'')) in
      bindE (derefE NullDeref (xmlGetProp cur_node ''type'')) (\<lambda>type.
      bindE (derefE NullDeref (xmlGetProp cur_node ''class'')) (\<lambda>rclass.
      let (r, s) = resource_new E a resource_name type rclass (xmlGetProp cur_node ''provider'')
                     (xmlGetProp cur_node ''escalation_failures'')
                     (xmlGetProp cur_node ''escalation_period'') s
      in if rclass = ''ocf'' then resource_add_ref_params params_node r s else Inr s)))))"

definition resources_create :: "'sw env \<Rightarrow> xml list \<Rightarrow> asm_ptr \<Rightarrow> 'sw cape \<Rightarrow> 'sw cape res" where
  "resources_create E nodes a s =
     foldE (\<lambda>cur_node s. if \<not> is_elem cur_node then Inr s else resource_create E cur_node a s) nodes s"

section \<open>Nodes\<close>

definition assembly_create :: "'sw env \<Rightarrow> xml \<Rightarrow> 'sw cape \<Rightarrow> 'sw cape res" where
  "assembly_create E cur_node s =
     bindE (derefE NullDeref (xmlGetProp cur_node ''name'')) (\<lambda>name.
     bindE (derefE NullDeref (xmlGetProp cur_node ''uuid'')) (\<lambda>uuid.
     let a = next_asm s;
         (rec, err) = recover_init (sw_lib E) (clock E) (errno s)
            (xmlGetProp cur_node ''escalation_failures'') (xmlGetProp cur_node ''escalation_period'')
            Node_recover_restart Node_recover_escalate (Some Node_state_change_event) calloc_recover;
         asm = \<lparr>a_name = name, a_uuid = uuid, a_address = None, a_instance_id = [], a_image_id = [],
                a_resource_map = [], a_transport = None, a_recover = rec\<lparr>rc_instance := Some a\<rparr>\<rparr>;
         s = s\<lparr>asms := (asms s)(a := Some asm), next_asm := Suc a, errno := err\<rparr> in
     bindE (instance_create E a s) (\<lambda>s.
     let s = s\<lparr>assembly_map := qb_map_put name a (assembly_map s)\<rparr>
     in foldE (\<lambda>child_node s. if has_name ''services'' child_node
                               then resources_create E (kids child_node) a s else Inr s)
          (kids cur_node) s)))"

definition assemblies_create :: "'sw env \<Rightarrow> xml list \<Rightarrow> 'sw cape \<Rightarrow> 'sw cape res" where
  "assemblies_create E nodes s =
     foldE (\<lambda>cur_node s. if \<not> is_elem cur_node then Inr s else assembly_create E cur_node s) nodes s"

section \<open>Loading, start and end\<close>

definition parse_and_load :: "'sw env \<Rightarrow> (xml \<Rightarrow> xml) \<Rightarrow> xml \<Rightarrow> 'sw cape \<Rightarrow> 'sw cape res" where
  "parse_and_load E xslt config s =
     (let s = s\<lparr>pe_doc := xslt config\<rparr> in
      bindE (derefE NullDeref (xmlGetProp config ''name'')) (\<lambda>name.
      bindE (derefE NullDeref (xmlGetProp config ''uuid'')) (\<lambda>uuid.
      foldE (\<lambda>cur_node s. if has_name ''assemblies'' cur_node
                           then assemblies_create E (kids cur_node) s else Inr s)
        (kids config) (s\<lparr>application_name := name, application_uuid := uuid\<rparr>))))"

definition cape_load_from_buffer ::
  "'sw env \<Rightarrow> (xml \<Rightarrow> xml) \<Rightarrow> (string \<Rightarrow> xml option) \<Rightarrow> string \<Rightarrow> 'sw cape \<Rightarrow> 'sw cape res" where
  "cape_load_from_buffer E xslt parse buffer s =
     bindE (derefE NullDeref (parse buffer)) (\<lambda>config. parse_and_load E xslt config s)"

definition cape_load ::
  "'sw env \<Rightarrow> (xml \<Rightarrow> xml) \<Rightarrow> (string \<Rightarrow> int + xml option) \<Rightarrow> string \<Rightarrow> 'sw cape \<Rightarrow>
   (int \<times> 'sw cape) res" where
  "cape_load E xslt fs name s =
     (case fs (snprintf PATH_MAX (''/var/run/'' @ name @ ''.xml'')) of
        Inl err \<Rightarrow> Inr (- err, s)
      | Inr doc \<Rightarrow>
          bindE (derefE NullDeref doc) (\<lambda>config.
          bindE (parse_and_load E xslt config s) (\<lambda>s. Inr (0, s))))"

definition cape_exit :: "'sw env \<Rightarrow> 'sw cape \<Rightarrow> 'sw cape res" where
  "cape_exit E s =
     foldE (\<lambda>key s. bindE (derefE NullDeref (qb_map_get (assembly_map s) key)) (\<lambda>a. transport_disconnect a s))
       (map_order E (qb_keys (assembly_map s))) s"

section \<open>Views of the configuration\<close>

text \<open>
  A view that ignores the resources is unchanged by creating them; one that ignores the nodes as well is
  unchanged by loading a configuration.
\<close>

locale resource_view =
  fixes V :: "'sw cape \<Rightarrow> 'v"
  assumes v_rscs [simp]: "V (s\<lparr>rscs := c1\<rparr>) = V s"
    and v_next_rsc [simp]: "V (s\<lparr>next_rsc := c2\<rparr>) = V s"
    and v_errno [simp]: "V (s\<lparr>errno := c3\<rparr>) = V s"
    and v_resource_map [simp]: "V (upd_asm a (\<lambda>x. x\<lparr>a_resource_map := g x\<rparr>) s) = V s"
begin

lemma v_upd_rsc_any [simp]: "V (upd_rsc r f s) = V s"
  by (simp add: upd_rsc_def)

lemma v_resource_new: "(r, s') = resource_new E a n t c p ef ep s \<Longrightarrow> V s' = V s"
  by (auto simp: resource_new_def Let_def case_prod_beta)

lemma keeps_ref_params: "keeps V (resource_add_ref_params params r)"
  unfolding resource_add_ref_params_def ref_param_add_def
  by (rule keeps_I) (intro okE_intros keeps_okE [OF keeps_foldE] keeps_I
      okE_bind_get [where m = "find_pe_parameter _ _ _"]; simp)

lemma keeps_configure_resource: "keeps V (configure_resource_create E n ps a)"
  unfolding configure_resource_create_def
  by (rule keeps_I) (intro okE_intros keeps_okE [OF keeps_ref_params]; simp add: v_resource_new)

lemma keeps_resource_create: "keeps V (resource_create E n a)"
  unfolding resource_create_def
  by (rule keeps_I) (intro okE_intros keep_bind keeps_okE [OF keeps_configure_resource]
      keeps_okE [OF keeps_ref_params]; simp add: v_resource_new)

lemma keeps_resources_create: "keeps V (resources_create E ns a)"
  unfolding resources_create_def
  by (rule keeps_I) (intro keeps_okE [OF keeps_foldE] keeps_I okE_intros
      keeps_okE [OF keeps_resource_create]; simp)

end

locale config_view = callback_view V + resource_view V for V :: "'sw cape \<Rightarrow> 'v" +
  assumes v_asms [simp]: "V (s\<lparr>asms := c4\<rparr>) = V s"
    and v_next_asm [simp]: "V (s\<lparr>next_asm := c5\<rparr>) = V s"
    and v_assembly_map [simp]: "V (s\<lparr>assembly_map := c6\<rparr>) = V s"
    and v_application_name [simp]: "V (s\<lparr>application_name := c7\<rparr>) = V s"
    and v_application_uuid [simp]: "V (s\<lparr>application_uuid := c8\<rparr>) = V s"
begin

lemma keeps_assembly_create: "keeps V (assembly_create E n)"
  unfolding assembly_create_def
  by (rule keeps_I) (intro okE_intros keep_bind keeps_okE [OF keeps_instance_create]
      keeps_okE [OF keeps_foldE] keeps_I keeps_okE [OF keeps_resources_create]; simp)

lemma keeps_parse_and_load: "keeps V (parse_and_load E xslt config)"
  unfolding parse_and_load_def assemblies_create_def
  by (rule keeps_I) (intro okE_intros keeps_okE [OF keeps_foldE] keeps_I
      keeps_okE [OF keeps_assembly_create]; simp)

end

end
