(* ===== verification/Cape_Loop.thy ===== *)
theory Cape_Loop
  imports Cape_Config
begin

text \<open>
  The running engine: the event loop takes a pending job or an armed timer, in any order, and runs its
  handler. A step is one such handler that ends without an error; the environment of third-party
  answers may differ from step to step.
\<close>

definition run_job :: "'sw env \<Rightarrow> job \<Rightarrow> 'sw cape \<Rightarrow> 'sw cape res" where
  "run_job E j s =
     (case j of
        Process_job \<Rightarrow> process_job E s
      | Process_next_job g \<Rightarrow> process_next_job E (resource_execute_cb E) g s
      | My_instance_state_get a \<Rightarrow> my_instance_state_get E a s
      | Connect_execute a \<Rightarrow> connect_execute E a s
      | Ssh_assembly_connect a \<Rightarrow> ssh_assembly_connect E a s
      | Assembly_ssh_exec q \<Rightarrow> assembly_ssh_exec E q s)"

definition fire_timer :: "'sw env \<Rightarrow> timer_fn \<Rightarrow> 'sw cape \<Rightarrow> 'sw cape res" where
  "fire_timer E f s =
     (case f of
        Resource_monitor_execute p \<Rightarrow> resource_monitor_execute E p s
      | Instance_state_poll a \<Rightarrow> my_instance_state_get E a s
      | Ssh_timeout q \<Rightarrow> ssh_timeout E q s
      | Ssh_keepalive_send t \<Rightarrow> ssh_keepalive_send E t s
      | Assembly_healthcheck a \<Rightarrow> assembly_healthcheck a s)"

inductive cape_step :: "'sw cape \<Rightarrow> 'sw cape \<Rightarrow> bool" where
  step_job: "j \<in> set (jobs s) \<Longrightarrow> run_job E j (s\<lparr>jobs := remove1 j (jobs s)\<rparr>) = Inr s' \<Longrightarrow>
     cape_step s s'"
| step_timer: "t \<in> set (timers s) \<Longrightarrow> fire_timer E (tm_fn t) (s\<lparr>timers := remove1 t (timers s)\<rparr>) = Inr s' \<Longrightarrow>
     cape_step s s'"

inductive_cases cape_stepE: "cape_step s s'"

abbreviation cape_reach :: "'sw cape \<Rightarrow> 'sw cape \<Rightarrow> bool" where
  "cape_reach \<equiv> cape_step\<^sup>*\<^sup>*"

section \<open>What every handler but those of the policy engine keeps\<close>

context handler_view
begin

lemma keeps_fire: "okE (\<lambda>(b, u). V u = V s) (graph_exec_fns E (resource_execute_cb E) g x s)"
proof (cases x)
  case (Pair k i)
  have rsc: "okE (\<lambda>(b, u). V u = V s) (exec_rsc_action E (resource_execute_cb E) g i s)"
    unfolding exec_rsc_action_def
    by (intro okE_intros okE_bind [where Q = "\<lambda>u. V u = V s"] keeps_okE [OF keeps_execute_cb]; simp)
  show ?thesis
    by (cases k) (use rsc in \<open>auto simp: Pair exec_pseudo_action_def exec_crmd_action_def
        exec_stonith_action_def intro!: okE_intros\<close>)
qed

lemma keeps_fires:
  "keeps V (foldE (\<lambda>x s. bindE (graph_exec_fns E (resource_execute_cb E) g x s) (\<lambda>(_, s). Inr s)) xs)"
  by (intro keeps_foldE keeps_I okE_bind [OF keeps_fire]) auto

lemma keeps_run_job: "\<not> is_next_job j \<Longrightarrow> j \<noteq> Process_job \<Longrightarrow> keeps V (run_job E j)"
  unfolding run_job_def
  by (cases j; simp; intro keeps_instance_state_get keeps_connect_execute keeps_assembly_connect
      keeps_ssh_exec)

lemma keeps_fire_timer: "keeps V (fire_timer E f)"
  unfolding fire_timer_def
  by (cases f; simp; intro keeps_monitor_execute keeps_instance_state_get keeps_ssh_timeout
      keeps_keepalive keeps_healthcheck)

end

section \<open>One transition at a time\<close>

text \<open>
  The policy engine is idle, with no graph and no pending \<open>process_next_job\<close>, or it works on the only
  graph there is, for which exactly one such job is pending.
\<close>

definition next_jobs :: "'sw cape \<Rightarrow> job list" where
  "next_jobs s = filter is_next_job (jobs s)"

definition pe_view :: "'sw cape \<Rightarrow> bool \<times> job list \<times> graph_ptr set" where
  "pe_view s = (working_set s, next_jobs s, dom (graphs s))"

definition pe_inv :: "'sw cape \<Rightarrow> bool" where
  "pe_inv s \<longleftrightarrow>
     (if working_set s then \<exists>g. next_jobs s = [Process_next_job g] \<and> dom (graphs s) = {g}
      else next_jobs s = [] \<and> dom (graphs s) = {})"

interpretation pe: handler_view "pe_view :: 'sw cape \<Rightarrow> _"
  by unfold_locales
    (auto simp: pe_view_def next_jobs_def node_upd_def rsc_upd_def heap_defs loop_job_add_def
      loop_job_del_def filter_remove1 remove1_idem split: if_splits)

interpretation pe: config_view "pe_view :: 'sw cape \<Rightarrow> _"
  by unfold_locales (simp_all add: pe_view_def next_jobs_def upd_asm_def)

lemma pe_inv_cong: "pe_view s' = pe_view s \<Longrightarrow> pe_inv s' = pe_inv s"
  by (auto simp: pe_view_def pe_inv_def)

lemma next_jobs_simps [simp]:
  "next_jobs (loop_job_add j s) = next_jobs s @ (if is_next_job j then [j] else [])"
  "next_jobs (s\<lparr>jobs := remove1 j (jobs s)\<rparr>) = (if is_next_job j then remove1 j (next_jobs s) else next_jobs s)"
  "next_jobs (s\<lparr>graphs := x1\<rparr>) = next_jobs s"
  "next_jobs (s\<lparr>working_set := x2\<rparr>) = next_jobs s"
  "next_jobs (s\<lparr>next_graph := x3\<rparr>) = next_jobs s"
  "next_jobs (s\<lparr>graph_updated := x4\<rparr>) = next_jobs s"
  "next_jobs (s\<lparr>transition_count := x5\<rparr>) = next_jobs s"
  "next_jobs (s\<lparr>pe_doc := x6\<rparr>) = next_jobs s"
  by (simp_all add: next_jobs_def loop_job_add_def filter_remove1 remove1_idem)

lemma loop_job_add_simps [simp]:
  "working_set (loop_job_add j s) = working_set s"
  "graphs (loop_job_add j s) = graphs s"
  by (simp_all add: loop_job_add_def)

text \<open>The two handlers of the policy engine, from a state in which their own job was just taken.\<close>

lemma process_next_job_inv:
  assumes "working_set s" and "next_jobs s = []" and "dom (graphs s) = {g}"
    and "process_next_job E (resource_execute_cb E) g s = Inr s'"
  shows "pe_inv s'"
proof (cases "graph_updated s")
  case False
  with assms show ?thesis by (auto simp: process_next_job_def pe_inv_def)
next
  case True
  let ?fires = "\<lambda>xs. foldE (\<lambda>x s. bindE (graph_exec_fns E (resource_execute_cb E) g x s) (\<lambda>(_, s). Inr s)) xs"
  from True assms(4) obtain gr u gr' where u: "?fires (graph_fires (pcmk E) gr) (s\<lparr>graph_updated := False\<rparr>) = Inr u"
    and gr': "graphs u g = Some gr'"
    and s': "s' = loop_job_add (Process_next_job g) u \<or>
             s' = u\<lparr>graphs := (graphs u)(g := None), working_set := False\<rparr>"
    by (auto simp: process_next_job_def Let_def res_simps split: if_splits)
  from keeps_D [OF pe.keeps_fires u] assms(1-3)
  have "working_set u" "next_jobs u = []" "dom (graphs u) = {g}"
    by (auto simp: pe_view_def)
  with s' show ?thesis by (elim disjE) (simp_all add: pe_inv_def del: dom_eq_empty_conv)
qed

lemma process_job_inv:
  assumes "pe_inv s" and "process_job E s = Inr s'"
  shows "pe_inv s'"
proof (cases "working_set s")
  case True
  with assms(2) have "s' = schedule_processing s"
    by (simp add: process_job_def pe_is_busy_processing_def)
  with assms(1) pe_inv_cong [OF pe.v_schedule_processing] show ?thesis by blast
next
  case False
  with assms(2) have "process E s = Inr s'" by (simp add: process_job_def pe_is_busy_processing_def)
  then obtain d rc u where d: "pe_process_state E d (cape_debug s) (s\<lparr>pe_doc := d\<rparr>) = Inr (rc, u)"
    and s': "s' = (if rc \<noteq> 0 then schedule_processing u else u)"
    by (rule processE)
  have "\<not> working_set (s\<lparr>pe_doc := d\<rparr>)" using False by simp
  note started = pe_process_state_started [OF d this]
  with assms(1) False s' show ?thesis
    by (simp add: pe_inv_def started del: dom_eq_empty_conv)
qed

lemma run_job_pe_inv:
  assumes "pe_inv s" and "j \<in> set (jobs s)" and "run_job E j (s\<lparr>jobs := remove1 j (jobs s)\<rparr>) = Inr s'"
  shows "pe_inv s'"
proof -
  let ?t = "s\<lparr>jobs := remove1 j (jobs s)\<rparr>"
  consider g where "j = Process_next_job g" | "j = Process_job" | "\<not> is_next_job j" "j \<noteq> Process_job"
    by (cases j) auto
  then show ?thesis
  proof cases
    case (1 g)
    with assms(2) have "j \<in> set (next_jobs s)" by (simp add: next_jobs_def)
    with assms(1) 1 have "working_set s" "next_jobs s = [j]" "dom (graphs s) = {g}"
      by (auto simp: pe_inv_def split: if_splits)
    with assms(3) 1 show ?thesis
      by (intro process_next_job_inv [of ?t g E]) (simp_all add: run_job_def)
  next
    case 2
    with assms(1) have "pe_inv ?t" by (simp add: pe_inv_def)
    moreover have "process_job E ?t = Inr s'" using assms(3) 2 by (simp add: run_job_def)
    ultimately show ?thesis by (rule process_job_inv)
  next
    case 3
    with assms(1) have "pe_inv ?t" by (simp add: pe_inv_def)
    with pe_inv_cong [OF keeps_D [OF pe.keeps_run_job [OF 3] assms(3)]] show ?thesis by blast
  qed
qed

lemma step_pe_inv:
  assumes "cape_step s s'" and "pe_inv s"
  shows "pe_inv s'"
  using assms(1)
proof (rule cape_stepE)
  fix j and E :: "'a env"
  assume "j \<in> set (jobs s)" and "run_job E j (s\<lparr>jobs := remove1 j (jobs s)\<rparr>) = Inr s'"
  with assms(2) show ?thesis by (rule run_job_pe_inv)
next
  fix t and E :: "'a env"
  assume step: "fire_timer E (tm_fn t) (s\<lparr>timers := remove1 t (timers s)\<rparr>) = Inr s'"
  have "pe_inv (s\<lparr>timers := remove1 t (timers s)\<rparr>)"
    using assms(2) pe_inv_cong [OF pe.v_timers] by blast
  with pe_inv_cong [OF keeps_D [OF pe.keeps_fire_timer step]] show ?thesis by blast
qed

section \<open>What no step changes\<close>

text \<open>
  \<open>loop_view\<close> adds the writes of the handlers of the policy engine; such a view is unchanged by every
  step of the event loop.
\<close>

locale loop_view = handler_view V for V :: "'sw cape \<Rightarrow> 'v" +
  assumes v_jobs [simp]: "V (s\<lparr>jobs := l1\<rparr>) = V s"
    and v_working_set [simp]: "V (s\<lparr>working_set := l2\<rparr>) = V s"
    and v_graphs [simp]: "V (s\<lparr>graphs := l3\<rparr>) = V s"
    and v_next_graph [simp]: "V (s\<lparr>next_graph := l4\<rparr>) = V s"
    and v_transition_count [simp]: "V (s\<lparr>transition_count := l5\<rparr>) = V s"
begin

lemma v_any_job [simp]: "V (loop_job_add j s) = V s"
  by (simp add: loop_job_add_def)

lemma keeps_next_job: "keeps V (process_next_job E (resource_execute_cb E) g)"
  unfolding process_next_job_def
  by (rule keeps_I) (intro okE_intros keep_bind keeps_okE [OF keeps_fires]; simp)

lemma keeps_process_job: "keeps V (process_job E)"
proof (rule keeps_I)
  fix s :: "'sw cape"
  have "V s' = V s" if "process E s = Inr s'" for s'
  proof -
    from that obtain d rc u where d: "pe_process_state E d (cape_debug s) (s\<lparr>pe_doc := d\<rparr>) = Inr (rc, u)"
      and s': "s' = (if rc \<noteq> 0 then schedule_processing u else u)"
      by (rule processE)
    have "V u = V s"
      using d by (auto simp: pe_process_state_def Let_def assertE_def split: if_splits)
    then show ?thesis by (simp add: s')
  qed
  then show "okE (\<lambda>s'. V s' = V s) (process_job E s)"
    by (auto simp: process_job_def okE_def)
qed

lemma keeps_any_job: "keeps V (run_job E j)"
  using keeps_run_job [of j E] keeps_next_job keeps_process_job by (cases j) (auto simp: run_job_def [abs_def])

lemma step_view:
  assumes "cape_step s s'"
  shows "V s' = V s"
  using assms
proof (rule cape_stepE)
  fix j and E :: "'sw env"
  assume "run_job E j (s\<lparr>jobs := remove1 j (jobs s)\<rparr>) = Inr s'"
  from keeps_D [OF keeps_any_job this] show ?thesis by simp
next
  fix t and E :: "'sw env"
  assume "fire_timer E (tm_fn t) (s\<lparr>timers := remove1 t (timers s)\<rparr>) = Inr s'"
  from keeps_D [OF keeps_fire_timer this] show ?thesis by simp
qed

lemma reach_view: "cape_reach s s' \<Longrightarrow> V s' = V s"
  by (induction rule: rtranclp_induct) (simp_all add: step_view)

end

text \<open>
  The configuration: which nodes and resources there are, how they are named, to which node a resource
  belongs, and whom their failure bookkeeping reports to.
\<close>

definition rc_shape :: "'sw cape_recover \<Rightarrow> nat option \<times> int \<times> int \<times> recover_fn \<times> recover_fn \<times> recover_fn option" where
  "rc_shape r = (rc_instance r, num_failures r, failure_period r, restart r, escalate r, state_changing r)"

definition asm_shape where
  "asm_shape x = (a_name x, a_uuid x, a_resource_map x, rc_shape (a_recover x))"

definition rsc_shape where
  "rsc_shape y = (r_name y, r_type y, r_rclass y, r_rprovider y, r_assembly y, r_ref_params_map y,
     rc_shape (r_recover y))"

definition shape where
  "shape s = (application_name s, assembly_map s, next_asm s, next_rsc s,
     map_option asm_shape \<circ> asms s, map_option rsc_shape \<circ> rscs s)"

lemmas shape_defs = shape_def asm_shape_def [abs_def] rsc_shape_def [abs_def] rc_shape_def [abs_def]

interpretation shape: loop_view "shape :: 'sw cape \<Rightarrow> _"
  by unfold_locales
    (simp_all add: shape_defs node_upd_def rsc_upd_def upd_asm_def upd_rsc_def upd_graph_def
      loop_job_add_def loop_job_del_def fun_eq_iff option.map_comp comp_def)

end
