(* ===== verification/Cape_Wiring.thy ===== *)
theory Cape_Wiring
  imports Cape_Loop
begin

text \<open>
  The state a loaded configuration gives, and what stays true of it in every state the event loop
  reaches: nodes and resources are linked to each other and to their failure bookkeeping, and the
  policy engine runs one transition at a time.
\<close>

section \<open>Wiring\<close>

text \<open>The name of a resource contains the name of its node, unless the latter is overlong.\<close>

definition named_after :: "'sw resource \<Rightarrow> 'sw assembly \<Rightarrow> bool" where
  "named_after y x \<longleftrightarrow> (length (a_name x) \<le> ASSEMBLY_NAME_MAX \<longrightarrow> strstr (r_name y) (a_name x))"

definition wired :: "'sw cape \<Rightarrow> bool" where
  "wired s \<longleftrightarrow>
     (\<forall>n a. qb_map_get (assembly_map s) n = Some a \<longrightarrow> (\<exists>x. asms s a = Some x \<and> a_name x = n)) \<and>
     (\<forall>a x. asms s a = Some x \<longrightarrow> a < next_asm s \<and> node_wired a x) \<and>
     (\<forall>a x k r. asms s a = Some x \<longrightarrow> qb_map_get (a_resource_map x) k = Some r \<longrightarrow>
        (\<exists>y. rscs s r = Some y \<and> r_name y = k \<and> r_assembly y = a)) \<and>
     (\<forall>r y. rscs s r = Some y \<longrightarrow> r < next_rsc s \<and> rsc_wired r y \<and>
        (\<exists>x. asms s (r_assembly y) = Some x \<and> named_after y x))"

lemma wired_listed: "wired s \<Longrightarrow> qb_map_get (assembly_map s) n = Some a \<Longrightarrow> \<exists>x. asms s a = Some x \<and> a_name x = n"
  unfolding wired_def by blast

lemma wired_node: "wired s \<Longrightarrow> asms s a = Some x \<Longrightarrow> a < next_asm s \<and> node_wired a x"
  unfolding wired_def by blast

lemma wired_member:
  "wired s \<Longrightarrow> asms s a = Some x \<Longrightarrow> qb_map_get (a_resource_map x) k = Some r \<Longrightarrow>
   \<exists>y. rscs s r = Some y \<and> r_name y = k \<and> r_assembly y = a"
  unfolding wired_def by blast

lemma wired_rsc:
  "wired s \<Longrightarrow> rscs s r = Some y \<Longrightarrow>
   r < next_rsc s \<and> rsc_wired r y \<and> (\<exists>x. asms s (r_assembly y) = Some x \<and> named_after y x)"
  unfolding wired_def by blast

lemma wiredI:
  assumes "\<And>n a. qb_map_get (assembly_map s) n = Some a \<Longrightarrow> \<exists>x. asms s a = Some x \<and> a_name x = n"
    and "\<And>a x. asms s a = Some x \<Longrightarrow> a < next_asm s \<and> node_wired a x"
    and "\<And>a x k r. asms s a = Some x \<Longrightarrow> qb_map_get (a_resource_map x) k = Some r \<Longrightarrow>
        \<exists>y. rscs s r = Some y \<and> r_name y = k \<and> r_assembly y = a"
    and "\<And>r y. rscs s r = Some y \<Longrightarrow> r < next_rsc s \<and> rsc_wired r y \<and>
        (\<exists>x. asms s (r_assembly y) = Some x \<and> named_after y x)"
  shows "wired s"
  unfolding wired_def using assms by blast

lemma wired_cape_init: "wired (cape_init debug uuid)"
  by (simp add: wired_def cape_init_def)

lemma recover_init_wired:
  "rc_wired i re es ch ((fst (recover_init Q t e ef ep re es (Some ch) r))\<lparr>rc_instance := Some i\<rparr>)"
  by (simp add: recover_init_def rc_wired_def Let_def case_prod_beta)

lemma strstr_snprintf:
  assumes "length p + length n < m"
  shows "strstr (snprintf m (p @ n @ q)) n"
proof -
  have "take (m - 1) (p @ n @ q) = p @ n @ take (m - 1 - (length p + length n)) q"
    using assms by simp
  then show ?thesis unfolding snprintf_def by (simp only: strstr_refl_append)
qed

text \<open>Wiring is a matter of the shape of the state.\<close>

lemma shape_asms:
  fixes s s' :: "'sw cape"
  assumes "shape s' = shape s" and "asms s a = Some x"
  shows "\<exists>x'. asms s' a = Some x' \<and> asm_shape x' = asm_shape x"
proof -
  from assms(1) have "map_option asm_shape (asms s' a) = map_option asm_shape (asms s a)"
    by (simp add: shape_def fun_eq_iff)
  with assms(2) show ?thesis by auto
qed

lemma shape_rscs:
  fixes s s' :: "'sw cape"
  assumes "shape s' = shape s" and "rscs s r = Some y"
  shows "\<exists>y'. rscs s' r = Some y' \<and> rsc_shape y' = rsc_shape y"
proof -
  from assms(1) have "map_option rsc_shape (rscs s' r) = map_option rsc_shape (rscs s r)"
    by (simp add: shape_def fun_eq_iff)
  with assms(2) show ?thesis by auto
qed

lemma asm_shape_eq:
  "asm_shape x' = asm_shape x \<Longrightarrow> a_name x' = a_name x \<and> a_resource_map x' = a_resource_map x \<and>
     node_wired a x' = node_wired a x \<and> named_after y x' = named_after y x"
  by (simp add: asm_shape_def rc_shape_def node_wired_def rc_wired_def named_after_def)

lemma rsc_shape_eq:
  "rsc_shape y' = rsc_shape y \<Longrightarrow> r_name y' = r_name y \<and> r_assembly y' = r_assembly y \<and>
     rsc_wired r y' = rsc_wired r y \<and> named_after y' x = named_after y x"
  by (simp add: rsc_shape_def rc_shape_def rsc_wired_def rc_wired_def named_after_def)

lemma wired_shape:
  fixes s s' :: "'sw cape"
  assumes shape: "shape s' = shape s" and wired: "wired s"
  shows "wired s'"
proof (rule wiredI)
  note sh = shape [symmetric]
  have maps: "assembly_map s' = assembly_map s" "next_asm s' = next_asm s" "next_rsc s' = next_rsc s"
    using shape by (simp_all add: shape_def)
  show "\<exists>x. asms s' a = Some x \<and> a_name x = n" if "qb_map_get (assembly_map s') n = Some a" for n a
  proof -
    from that maps(1) wired_listed [OF wired] obtain x where x: "asms s a = Some x" "a_name x = n" by auto
    from shape_asms [OF shape x(1)] obtain x' where "asms s' a = Some x'" "asm_shape x' = asm_shape x" by blast
    with x(2) asm_shape_eq [of x' x] show ?thesis by blast
  qed
  show "a < next_asm s' \<and> node_wired a x" if "asms s' a = Some x" for a x
  proof -
    from shape_asms [OF sh that] obtain x' where x': "asms s a = Some x'" "asm_shape x' = asm_shape x" by blast
    with wired_node [OF wired x'(1)] asm_shape_eq [of x' x] maps(2) show ?thesis by simp
  qed
  show "\<exists>y. rscs s' r = Some y \<and> r_name y = k \<and> r_assembly y = a"
    if x: "asms s' a = Some x" and k: "qb_map_get (a_resource_map x) k = Some r" for a x k r
  proof -
    from shape_asms [OF sh x] obtain x' where x': "asms s a = Some x'" "asm_shape x' = asm_shape x" by blast
    with k asm_shape_eq [of x' x] have "qb_map_get (a_resource_map x') k = Some r" by simp
    from wired_member [OF wired x'(1) this] obtain y where y: "rscs s r = Some y" "r_name y = k"
      "r_assembly y = a" by blast
    from shape_rscs [OF shape y(1)] obtain y' where "rscs s' r = Some y'" "rsc_shape y' = rsc_shape y"
      by blast
    with y(2,3) rsc_shape_eq [of y' y] show ?thesis by blast
  qed
  show "r < next_rsc s' \<and> rsc_wired r y \<and> (\<exists>x. asms s' (r_assembly y) = Some x \<and> named_after y x)"
    if y: "rscs s' r = Some y" for r y
  proof -
    from shape_rscs [OF sh y] obtain z where z: "rscs s r = Some z" "rsc_shape z = rsc_shape y" by blast
    from wired_rsc [OF wired z(1)] obtain x where x: "r < next_rsc s" "rsc_wired r z"
      "asms s (r_assembly z) = Some x" "named_after z x" by blast
    from shape_asms [OF shape x(3)] obtain x' where "asms s' (r_assembly z) = Some x'"
      "asm_shape x' = asm_shape x" by blast
    with x rsc_shape_eq [OF z(2)] asm_shape_eq [of x' x] maps(3) show ?thesis by auto
  qed
qed

section \<open>Loading gives a wired state\<close>

text \<open>A new resource, with any class and limits.\<close>

lemma wired_resource_new:
  assumes wired: "wired s" and a: "asms s a = Some x"
    and name: "length (a_name x) \<le> ASSEMBLY_NAME_MAX \<longrightarrow> strstr name (a_name x)"
    and new: "s' = snd (resource_new E a name type rclass rprovider ef ep s)"
  shows "wired s'"
proof -
  let ?r = "next_rsc s"
  obtain rec where rec: "rc_wired ?r Resource_recover_restart Resource_recover_escalate
      Resource_state_change_event rec" and
    s': "\<exists>err. s' = upd_asm a (\<lambda>x. x\<lparr>a_resource_map := qb_map_put name ?r (a_resource_map x)\<rparr>)
        (s\<lparr>rscs := (rscs s)(?r := Some \<lparr>r_name = name, r_type = type, r_rclass = rclass,
           r_rprovider = rprovider, r_assembly = a, r_monitor_op = None, r_monitor_timer = 0,
           r_recover = rec, r_ref_params_map = None\<rparr>), next_rsc := Suc ?r, errno := err\<rparr>)"
    using new recover_init_wired [of ?r Resource_recover_restart Resource_recover_escalate
        Resource_state_change_event]
    by (fastforce simp: resource_new_def Let_def case_prod_beta)
  have fresh: "rscs s ?r = None"
    using wired_rsc [OF wired, of ?r] by (cases "rscs s ?r") auto
  show ?thesis
  proof (rule wiredI)
    show "\<exists>x. asms s' b = Some x \<and> a_name x = n" if "qb_map_get (assembly_map s') n = Some b" for n b
      using that s' wired_listed [OF wired, of n b] by (auto simp: upd_asm_def)
    show "b < next_asm s' \<and> node_wired b x" if "asms s' b = Some x" for b x
      using that s' wired_node [OF wired, of b] by (auto simp: upd_asm_def node_wired_def split: if_splits)
    show "\<exists>y. rscs s' q = Some y \<and> r_name y = k \<and> r_assembly y = b"
      if "asms s' b = Some z" "qb_map_get (a_resource_map z) k = Some q" for b z k q
      using that s' wired_member [OF wired, of b] fresh
      by (fastforce simp: upd_asm_def split: if_splits)
    show "q < next_rsc s' \<and> rsc_wired q y \<and> (\<exists>z. asms s' (r_assembly y) = Some z \<and> named_after y z)"
      if "rscs s' q = Some y" for q y
      using that s' rec a name wired_rsc [OF wired, of q]
      by (auto simp: upd_asm_def rsc_wired_def named_after_def split: if_splits)
  qed
qed

lemma wired_ref_params:
  assumes wired: "wired s"
  shows "wired (upd_rsc r (\<lambda>x. x\<lparr>r_ref_params_map := m\<rparr>) s)"
proof (rule wiredI)
  let ?s = "upd_rsc r (\<lambda>x. x\<lparr>r_ref_params_map := m\<rparr>) s"
  show "\<exists>x. asms ?s a = Some x \<and> a_name x = n" if "qb_map_get (assembly_map ?s) n = Some a" for n a
    using that wired_listed [OF wired] by (simp add: upd_rsc_def)
  show "a < next_asm ?s \<and> node_wired a x" if "asms ?s a = Some x" for a x
    using that wired_node [OF wired] by (simp add: upd_rsc_def)
  show "\<exists>y. rscs ?s q = Some y \<and> r_name y = k \<and> r_assembly y = a"
    if "asms ?s a = Some x" "qb_map_get (a_resource_map x) k = Some q" for a x k q
    using that wired_member [OF wired, of a x k q] by (auto simp: upd_rsc_def)
  show "q < next_rsc ?s \<and> rsc_wired q y \<and> (\<exists>x. asms ?s (r_assembly y) = Some x \<and> named_after y x)"
    if "rscs ?s q = Some y" for q y
    using that wired_rsc [OF wired, of q]
    by (auto simp: upd_rsc_def rsc_wired_def named_after_def split: if_splits)
qed

lemma ref_params_wired: "wired s \<Longrightarrow> okE wired (resource_add_ref_params params r s)"
  unfolding resource_add_ref_params_def ref_param_add_def
  by (intro okE_intros okE_foldE okE_bind_get [where m = "find_pe_parameter _ _ _"] wired_ref_params; simp)

text \<open>The two prefixes that resource names have.\<close>

lemma resource_name_contains:
  assumes "length p = 4"
  shows "length n \<le> ASSEMBLY_NAME_MAX \<longrightarrow>
    strstr (snprintf (ASSEMBLY_NAME_MAX + RESOURCE_NAME_MAX + 6) (p @ n @ q)) n"
  using assms by (auto simp: ASSEMBLY_NAME_MAX_def RESOURCE_NAME_MAX_def intro: strstr_snprintf)

lemma configure_resource_wired:
  assumes "wired s"
  shows "okE wired (configure_resource_create E n ps a s)"
  unfolding configure_resource_create_def
proof (intro okE_intros ref_params_wired, goal_cases)
  case (1 x nm new r s')
  have "length (a_name x) \<le> ASSEMBLY_NAME_MAX \<longrightarrow> strstr nm (a_name x)"
    unfolding 1(2) by (rule resource_name_contains) simp
  from wired_resource_new [OF assms 1(1) this] 1(3,4) show ?case by (metis snd_conv)
qed

lemma resource_create_wired:
  assumes "wired s"
  shows "okE wired (resource_create E n a s)"
  unfolding resource_create_def
proof (intro okE_intros okE_bind [where Q = wired], goal_cases)
  case 1
  then show ?case using assms by (simp add: configure_resource_wired)
next
  case 2
  then show ?case using assms by simp
next
  case (3 ps u x nm ty rc new r s')
  have "length (a_name x) \<le> ASSEMBLY_NAME_MAX \<longrightarrow> strstr nm (a_name x)"
    unfolding 3(4) by (rule resource_name_contains) simp
  from wired_resource_new [OF 3(2,3) this] 3(7,8) show ?case by (metis snd_conv ref_params_wired)
next
  case (4 ps u x nm ty rc new r s')
  have "length (a_name x) \<le> ASSEMBLY_NAME_MAX \<longrightarrow> strstr nm (a_name x)"
    unfolding 4(4) by (rule resource_name_contains) simp
  from wired_resource_new [OF 4(2,3) this] 4(7,8) show ?case by (metis snd_conv)
qed

text \<open>A new node, before it is listed.\<close>

lemma wired_node_new:
  assumes wired: "wired s" and "node_wired (next_asm s) x" and "a_resource_map x = []"
  shows "wired (s\<lparr>asms := (asms s)(next_asm s := Some x), next_asm := Suc (next_asm s), errno := e\<rparr>)"
proof (rule wiredI)
  let ?s = "s\<lparr>asms := (asms s)(next_asm s := Some x), next_asm := Suc (next_asm s), errno := e\<rparr>"
  have fresh: "asms s (next_asm s) = None"
    using wired_node [OF wired, of "next_asm s"] by (cases "asms s (next_asm s)") auto
  show "\<exists>z. asms ?s a = Some z \<and> a_name z = n" if "qb_map_get (assembly_map ?s) n = Some a" for n a
    using that wired_listed [OF wired, of n a] fresh by auto
  show "a < next_asm ?s \<and> node_wired a z" if "asms ?s a = Some z" for a z
    using that wired_node [OF wired, of a z] assms(2) by (auto split: if_splits)
  show "\<exists>y. rscs ?s q = Some y \<and> r_name y = k \<and> r_assembly y = a"
    if "asms ?s a = Some z" "qb_map_get (a_resource_map z) k = Some q" for a z k q
    using that wired_member [OF wired, of a z k q] assms(3) by (auto split: if_splits)
  show "q < next_rsc ?s \<and> rsc_wired q y \<and> (\<exists>z. asms ?s (r_assembly y) = Some z \<and> named_after y z)"
    if "rscs ?s q = Some y" for q y
    using that wired_rsc [OF wired, of q y] fresh by auto
qed

lemma wired_node_listed:
  assumes wired: "wired s" and "asms s a = Some x" and "a_name x = n"
  shows "wired (s\<lparr>assembly_map := qb_map_put n a (assembly_map s)\<rparr>)"
proof (rule wiredI)
  let ?s = "s\<lparr>assembly_map := qb_map_put n a (assembly_map s)\<rparr>"
  show "\<exists>z. asms ?s b = Some z \<and> a_name z = k" if "qb_map_get (assembly_map ?s) k = Some b" for k b
    using that wired_listed [OF wired, of k b] assms(2,3) by (auto split: if_splits)
qed (use wired_node [OF wired] wired_member [OF wired] wired_rsc [OF wired] in auto)

text \<open>Creating a node: the new node, its virtual machine, and its resources.\<close>

lemma assembly_createE:
  fixes s :: "'sw cape"
  assumes "assembly_create E n s = Inr u"
  obtains x name e v where "a_name x = name" and "a_transport x = None" and "a_resource_map x = []"
    and "node_wired (next_asm s) x"
    and "instance_create E (next_asm s) (s\<lparr>asms := (asms s)(next_asm s := Some x), next_asm := Suc (next_asm s), errno := e\<rparr>) = Inr v"
    and "foldE (\<lambda>child_node v. if has_name ''services'' child_node
            then resources_create E (kids child_node) (next_asm s) v else Inr v)
          (kids n) (v\<lparr>assembly_map := qb_map_put name (next_asm s) (assembly_map v)\<rparr>) = Inr u"
proof -
  from assms obtain name uuid where props: "xmlGetProp n ''name'' = Some name" "xmlGetProp n ''uuid'' = Some uuid"
    by (auto simp: assembly_create_def bindE_eq_Inr derefE_eq_Inr)
  let ?ri = "recover_init (sw_lib E) (clock E) (errno s) (xmlGetProp n ''escalation_failures'')
    (xmlGetProp n ''escalation_period'') Node_recover_restart Node_recover_escalate
    (Some Node_state_change_event) calloc_recover"
  define x where "x = \<lparr>a_name = name, a_uuid = uuid, a_address = None, a_instance_id = [],
    a_image_id = [], a_resource_map = [], a_transport = None,
    a_recover = (fst ?ri)\<lparr>rc_instance := Some (next_asm s)\<rparr>\<rparr>"
  have x: "a_name x = name" "a_transport x = None" "a_resource_map x = []" "node_wired (next_asm s) x"
    by (simp_all add: x_def node_wired_def recover_init_wired)
  have "bindE (instance_create E (next_asm s)
      (s\<lparr>asms := (asms s)(next_asm s := Some x), next_asm := Suc (next_asm s), errno := snd ?ri\<rparr>)) (\<lambda>v.
        foldE (\<lambda>child_node v. if has_name ''services'' child_node
            then resources_create E (kids child_node) (next_asm s) v else Inr v)
          (kids n) (v\<lparr>assembly_map := qb_map_put name (next_asm s) (assembly_map v)\<rparr>)) = Inr u"
    using assms by (simp add: assembly_create_def props Let_def case_prod_beta x_def)
  then show ?thesis unfolding bindE_eq_Inr by (elim exE conjE) (rule that [OF x])
qed

lemma assembly_create_wired:
  fixes s :: "'sw cape"
  assumes "wired s"
  shows "okE wired (assembly_create E n s)"
proof (rule okE_I)
  fix u :: "'sw cape" assume "assembly_create E n s = Inr u"
  then show "wired u"
  proof (rule assembly_createE)
    fix x name e and v :: "'sw cape"
    let ?t = "s\<lparr>asms := (asms s)(next_asm s := Some x), next_asm := Suc (next_asm s), errno := e\<rparr>"
    let ?v = "v\<lparr>assembly_map := qb_map_put name (next_asm s) (assembly_map v)\<rparr>"
    assume x: "a_name x = name" "a_resource_map x = []" "node_wired (next_asm s) x"
      and v: "instance_create E (next_asm s) ?t = Inr v"
      and u: "foldE (\<lambda>child_node v. if has_name ''services'' child_node
            then resources_create E (kids child_node) (next_asm s) v else Inr v) (kids n) ?v = Inr u"
    have t: "wired ?t" "asms ?t (next_asm s) = Some x" using wired_node_new [OF assms x(3,2)] by simp_all
    note shape = keeps_D [OF shape.keeps_instance_create v]
    from shape_asms [OF shape t(2)] obtain x' where x': "asms v (next_asm s) = Some x'" "asm_shape x' = asm_shape x"
      by blast
    then have "a_name x' = name" using asm_shape_eq [of x' x] x(1) by simp
    with x'(1) have v': "wired ?v" by (intro wired_node_listed wired_shape [OF shape t(1)])
    have "okE wired (foldE (\<lambda>child_node v. if has_name ''services'' child_node
            then resources_create E (kids child_node) (next_asm s) v else Inr v) (kids n) ?v)"
      unfolding resources_create_def by (intro okE_foldE v' okE_if okE_Inr_I resource_create_wired)
    with u show "wired u" by (simp add: okE_def)
  qed
qed

lemma parse_and_load_wired:
  assumes "wired s"
  shows "okE wired (parse_and_load E xslt config s)"
proof -
  have "wired (s\<lparr>pe_doc := d, application_name := n, application_uuid := u\<rparr>)" for d n u
    by (rule wiredI) (use wired_listed [OF assms] wired_node [OF assms] wired_member [OF assms]
        wired_rsc [OF assms] in auto)
  then show ?thesis
    unfolding parse_and_load_def assemblies_create_def
    by (auto intro!: okE_intros okE_foldE okE_if assembly_create_wired)
qed

section \<open>A concrete configuration\<close>

definition demo_config :: xml where
  "demo_config = Elem 1 ''deployable'' [(''name'', ''app''), (''uuid'', ''u0'')]
     [Elem 2 ''assemblies'' []
        [Elem 3 ''assembly'' [(''name'', ''web''), (''uuid'', ''u1'')]
           [Elem 4 ''services'' []
              [Elem 5 ''service'' [(''name'', ''httpd''), (''type'', ''httpd''), (''class'', ''lsb'')] []]]]]"

definition demo_loaded :: "sw_list cape res" where
  "demo_loaded = parse_and_load demo_env (\<lambda>c. c) demo_config (cape_init False ''crmd'')"

lemmas load_defs = parse_and_load_def assemblies_create_def assembly_create_def resources_create_def
  resource_create_def resource_new_def cape_init_def recover_init_def recover_limit_def
  instance_create_def image_id_get_completion_def instance_create_completion_def

lemma demo_loads:
  "\<exists>s x. demo_loaded = Inr s \<and> jobs s = [My_instance_state_get 0] \<and> asms s 0 = Some x \<and>
     qb_map_get (assembly_map s) ''web'' = Some 0 \<and> ssh_init_rc s = -1"
  by (simp add: demo_loaded_def demo_config_def demo_defs load_defs calloc_recover_def heap_defs ID_MAX_def
      loop_job_add_def c_string_def snprintf_def ASSEMBLY_NAME_MAX_def RESOURCE_NAME_MAX_def qb_map_get_def
      Let_def)

text \<open>The first step polls the cloud, which answers with the address of the node.\<close>

lemma demo_step:
  "\<exists>s s'. demo_loaded = Inr s \<and> cape_step s s' \<and> jobs s' = [Connect_execute 0]"
proof -
  obtain s x where s: "demo_loaded = Inr s" "jobs s = [My_instance_state_get 0]" "asms s 0 = Some x"
    "ssh_init_rc s = -1"
    using demo_loads by blast
  have "\<exists>s'. run_job demo_env (My_instance_state_get 0) (s\<lparr>jobs := []\<rparr>) = Inr s' \<and> jobs s' = [Connect_execute 0]"
    using s(3,4) by (simp add: run_job_def my_instance_state_get_def instance_state_completion_def
        transport_connect_def demo_defs heap_defs loop_job_add_def Let_def)
  then obtain s' where s': "run_job demo_env (My_instance_state_get 0) (s\<lparr>jobs := []\<rparr>) = Inr s'"
    "jobs s' = [Connect_execute 0]" by blast
  then have "cape_step s s'"
    using s(2) by (intro step_job [where j = "My_instance_state_get 0" and E = demo_env]) simp_all
  with s(1) s'(2) show ?thesis by blast
qed

section \<open>Reachable states\<close>

text \<open>
  After any configuration was loaded, in every state the event loop reaches: the two maps only list live
  objects under their own names, a resource listed by a node belongs to it and is named after it, and the
  failure bookkeeping of every node and resource calls back that very object with the callbacks of its
  kind. The event loop changes nothing of the configuration.
\<close>

lemma loaded_wired:
  assumes "parse_and_load E xslt config (cape_init debug uuid) = Inr s" and "cape_reach s s'"
  shows "wired s' \<and> shape s' = shape s"
  using okE_D [OF parse_and_load_wired [OF wired_cape_init] assms(1)] shape.reach_view [OF assms(2)]
    wired_shape by blast

text \<open>
  The policy engine is idle (no graph, no pending job of it) or works on exactly one graph, for which
  exactly one job is pending: transitions never overlap, and a finished graph is released.
\<close>

lemma loaded_pe_inv:
  assumes "parse_and_load E xslt config (cape_init debug uuid) = Inr s" and "cape_reach s s'"
  shows "pe_inv s'"
  using assms(2)
proof (induction rule: rtranclp_induct)
  case base
  have "pe_inv (cape_init debug uuid)" by (simp add: pe_inv_def cape_init_def next_jobs_def)
  then show ?case using pe_inv_cong [OF keeps_D [OF pe.keeps_parse_and_load assms(1)]] by blast
next
  case (step t u)
  then show ?case using step_pe_inv by blast
qed

end
