(* ===== verification/Cape_Admin.thy ===== *)
theory Cape_Admin
  imports Cape_State
begin

text \<open>
  \<^verbatim>\<open>src/src/capeadmin.c\<close>: the events of the engine as documents, and the local socket to the cloud
  policy engine that they are written to. The answers of the operating system (\<^verbatim>\<open>socket\<close>, \<^verbatim>\<open>fcntl\<close>,
  \<^verbatim>\<open>connect\<close>, and the successive results of \<^verbatim>\<open>send\<close>) and the serialisation of libxml2 (\<open>dump\<close>) are
  arguments. The loop of \<open>event_spammer\<close> consumes one answer per call of \<^verbatim>\<open>send\<close>; where the answers run
  out the loop is still running.
\<close>

section \<open>Documents\<close>

definition xelement :: "string \<Rightarrow> string \<Rightarrow> xml" where
  "xelement tag name = xmlNewProp ''name'' name (xmlNewNode tag None)"

text \<open>
  The document of an event: the application, below it the node if there is one, below that the
  resource if there is one; the innermost of these elements (\<open>level\<close>) carries the state and the
  reason.
\<close>

definition event_doc ::
  "string \<Rightarrow> string option \<Rightarrow> string option \<Rightarrow> string option \<Rightarrow> string \<Rightarrow> xml" where
  "event_doc app a r state reason =
     (let level = (\<lambda>x. xmlAddChild (xmlNewNode ''reason'' (Some reason))
                         (xmlAddChild (xmlNewNode ''state'' state) x));
          xapp = (case a of
             None \<Rightarrow> level (xelement ''application'' app)
           | Some node \<Rightarrow>
               (let xnode = (case r of
                    None \<Rightarrow> level (xelement ''node'' node)
                  | Some rsc \<Rightarrow> xmlAddChild (level (xelement ''resource'' rsc)) (xelement ''node'' node))
                in xmlAddChild xnode (xelement ''application'' app)))
      in xmlAddChild xapp (xmlNewNode ''event'' None))"

section \<open>The socket\<close>

record admin =
  sockfd :: int
  closed_fds :: "int list"
  wire :: string

record os_answers =
  os_socket :: int
  os_setfd :: int
  os_setfl :: int
  os_connect :: "string \<Rightarrow> int"
  os_errno :: int

datatype send_end = Sent | Send_error | Still_sending

text \<open>
  The loop behind \<open>retry_send\<close>: each round passes the whole buffer to \<^verbatim>\<open>send\<close> again, and the loop ends
  when the counts add up to the length of the buffer. The first component is what went out.
\<close>

fun retry_send :: "string \<Rightarrow> int list \<Rightarrow> int \<Rightarrow> string \<times> send_end" where
  "retry_send data [] processed = ([], Still_sending)"
| "retry_send data (rc # answers) processed =
     (if rc = -1 then ([], Send_error)
      else if processed + rc = int (length data) then (take (nat rc) data, Sent)
      else (let (out, how) = retry_send data answers (processed + rc)
            in (take (nat rc) data @ out, how)))"

definition event_spammer :: "string \<Rightarrow> int list \<Rightarrow> admin \<Rightarrow> admin \<times> send_end" where
  "event_spammer data answers adm =
     (if sockfd adm < 0 then (adm, Sent)
      else (let (out, how) = retry_send data answers 0 in (adm\<lparr>wire := wire adm @ out\<rparr>, how)))"

definition cape_admin_event_send ::
  "(xml \<Rightarrow> string) \<Rightarrow> int list \<Rightarrow> string \<Rightarrow> string option \<Rightarrow> string option \<Rightarrow> string option \<Rightarrow> string \<Rightarrow>
   admin \<Rightarrow> admin \<times> send_end" where
  "cape_admin_event_send dump answers app a r state reason adm =
     event_spammer (dump (event_doc app a r state reason)) answers adm"

definition fd_nonblock_cloexec_set :: "os_answers \<Rightarrow> int" where
  "fd_nonblock_cloexec_set os =
     (if os_setfd os = -1 then - os_errno os
      else if os_setfl os = -1 then - os_errno os
      else os_setfl os)"

definition UNIX_PATH_MAX :: nat where "UNIX_PATH_MAX = 108"

definition unix_sock_connect :: "os_answers \<Rightarrow> string \<Rightarrow> admin \<Rightarrow> int \<times> admin" where
  "unix_sock_connect os socket_name adm =
     (let request_fd = os_socket os;
          error_connect = (\<lambda>res. (res, adm\<lparr>closed_fds := closed_fds adm @ [request_fd], sockfd := -1\<rparr>)) in
      if request_fd = -1 then (- os_errno os, adm)
      else if fd_nonblock_cloexec_set os < 0 then error_connect (fd_nonblock_cloexec_set os)
      else if os_connect os (snprintf (UNIX_PATH_MAX - 1) socket_name) = -1 then error_connect (- os_errno os)
      else (0, adm\<lparr>sockfd := request_fd\<rparr>))"

definition cape_admin_init :: "os_answers \<Rightarrow> admin \<Rightarrow> int \<times> admin" where
  "cape_admin_init os adm = unix_sock_connect os ''pacemaker-cloud-cped'' adm"

definition cape_admin_fini :: "admin \<Rightarrow> admin" where
  "cape_admin_fini adm = adm\<lparr>closed_fds := closed_fds adm @ [sockfd adm]\<rparr>"

text \<open>The static variable before the first call.\<close>

definition admin_start :: admin where
  "admin_start = \<lparr>sockfd = -1, closed_fds = [], wire = []\<rparr>"

section \<open>Reading an event back\<close>

text \<open>What a receiver of the document reads: the names on the way down, and the state and reason.\<close>

fun text_of :: "xml list \<Rightarrow> string option" where
  "text_of [Text t] = Some t"
| "text_of _ = None"

definition child_named :: "string \<Rightarrow> xml \<Rightarrow> xml option" where
  "child_named n x = List.find (has_name n) (kids x)"

definition name_below :: "xml \<Rightarrow> string \<Rightarrow> string option" where
  "name_below x tag = Option.bind (child_named tag x) (\<lambda>c. xmlGetProp c ''name'')"

definition state_and_reason :: "xml \<Rightarrow> (string option \<times> string option) option" where
  "state_and_reason x =
     (case (child_named ''state'' x, child_named ''reason'' x) of
        (Some st, Some re) \<Rightarrow> Some (text_of (kids st), text_of (kids re))
      | _ \<Rightarrow> None)"

text \<open>The innermost of the elements application, node and resource below a document.\<close>

definition read_event ::
  "xml \<Rightarrow> string option \<times> string option \<times> string option \<times> (string option \<times> string option) option" where
  "read_event doc =
     (let xapp = child_named ''application'' doc;
          xnode = Option.bind xapp (child_named ''node'');
          xrsc = Option.bind xnode (child_named ''resource'');
          level = (case xrsc of Some x \<Rightarrow> Some x | None \<Rightarrow> (case xnode of Some x \<Rightarrow> Some x | None \<Rightarrow> xapp))
      in (name_below doc ''application'', Option.bind xapp (\<lambda>x. name_below x ''node''),
          Option.bind xnode (\<lambda>x. name_below x ''resource''), Option.bind level state_and_reason))"

lemmas doc_defs = event_doc_def xelement_def xmlNewNode_def child_named_def name_below_def
  state_and_reason_def read_event_def Let_def

text \<open>
  A receiver reads back from the document of an event what was sent: the application, the node, the
  resource, the state (absent where the table of names holds NULL) and the reason. A resource without a
  node does not appear.
\<close>

lemma event_doc_roundtrip:
  "read_event (event_doc app a r state reason) =
     (Some app, a, (if a = None then None else r), Some (state, Some reason))"
  by (cases a; cases r; cases state; simp add: doc_defs)

section \<open>The writer\<close>

lemma retry_send_bytes:
  assumes "retry_send data answers p = (out, how)" and "\<forall>n \<in> set answers. -1 \<le> n \<and> n \<le> int (length data)"
  shows "\<exists>ns. out = concat (map (\<lambda>n. take n data) ns) \<and> (\<forall>n \<in> set ns. n \<le> length data) \<and>
     (how = Sent \<longrightarrow> p + int (sum_list ns) = int (length data))"
  using assms
proof (induction data answers p arbitrary: out how rule: retry_send.induct)
  case (1 data p)
  then show ?case by (auto intro: exI [of _ "[]"])
next
  case (2 data rc answers p)
  show ?case
  proof (cases "rc = -1 \<or> p + rc = int (length data)")
    case True
    with 2(2,3) show ?thesis
      by (cases "rc = -1") (auto intro: exI [of _ "[]"] exI [of _ "[nat rc]"])
  next
    case False
    with 2(2) obtain out' where out': "retry_send data answers (p + rc) = (out', how)"
      and out: "out = take (nat rc) data @ out'"
      by (auto split: prod.splits)
    with 2(1) [OF _ _ out'] False 2(3) obtain ns where
      "out' = concat (map (\<lambda>n. take n data) ns)" "\<forall>n \<in> set ns. n \<le> length data"
      "how = Sent \<longrightarrow> p + rc + int (sum_list ns) = int (length data)"
      by auto
    with out False 2(3) show ?thesis by (intro exI [of _ "nat rc # ns"]) auto
  qed
qed

lemma length_prefixes: "\<forall>n \<in> set ns. n \<le> length data \<Longrightarrow>
  length (concat (map (\<lambda>n. take n data) ns)) = sum_list ns"
  by (induction ns) auto

text \<open>
  Whenever the writer reports that an event is out, exactly as many bytes went out as the document
  has, for all results of send within its range; and they are the document itself when send accepted it
  in one piece, after any number of calls that accepted nothing.
\<close>

lemma admin_send_count:
  assumes "0 \<le> sockfd adm" and "\<forall>n \<in> set answers. -1 \<le> n \<and> n \<le> int (length data)"
    and "event_spammer data answers adm = (adm', Sent)"
  shows "length (wire adm') = length (wire adm) + length data \<and>
     (\<forall>k rest. answers = replicate k 0 @ int (length data) # rest \<longrightarrow> wire adm' = wire adm @ data)"
proof -
  obtain out where out: "retry_send data answers 0 = (out, Sent)" and adm': "adm' = adm\<lparr>wire := wire adm @ out\<rparr>"
    using assms(1,3) by (auto simp: event_spammer_def split: prod.splits)
  obtain ns where ns: "out = concat (map (\<lambda>n. take n data) ns)" "\<forall>n \<in> set ns. n \<le> length data"
    "int (sum_list ns) = int (length data)"
    using retry_send_bytes [OF out assms(2)] by auto
  have "retry_send data (replicate k 0 @ int (length data) # rest) 0 = (data, Sent)" for k rest
    by (induction k) auto
  with out have "answers = replicate k 0 @ int (length data) # rest \<Longrightarrow> out = data" for k rest
    by simp
  with ns adm' show ?thesis by (auto simp: length_prefixes)
qed



section \<open>Opening the socket\<close>

text \<open>
  Opening the socket either succeeds, returns 0 and leaves the new descriptor in place, or returns a
  negative error number, with the descriptor, if there was one, closed exactly once and the socket
  marked as closed; from then on an event is dropped without touching the wire.
\<close>

lemma admin_init_outcome:
  assumes "0 < os_errno os" and "-1 \<le> os_socket os" and "os_setfl os \<in> {-1, 0}"
    and "cape_admin_init os admin_start = (rc, adm)"
  shows "if 0 \<le> os_socket os \<and> os_setfd os \<noteq> -1 \<and> os_setfl os = 0 \<and>
        os_connect os ''pacemaker-cloud-cped'' \<noteq> -1
     then rc = 0 \<and> sockfd adm = os_socket os \<and> closed_fds adm = []
     else rc = - os_errno os \<and> sockfd adm = -1 \<and>
       closed_fds adm = (if os_socket os = -1 then [] else [os_socket os]) \<and>
       (\<forall>dump answers app a r state reason.
          cape_admin_event_send dump answers app a r state reason adm = (adm, Sent))"
proof -
  have "snprintf (UNIX_PATH_MAX - 1) ''pacemaker-cloud-cped'' = ''pacemaker-cloud-cped''"
    by (simp add: snprintf_def UNIX_PATH_MAX_def)
  with assms show ?thesis
    by (auto simp: cape_admin_init_def unix_sock_connect_def fd_nonblock_cloexec_set_def admin_start_def
        cape_admin_event_send_def event_spammer_def split: if_splits)
qed

end
