(* ===== verification/Getopt.thy ===== *)
theory Getopt
  imports Prelude
begin

text \<open>
  \<^verbatim>\<open>getopt\<close> and \<^verbatim>\<open>getopt_long\<close> of the GNU C library in their default mode, in which options and operands may be
  mixed, as far as the main programs use them: a letter takes no argument or requires one, a long option
  stands for a letter. The results are the list of what successive calls return, each with its argument,
  and the operands that are left behind. An unknown option, an ambiguous abbreviation, a missing or an
  unexpected argument is returned as a question mark.
\<close>

section \<open>Letters\<close>

type_synonym opt_result = "char \<times> string option"

text \<open>Whether a letter of the option string takes an argument; \<^verbatim>\<open>None\<close> if the letter is unknown.\<close>

definition short_takes :: "string \<Rightarrow> char \<Rightarrow> bool option" where
  "short_takes optstring ch =
     (if ch = CHR '':'' \<or> ch = CHR '';'' then None
      else case dropWhile (\<lambda>x. x \<noteq> ch) optstring of
        [] \<Rightarrow> None
      | _ # after \<Rightarrow> Some (take 1 after = '':''))"

text \<open>The letters of one argument, with the arguments that follow it.\<close>

fun getopt_shorts :: "string \<Rightarrow> string \<Rightarrow> string list \<Rightarrow> opt_result list \<times> string list" where
  "getopt_shorts optstring [] rest = ([], rest)"
| "getopt_shorts optstring (ch # chs) rest =
     (case short_takes optstring ch of
        None \<Rightarrow> let (opts, rest') = getopt_shorts optstring chs rest in ((CHR ''?'', None) # opts, rest')
      | Some False \<Rightarrow> let (opts, rest') = getopt_shorts optstring chs rest in ((ch, None) # opts, rest')
      | Some True \<Rightarrow>
          if chs \<noteq> [] then ([(ch, Some chs)], rest)
          else (case rest of [] \<Rightarrow> ([(CHR ''?'', None)], []) | a # rest' \<Rightarrow> ([(ch, Some a)], rest')))"

section \<open>Long options\<close>

type_synonym long_option = "string \<times> bool \<times> char"

text \<open>An exact match is preferred; an abbreviation must not be ambiguous.\<close>

definition long_match :: "long_option list \<Rightarrow> string \<Rightarrow> long_option option" where
  "long_match longopts name =
     (case filter (\<lambda>p. fst p = name) longopts of
        p # _ \<Rightarrow> Some p
      | [] \<Rightarrow>
          (case filter (\<lambda>p. take (length name) (fst p) = name) longopts of
             [] \<Rightarrow> None
           | p # ps \<Rightarrow> if list_all (\<lambda>q. snd q = snd p) ps then Some p else None))"

definition getopt_name :: "long_option list \<Rightarrow> string \<Rightarrow> string list \<Rightarrow> opt_result \<times> string list" where
  "getopt_name longopts arg rest =
     (case long_match longopts (takeWhile (\<lambda>ch. ch \<noteq> CHR ''='') arg) of
        None \<Rightarrow> ((CHR ''?'', None), rest)
      | Some (_, has_arg, val) \<Rightarrow>
          (case dropWhile (\<lambda>ch. ch \<noteq> CHR ''='') arg of
             _ # value \<Rightarrow> ((if has_arg then (val, Some value) else (CHR ''?'', None)), rest)
           | [] \<Rightarrow>
               if \<not> has_arg then ((val, None), rest)
               else (case rest of [] \<Rightarrow> ((CHR ''?'', None), []) | a # rest' \<Rightarrow> ((val, Some a), rest'))))"

section \<open>The command line\<close>

lemma shorts_rest: "length (snd (getopt_shorts optstring chs rest)) \<le> length rest"
  by (induction optstring chs rest rule: getopt_shorts.induct)
    (auto simp: Let_def case_prod_beta split: option.splits list.splits bool.splits)

lemma name_rest: "length (snd (getopt_name longopts arg rest)) \<le> length rest"
  by (auto simp: getopt_name_def split: option.splits list.splits)

text \<open>Without a table of long options (\<^verbatim>\<open>getopt\<close>), the second dash of an argument is an unknown letter.\<close>

function getopt_args :: "string \<Rightarrow> long_option list option \<Rightarrow> string list \<Rightarrow> opt_result list \<times> string list" where
  "getopt_args optstring lo [] = ([], [])"
| "getopt_args optstring lo (a # rest) =
     (if a = ''--'' then ([], rest)
      else if take 1 a = ''-'' \<and> a \<noteq> ''-'' then
        if lo \<noteq> None \<and> take 2 a = ''--'' then
          let (opt, rest') = getopt_name (the lo) (drop 2 a) rest;
              (opts, operands) = getopt_args optstring lo rest'
          in (opt # opts, operands)
        else
          let (opts, rest') = getopt_shorts optstring (drop 1 a) rest;
              (opts', operands) = getopt_args optstring lo rest'
          in (opts @ opts', operands)
      else
        let (opts, operands) = getopt_args optstring lo rest in (opts, a # operands))"
  by pat_completeness auto
termination
proof (relation "measure (\<lambda>(_, _, args). length args)", goal_cases)
  case (2 optstring lo a rest x opt rest')
  then have "rest' = snd (getopt_name (the lo) (drop 2 a) rest)" by (metis snd_conv)
  then show ?case using name_rest [of "the lo" "drop 2 a" rest] by simp
next
  case (3 optstring lo a rest x opts rest')
  then have "rest' = snd (getopt_shorts optstring (drop 1 a) rest)" by (metis snd_conv)
  then show ?case using shorts_rest [of optstring "drop 1 a" rest] by simp
qed simp_all

definition getopt :: "string \<Rightarrow> string list \<Rightarrow> opt_result list \<times> string list" where
  "getopt optstring args = getopt_args optstring None args"

definition getopt_long :: "string \<Rightarrow> long_option list \<Rightarrow> string list \<Rightarrow> opt_result list \<times> string list" where
  "getopt_long optstring longopts args = getopt_args optstring (Some longopts) args"

section \<open>Spellings\<close>

text \<open>
  How a user may write an option: as a letter or by its name, with the argument attached or in a word of its
  own. An option that has no name is written as a letter.
\<close>

datatype spelling = Letter | Letter_joined | Name | Name_joined

datatype cmd_item = Option spelling opt_result | Operand string

definition name_of :: "long_option list \<Rightarrow> char \<Rightarrow> string option" where
  "name_of longopts ch = map_option fst (find (\<lambda>p. snd (snd p) = ch) longopts)"

fun spell_letter :: "bool \<Rightarrow> opt_result \<Rightarrow> string list" where
  "spell_letter joined (ch, None) = [[CHR ''-'', ch]]"
| "spell_letter joined (ch, Some a) = (if joined \<and> a \<noteq> [] then [[CHR ''-'', ch] @ a] else [[CHR ''-'', ch], a])"

fun spell_name :: "bool \<Rightarrow> string \<Rightarrow> string option \<Rightarrow> string list" where
  "spell_name joined name None = [''--'' @ name]"
| "spell_name joined name (Some a) = (if joined then [''--'' @ name @ ''='' @ a] else [''--'' @ name, a])"

fun spell :: "long_option list \<Rightarrow> cmd_item \<Rightarrow> string list" where
  "spell longopts (Operand a) = [a]"
| "spell longopts (Option sp opt) =
     (case (if sp = Name \<or> sp = Name_joined then name_of longopts (fst opt) else None) of
        None \<Rightarrow> spell_letter (sp = Letter_joined) opt
      | Some name \<Rightarrow> spell_name (sp = Name_joined) name (snd opt))"

fun item_ok :: "string \<Rightarrow> cmd_item \<Rightarrow> bool" where
  "item_ok optstring (Operand a) \<longleftrightarrow> a = ''-'' \<or> take 1 a \<noteq> ''-''"
| "item_ok optstring (Option sp opt) \<longleftrightarrow> short_takes optstring (fst opt) = Some (snd opt \<noteq> None)"

definition item_opts :: "cmd_item list \<Rightarrow> opt_result list" where
  "item_opts items = concat (map (\<lambda>i. case i of Option sp opt \<Rightarrow> [opt] | Operand a \<Rightarrow> []) items)"

definition item_operands :: "cmd_item list \<Rightarrow> string list" where
  "item_operands items = concat (map (\<lambda>i. case i of Option sp opt \<Rightarrow> [] | Operand a \<Rightarrow> [a]) items)"

section \<open>Reading back what was written\<close>

text \<open>
  What a program's tables must satisfy: a dash is no option, names are distinct and contain no equality sign,
  and a name takes an argument exactly if its letter does.
\<close>

definition table_ok :: "string \<Rightarrow> long_option list \<Rightarrow> bool" where
  "table_ok optstring longopts \<longleftrightarrow> short_takes optstring (CHR ''-'') = None \<and> distinct (map fst longopts) \<and>
     list_all (\<lambda>(name, has_arg, ch). name \<noteq> [] \<and> CHR ''='' \<notin> set name \<and> short_takes optstring ch = Some has_arg) longopts"

locale option_table =
  fixes optstring :: string and longopts :: "long_option list"
  assumes dash: "short_takes optstring (CHR ''-'') = None"
    and names_distinct: "distinct (map fst longopts)"
    and names_ok: "(name, has_arg, ch) \<in> set longopts \<Longrightarrow>
      name \<noteq> [] \<and> CHR ''='' \<notin> set name \<and> short_takes optstring ch = Some has_arg"
begin

lemma match_name:
  assumes "(name, has_arg, ch) \<in> set longopts"
  shows "long_match longopts name = Some (name, has_arg, ch)"
proof -
  have "filter (\<lambda>p. fst p = name) longopts = [(name, has_arg, ch)]"
    using assms names_distinct by (induction longopts) (auto simp: filter_empty_conv image_iff)
  then show ?thesis by (simp add: long_match_def)
qed

lemma name_of_known: "name_of longopts ch = Some name \<Longrightarrow> \<exists>has_arg. (name, has_arg, ch) \<in> set longopts"
  by (auto simp: name_of_def find_Some_iff) (metis nth_mem prod.collapse snd_conv fst_conv)

lemma read_name:
  assumes "(name, a \<noteq> None, ch) \<in> set longopts"
  shows "getopt_args optstring (Some longopts) (spell_name joined name a @ rest) =
    (let (opts, operands) = getopt_args optstring (Some longopts) rest in ((ch, a) # opts, operands))"
proof -
  have ne: "name \<noteq> []" and eq: "CHR ''='' \<notin> set name" using names_ok [OF assms] by auto
  note match = match_name [OF assms]
  have word: "getopt_name longopts (name @ v) r = (case v of _ # value \<Rightarrow> ((if a \<noteq> None then (ch, Some value) else (CHR ''?'', None)), r)
      | [] \<Rightarrow> if a = None then ((ch, None), r)
              else (case r of [] \<Rightarrow> ((CHR ''?'', None), []) | w # r' \<Rightarrow> ((ch, Some w), r')))"
    if "v = [] \<or> take 1 v = ''=''" for v r
  proof -
    have "takeWhile (\<lambda>ch. ch \<noteq> CHR ''='') v = []" "dropWhile (\<lambda>ch. ch \<noteq> CHR ''='') v = v" using that by (cases v; simp)+
    with eq have "takeWhile (\<lambda>ch. ch \<noteq> CHR ''='') (name @ v) = name" "dropWhile (\<lambda>ch. ch \<noteq> CHR ''='') (name @ v) = v"
      by (auto simp: takeWhile_append dropWhile_append)
    then show ?thesis by (simp only: getopt_name_def match option.case prod.case not_not)
  qed
  show ?thesis
  proof (cases a)
    case None
    with ne word [of "[]" rest] show ?thesis by simp
  next
    case (Some v)
    with ne word [of "[]" "v # rest"] word [of "CHR ''='' # v" rest] show ?thesis by simp
  qed
qed

lemma read_letter:
  assumes "short_takes optstring (fst opt) = Some (snd opt \<noteq> None)"
  shows "getopt_args optstring (Some longopts) (spell_letter joined opt @ rest) =
    (let (opts, operands) = getopt_args optstring (Some longopts) rest in (opt # opts, operands))"
proof -
  have "fst opt \<noteq> CHR ''-''" using assms dash by auto
  with assms show ?thesis by (cases "(joined, opt)" rule: spell_letter.cases) simp_all
qed

lemma read_item:
  assumes "item_ok optstring item"
  shows "getopt_args optstring (Some longopts) (spell longopts item @ rest) =
    (let (opts, operands) = getopt_args optstring (Some longopts) rest
     in (item_opts [item] @ opts, item_operands [item] @ operands))"
proof (cases item)
  case (Operand a)
  with assms show ?thesis by (auto simp: item_opts_def item_operands_def Let_def case_prod_beta)
next
  case (Option sp opt)
  have opt: "short_takes optstring (fst opt) = Some (snd opt \<noteq> None)" using assms Option by simp
  show ?thesis
  proof (cases "if sp = Name \<or> sp = Name_joined then name_of longopts (fst opt) else None")
    case None
    with Option read_letter [OF opt] show ?thesis by (simp add: item_opts_def item_operands_def)
  next
    case (Some name)
    then have "name_of longopts (fst opt) = Some name" by (simp split: if_splits)
    then obtain has_arg where mem: "(name, has_arg, fst opt) \<in> set longopts" using name_of_known by blast
    with names_ok [OF mem] opt have "(name, snd opt \<noteq> None, fst opt) \<in> set longopts" by simp
    from read_name [OF this] Some Option show ?thesis by (simp add: item_opts_def item_operands_def)
  qed
qed

theorem read_back:
  assumes "list_all (item_ok optstring) items"
  shows "getopt_long optstring longopts (concat (map (spell longopts) items)) = (item_opts items, item_operands items)"
  using assms unfolding getopt_long_def
proof (induction items)
  case Nil
  show ?case by (simp add: item_opts_def item_operands_def)
next
  case (Cons item items)
  then show ?case using read_item [of item "concat (map (spell longopts) items)"]
    by (simp add: item_opts_def item_operands_def)
qed

end

lemma table_ok_table: "table_ok optstring longopts \<Longrightarrow> option_table optstring longopts"
  by (rule option_table.intro) (auto simp: table_ok_def list_all_iff)

end
