(* ===== verification/Caped.thy ===== *)
theory Caped
  imports Cape_Wiring Cape_Admin Getopt
begin

text \<open>
  \<^verbatim>\<open>src/src/caped.c\<close>: the main program of the engine, its options, its signal handler and the mapping of log
  levels; and the log set-up of \<^verbatim>\<open>pcmk_pe.c\<close>. The command line is the list of
  arguments after the program's name; \<^verbatim>\<open>exit\<close> is the left value of a sum.
\<close>

section \<open>Options\<close>

record caped_opts =
  co_stdout :: bool
  co_daemonize :: bool
  co_debug :: int
  co_loglevel :: int

definition caped_opts_init :: caped_opts where
  "caped_opts_init = \<lparr>co_stdout = False, co_daemonize = False, co_debug = 0, co_loglevel = 6\<rparr>"

definition caped_option :: "char \<Rightarrow> caped_opts \<Rightarrow> int + caped_opts" where
  "caped_option opt c =
     (if opt = CHR ''d'' then Inr (c\<lparr>co_daemonize := True\<rparr>)
      else if opt = CHR ''o'' then Inr (c\<lparr>co_stdout := True\<rparr>)
      else if opt = CHR ''v'' then Inr (c\<lparr>co_loglevel := co_loglevel c + 1\<rparr>)
      else if opt = CHR ''g'' then Inr (c\<lparr>co_debug := co_debug c + 1\<rparr>)
      else Inl 0)"

fun caped_options :: "char list \<Rightarrow> caped_opts \<Rightarrow> int + caped_opts" where
  "caped_options [] c = Inr c"
| "caped_options (opt # opts) c =
     (case caped_option opt c of Inl code \<Rightarrow> Inl code | Inr c' \<Rightarrow> caped_options opts c')"

text \<open>The usage text does not list \<^verbatim>\<open>-d\<close>, which is accepted.\<close>

definition show_usage :: "string \<Rightarrow> string list" where
  "show_usage name =
     [''usage: '', name @ '' <options> [cloud app name]'', [], ''  options:'', [], ''  -v             verbose'',
      ''  -g             debug'', ''  -o             log to stdout'', ''  -h             show this help text'', []]"

section \<open>Main\<close>

text \<open>
  The program up to its event loop: it exits, or the loop starts in the state that the loaded
  configuration gives. A failure to reach the administration socket is ignored.
\<close>

definition caped_main ::
  "'sw env \<Rightarrow> os_answers \<Rightarrow> (xml \<Rightarrow> xml) \<Rightarrow> (string \<Rightarrow> int + xml option) \<Rightarrow> string \<Rightarrow> string list \<Rightarrow>
   (int + 'sw cape \<times> admin) res" where
  "caped_main E os xslt fs uuid args =
     (case caped_options (map fst (fst (getopt ''vhodg'' args))) caped_opts_init of
        Inl code \<Rightarrow> Inr (Inl code)
      | Inr c \<Rightarrow>
          (case snd (getopt ''vhodg'' args) of
             [] \<Rightarrow> Inr (Inl 1)
           | cloud_app # _ \<Rightarrow>
               let s = cape_init (co_debug c \<noteq> 0) uuid;
                   adm = snd (cape_admin_init os admin_start)
               in bindE (cape_load E xslt fs cloud_app s) (\<lambda>(rc, s).
                  if rc \<noteq> 0 then Inr (Inl 1) else Inr (Inr (s, adm)))))"

text \<open>The end of the program, once the loop was stopped by the signal.\<close>

definition signal_int :: "'sw env \<Rightarrow> 'sw cape \<Rightarrow> 'sw cape res" where
  "signal_int E s = cape_exit E s"

section \<open>Log levels\<close>

unbundle bit_operations_syntax

text \<open>
  The flags of glib: \<^verbatim>\<open>RECURSION\<close> and \<^verbatim>\<open>FATAL\<close> are bits 0 and 1 and not part of the level mask, \<^verbatim>\<open>ERROR\<close>,
  \<^verbatim>\<open>CRITICAL\<close>, \<^verbatim>\<open>WARNING\<close>, \<^verbatim>\<open>MESSAGE\<close>, \<^verbatim>\<open>INFO\<close> and \<^verbatim>\<open>DEBUG\<close> the bits after them.
\<close>

definition my_glib_handler :: "u32 \<Rightarrow> nat" where
  "my_glib_handler flags =
     (let msg_level = flags AND NOT 3 in
      if msg_level = 8 \<or> msg_level = 2 then 2
      else if msg_level = 4 then 3
      else if msg_level = 32 then 5
      else if msg_level = 64 then 6
      else if msg_level = 128 then 7
      else 4)"

definition my_tags_stringify :: "u32 \<Rightarrow> string" where
  "my_tags_stringify tags =
     (if bit tags 31 then ''QB   ''
      else if tags = 1 then ''QPID ''
      else if tags = 2 then ''GLIB ''
      else if tags = 3 then ''PCMK ''
      else ''MAIN '')"

text \<open>A fatal message is logged with the level of its kind, never as critical because it is fatal.\<close>

lemma glib_fatal_ignored: "my_glib_handler (flags OR 2) = my_glib_handler flags"
proof -
  have "(flags OR 2) AND NOT 3 = flags AND NOT 3" by (rule bit_eqI) (auto simp: bit_simps)
  then show ?thesis by (simp add: my_glib_handler_def)
qed

text \<open>
  The version of Pacemaker, as \<^verbatim>\<open>sscanf\<close> took it apart, decides where its messages go.
\<close>

definition pacemaker_uses_qb_logging :: "(int \<times> int \<times> int) option \<Rightarrow> bool" where
  "pacemaker_uses_qb_logging version =
     (case version of
        None \<Rightarrow> False
      | Some (major, mid, minor) \<Rightarrow> \<not> (major \<le> 1 \<and> mid \<le> 1 \<and> minor \<le> 6))"

definition pe_log_files :: "string list" where
  "pe_log_files = [''pengine.c'', ''allocate.c'', ''utils.c'', ''unpack.c'', ''constraints.c'', ''native.c'', ''group.c'',
     ''clone.c'', ''master.c'', ''graph.c'']"

definition pe_log_init :: "(int \<times> int \<times> int) option \<Rightarrow> int \<Rightarrow> int \<Rightarrow> int + (int \<times> string \<times> int) list" where
  "pe_log_init version log_tag loglevel =
     (if \<not> pacemaker_uses_qb_logging version then Inl loglevel
      else Inr (map (\<lambda>f. (log_tag, f, loglevel)) pe_log_files))"

text \<open>The three numbers are compared one by one: 1.0.12, which is older than 1.1.7, counts as newer.\<close>

lemma version_not_lexicographic:
  "pacemaker_uses_qb_logging (Some (1, 0, 12)) \<and> pacemaker_uses_qb_logging (Some (1, 1, 7)) \<and>
   \<not> pacemaker_uses_qb_logging (Some (1, 1, 6))"
  by (simp add: pacemaker_uses_qb_logging_def)

section \<open>The running program\<close>

lemma caped_main_loads:
  assumes "caped_main E os xslt fs uuid args = Inr (Inr (s, adm))"
    and errno: "\<And>p e. fs p = Inl e \<Longrightarrow> 0 < e"
  shows "\<exists>config debug. parse_and_load E xslt config (cape_init debug uuid) = Inr s"
  using assms(1)
  by (auto simp: caped_main_def cape_load_def bindE_eq_Inr Let_def split: sum.splits list.splits if_splits dest: errno)

lemma caped_main_admin:
  assumes "caped_main E os xslt fs uuid args = Inr (Inr (s, adm))"
  shows "adm = snd (cape_admin_init os admin_start)"
  using assms by (auto simp: caped_main_def bindE_eq_Inr Let_def split: sum.splits list.splits if_splits)

end
