(* ===== verification/Ssh_Quiet.thy ===== *)
theory Ssh_Quiet
  imports Cape_Wiring
begin

text \<open>
  The handlers that leave the transports alone. \<open>quiet s s'\<close>: from \<open>s\<close> to \<open>s'\<close> no transport, no queued
  command and no pending job of a transport changed, nor which transport a node has; of the timers of the
  transports some may have been deleted, and none was added. Most of \<^verbatim>\<open>cape.c\<close> is quiet.
\<close>

section \<open>Jobs and timers of the transports\<close>

fun transport_job :: "job \<Rightarrow> bool" where
  "transport_job Process_job = False"
| "transport_job (Process_next_job g) = False"
| "transport_job _ = True"

fun transport_timer :: "timer_fn \<Rightarrow> bool" where
  "transport_timer (Resource_monitor_execute p) = False"
| "transport_timer _ = True"

definition tjobs :: "'sw cape \<Rightarrow> job list" where
  "tjobs s = filter transport_job (jobs s)"

definition ttimers :: "'sw cape \<Rightarrow> timer list" where
  "ttimers s = filter (\<lambda>tm. transport_timer (tm_fn tm)) (timers s)"

text \<open>The transport of a node.\<close>

definition tp :: "'sw cape \<Rightarrow> asm_ptr \<Rightarrow> trans_ptr option" where
  "tp s a = Option.bind (asms s a) a_transport"

definition quiet :: "'sw cape \<Rightarrow> 'sw cape \<Rightarrow> bool" where
  "quiet s s' \<longleftrightarrow> transs s' = transs s \<and> sshops s' = sshops s \<and> next_trans s' = next_trans s \<and>
     next_sshop s' = next_sshop s \<and> tp s' = tp s \<and> tjobs s' = tjobs s \<and>
     (\<exists>P. ttimers s' = filter P (ttimers s)) \<and> next_handle s \<le> next_handle s' \<and> shape s' = shape s"

lemma quiet_refl [simp]: "quiet s s"
  by (auto simp: quiet_def intro: exI [of _ "\<lambda>_. True"])

lemma quiet_trans:
  assumes "quiet r s" and "quiet s u"
  shows "quiet r u"
proof -
  from assms obtain P Q where "ttimers s = filter P (ttimers r)" "ttimers u = filter Q (ttimers s)"
    unfolding quiet_def by blast
  then have "ttimers u = filter (\<lambda>x. P x \<and> Q x) (ttimers r)" by (simp add: filter_filter)
  with assms show ?thesis unfolding quiet_def by auto
qed

lemma quietI:
  assumes "quiet r s" and "transs u = transs s" and "sshops u = sshops s" and "next_trans u = next_trans s"
    and "next_sshop u = next_sshop s" and "tp u = tp s" and "tjobs u = tjobs s"
    and "\<exists>P. ttimers u = filter P (ttimers s)" and "next_handle s \<le> next_handle u" and "shape u = shape s"
  shows "quiet r u"
  by (rule quiet_trans [OF assms(1)]) (use assms(2-) in \<open>simp add: quiet_def\<close>)

lemma quiet_same:
  assumes "quiet r s" and "transs u = transs s" and "sshops u = sshops s" and "next_trans u = next_trans s"
    and "next_sshop u = next_sshop s" and "tp u = tp s" and "tjobs u = tjobs s"
    and "ttimers u = ttimers s" and "next_handle s \<le> next_handle u" and "shape u = shape s"
  shows "quiet r u"
  by (rule quietI [OF assms(1-7) _ assms(9,10)]) (auto simp: assms(8) intro: exI [of _ "\<lambda>_. True"])

text \<open>The writes that are quiet.\<close>

lemma quiet_writes [simp]:
  assumes "quiet r s"
  shows "quiet r (s\<lparr>ops := x1\<rparr>)" "quiet r (s\<lparr>op_history_map := x2\<rparr>)" "quiet r (s\<lparr>events := x3\<rparr>)"
    "quiet r (s\<lparr>pe_doc := x4\<rparr>)" "quiet r (s\<lparr>graph_updated := x5\<rparr>)" "quiet r (s\<lparr>call_order := x6\<rparr>)"
    "quiet r (s\<lparr>working_set := x7\<rparr>)" "quiet r (s\<lparr>graphs := x8\<rparr>)" "quiet r (s\<lparr>next_graph := x9\<rparr>)"
    "quiet r (s\<lparr>transition_count := x10\<rparr>)" "quiet r (s\<lparr>next_op := x11\<rparr>)"
  by (rule quiet_same [OF assms]; simp add: tp_def fun_eq_iff tjobs_def ttimers_def)+

lemma quiet_timer_del [simp]: "quiet r s \<Longrightarrow> quiet r (loop_timer_del h s)"
  by (erule quietI) (auto simp: tp_def fun_eq_iff tjobs_def ttimers_def loop_timer_del_def filter_filter conj_commute
      intro: exI [of _ "\<lambda>tm. tm_handle tm \<noteq> h"])

lemma quiet_job_add [simp]: "quiet r s \<Longrightarrow> \<not> transport_job j \<Longrightarrow> quiet r (loop_job_add j s)"
  by (erule quiet_same) (simp_all add: tp_def fun_eq_iff tjobs_def ttimers_def loop_job_add_def)

lemma quiet_timer_add:
  "quiet r s \<Longrightarrow> \<not> transport_timer f \<Longrightarrow> (h, s') = loop_timer_add f n s \<Longrightarrow> quiet r s'"
  by (erule quiet_same) (auto simp: tp_def fun_eq_iff tjobs_def ttimers_def loop_timer_add_def Let_def)

lemma quiet_upd_asm:
  assumes "quiet r s" and "\<And>x. a_transport (f x) = a_transport x" and "shape (upd_asm a f s) = shape s"
  shows "quiet r (upd_asm a f s)"
  by (rule quiet_same [OF assms(1)])
    (use assms(2,3) in \<open>auto simp: tp_def fun_eq_iff tjobs_def ttimers_def upd_asm_def split: Option.bind_splits\<close>)

lemma quiet_upd_rsc:
  assumes "quiet r s" and "shape (upd_rsc q f s) = shape s"
  shows "quiet r (upd_rsc q f s)"
  by (rule quiet_same [OF assms(1)])
    (use assms(2) in \<open>auto simp: tp_def fun_eq_iff tjobs_def ttimers_def upd_rsc_def\<close>)

lemma quiet_objects [simp]:
  assumes "quiet r s"
  shows "quiet r (upd_asm a (\<lambda>x. x\<lparr>a_image_id := i\<rparr>) s)" "quiet r (upd_asm a (\<lambda>x. x\<lparr>a_instance_id := i\<rparr>) s)"
    "quiet r (upd_asm a (\<lambda>x. x\<lparr>a_address := z\<rparr>) s)"
    "quiet r (node_upd a (\<lambda>x. x\<lparr>rc_state := st\<rparr>) s)" "quiet r (node_upd a (\<lambda>x. x\<lparr>rc_sw := w\<rparr>) s)"
    "quiet r (rsc_upd q (\<lambda>x. x\<lparr>rc_state := st\<rparr>) s)" "quiet r (rsc_upd q (\<lambda>x. x\<lparr>rc_sw := w\<rparr>) s)"
    "quiet r (upd_rsc q (\<lambda>x. x\<lparr>r_monitor_op := m\<rparr>) s)" "quiet r (upd_rsc q (\<lambda>x. x\<lparr>r_monitor_timer := h\<rparr>) s)"
    "quiet r (upd_op p g s)" "quiet r (upd_graph gp k s)" "quiet r (event_send ev s)" "quiet r (schedule_processing s)"
  using assms
  by (auto simp: upd_op_def upd_graph_def event_send_def schedule_processing_def node_upd_def rsc_upd_def
      shape.v_node_state [unfolded node_upd_def] shape.v_node_sw [unfolded node_upd_def]
      shape.v_rsc_state [unfolded rsc_upd_def] shape.v_rsc_sw [unfolded rsc_upd_def]
      intro!: quiet_upd_asm quiet_upd_rsc)

section \<open>Quiet handlers\<close>

text \<open>Handlers of a wired state; wiring is a matter of the shape, which every quiet handler keeps.\<close>

definition quietly :: "('sw cape \<Rightarrow> 'sw cape res) \<Rightarrow> bool" where
  "quietly f \<longleftrightarrow> (\<forall>r s. wired r \<longrightarrow> quiet r s \<longrightarrow> okE (quiet r) (f s))"

lemma quietly_I: "(\<And>r s. wired r \<Longrightarrow> quiet r s \<Longrightarrow> wired s \<Longrightarrow> okE (quiet r) (f s)) \<Longrightarrow> quietly f"
  unfolding quietly_def by (metis quiet_def wired_shape)

lemma quietly_okE: "quietly f \<Longrightarrow> wired r \<Longrightarrow> quiet r s \<Longrightarrow> okE (quiet r) (f s)"
  unfolding quietly_def by blast

lemma quiet_bind:
  "okE (quiet r) m \<Longrightarrow> (\<And>u. quiet r u \<Longrightarrow> okE (quiet r) (f u)) \<Longrightarrow> okE (quiet r) (bindE m f)"
  by (rule okE_bind)

lemma quietly_foldE: "(\<And>x. x \<in> set xs \<Longrightarrow> quietly (f x)) \<Longrightarrow> quietly (foldE f xs)"
  by (auto simp: quietly_def intro!: okE_foldE)

lemma quiet_wired: "wired r \<Longrightarrow> quiet r s \<Longrightarrow> wired s"
  by (auto simp: quiet_def intro: wired_shape)

lemma quiet_ref: "quietly (pe_resource_ref p)"
  unfolding pe_resource_ref_def by (rule quietly_I) (intro okE_intros; simp)

lemma quiet_unref: "quietly (pe_resource_unref p)"
  unfolding pe_resource_unref_def by (rule quietly_I) (intro okE_intros; simp)

lemma quiet_digest_free: "quietly (digest_free d)"
  unfolding digest_free_def by (rule quietly_I) (cases d; simp; intro okE_intros okE_bind_get; simp)

lemma quiet_monitor_stop: "quietly (recurring_monitor_stop p)"
  unfolding recurring_monitor_stop_def
  by (rule quietly_I) (intro okE_intros quiet_bind quietly_okE [OF quiet_unref]; simp)

lemma quiet_history_drop: "quietly (history_drop r key oh)"
  unfolding history_drop_def
  by (rule quietly_I) (intro okE_intros quiet_bind quietly_okE [OF quiet_monitor_stop] quietly_okE [OF quiet_digest_free]; simp)

lemma quiet_history_clear: "quietly (node_op_history_clear E a)"
  unfolding node_op_history_clear_def history_clear_one_def
  by (rule quietly_I) (intro quietly_okE [OF quietly_foldE] quietly_I okE_intros quietly_okE [OF quiet_history_drop]; simp)

lemma quiet_addr_info: "quietly (node_update_addr_info E a)"
  unfolding node_update_addr_info_def by (rule quietly_I) (intro okE_intros okE_bind_get; simp)

lemma quiet_instance_destroy: "quietly (instance_destroy E a)"
  unfolding instance_destroy_def instance_destroy_completion_def
  by (rule quietly_I) (intro okE_intros quiet_bind; simp)

lemma quiet_changing: "quietly (cape_changing E f i from to)"
  unfolding cape_changing_def resource_state_change_event_def node_state_change_event_def
  by (rule quietly_I) (cases f; simp; intro okE_intros quiet_bind quietly_okE [OF quiet_addr_info]; simp)

lemma quiet_completed: "quietly (pe_resource_completed E p rc)"
  unfolding pe_resource_completed_def graph_confirm_def by (rule quietly_I) (intro okE_intros; simp)

lemma quiet_history_entry:
  assumes "wired r" and "quiet r s"
  shows "okE (\<lambda>(oh, u). quiet r u) (history_entry q p op key s)"
  unfolding history_entry_def
  by (intro okE_intros okE_bind_get [where m = "digest_read _ _"]
      okE_bind [where Q = "quiet r"] quietly_okE [OF quiet_digest_free]; simp add: assms)

lemma quiet_history_save: "quietly (op_history_save E q p ec)"
  unfolding op_history_save_def
proof (intro quietly_I okE_heap_get okE_let, goal_cases)
  case (1 r s op key)
  show ?case by (rule okE_bind [OF quiet_history_entry [OF 1(1,2)]]) (auto simp: Let_def)
qed

lemma quiet_monitor_rearm: "quietly (monitor_rearm q p n)"
  unfolding monitor_rearm_def
  by (rule quietly_I) (intro okE_intros; auto dest: quiet_timer_add [where f = "Resource_monitor_execute p"])

text \<open>The recovery of a resource runs the callbacks of a resource.\<close>

lemma quiet_rsc_state_set: "quietly (rsc_state_set E q st)"
proof (rule quietly_I)
  fix r s :: "'a cape" assume r: "wired r" "quiet r s" "wired s"
  have call: "okE (quiet r) (cape_call E f i u)"
    if "f \<in> {Resource_recover_restart, Resource_recover_escalate}" "quiet r u" for f i u
    using that r(1) unfolding cape_call_def resource_recover_restart_def resource_recover_escalate_def
    by (auto intro!: okE_intros quietly_okE [OF quiet_instance_destroy])
  have wired_rd: "restart x = Resource_recover_restart \<and> escalate x = Resource_recover_escalate"
    if "rsc_rd q u = Inr x" "quiet r u" for u x
    using that wired_rsc [OF quiet_wired [OF r(1) that(2)], of q]
    by (auto simp: rsc_rd_def rsc_get_def bindE_eq_Inr derefE_eq_Inr rsc_wired_def rc_wired_def)
  show "okE (quiet r) (rsc_state_set E q st s)"
    unfolding rsc_state_set_def recover_state_set_def recover_failed_def
    by (intro okE_intros okE_bind_get [where m = "rsc_rd _ _"] quiet_bind quietly_okE [OF quiet_changing] call;
        simp add: r; auto dest: wired_rd)
qed

lemma quiet_node_state_set:
  assumes "st \<noteq> RECOVER_STATE_FAILED"
  shows "quietly (node_state_set E a st)"
  unfolding node_state_set_def recover_state_set_def
  by (rule quietly_I) (intro okE_intros okE_bind_get [where m = "node_rd _ _"] quiet_bind quietly_okE [OF quiet_changing];
      simp add: assms)

lemma quiet_resource_state_set: "quietly (resource_state_set E q op ec)"
  unfolding resource_state_set_def
  by (rule quietly_I) (intro okE_intros quietly_okE [OF quiet_rsc_state_set]; simp)

lemma quiet_action_completed: "quietly (resource_action_completed E p ec)"
  unfolding resource_action_completed_def
  by (rule quietly_I) (intro okE_intros okE_bind_get [where m = "op_target _ _"] quiet_bind
      quietly_okE [OF quiet_history_save] quietly_okE [OF quiet_completed] quietly_okE [OF quiet_resource_state_set]
      quietly_okE [OF quiet_monitor_rearm] quietly_okE [OF quiet_unref]; simp)

lemma quiet_history_delete: "quietly (op_history_delete E p)"
  unfolding op_history_delete_def
  by (rule quietly_I) (intro okE_intros quiet_bind quietly_okE [OF quietly_foldE] quietly_I
      quietly_okE [OF quiet_history_drop] quietly_okE [OF quiet_completed] quietly_okE [OF quiet_unref]; simp)

lemma quiet_action_completion: "quietly (resource_action_completion E ra rc)"
  unfolding resource_action_completion_def
  by (rule quietly_I) (intro okE_intros quiet_bind quietly_okE [OF quiet_action_completed]
      quietly_okE [OF quiet_unref]; simp)

end
