(* ===== verification/Ssh_Net.thy ===== *)
theory Ssh_Net
  imports Ssh_Quiet
begin

text \<open>
  The transports of all nodes, seen by themselves: which transport a node has, the transports and their
  queues, the queued commands, and what is pending for them in the event loop. \<open>net_of\<close> extracts this from
  the state of the engine; the operations of \<^verbatim>\<open>trans_ssh.c\<close> are operations on it. \<open>net_ok\<close> says that everything
  pending refers to live objects.
\<close>

section \<open>The net\<close>

record net =
  nT :: "trans_ptr \<Rightarrow> trans_ssh option"
  nQ :: "sshop_ptr \<Rightarrow> ssh_op option"
  nP :: "asm_ptr \<Rightarrow> trans_ptr option"
  nJ :: "job list"
  nM :: "timer list"
  n_trans :: trans_ptr
  n_sshop :: sshop_ptr
  n_handle :: timer_handle

definition net_of :: "'sw cape \<Rightarrow> net" where
  "net_of s = \<lparr>nT = transs s, nQ = sshops s, nP = tp s, nJ = tjobs s, nM = ttimers s,
     n_trans = next_trans s, n_sshop = next_sshop s, n_handle = next_handle s\<rparr>"

lemma net_of_sel [simp]:
  "nT (net_of s) = transs s" "nQ (net_of s) = sshops s" "nP (net_of s) = tp s" "nJ (net_of s) = tjobs s"
  "nM (net_of s) = ttimers s" "n_trans (net_of s) = next_trans s" "n_sshop (net_of s) = next_sshop s"
  "n_handle (net_of s) = next_handle s"
  by (simp_all add: net_of_def)

text \<open>The requests to the event loop.\<close>

definition net_arm :: "timer_fn \<Rightarrow> nat \<Rightarrow> net \<Rightarrow> net" where
  "net_arm f nsec N = N\<lparr>nM := nM N @ [\<lparr>tm_handle = Suc (n_handle N), tm_fn = f, tm_nsec = nsec\<rparr>],
     n_handle := Suc (n_handle N)\<rparr>"

definition net_disarm :: "timer_handle \<Rightarrow> net \<Rightarrow> net" where
  "net_disarm h N = N\<lparr>nM := filter (\<lambda>tm. tm_handle tm \<noteq> h) (nM N)\<rparr>"

definition net_job :: "job \<Rightarrow> net \<Rightarrow> net" where
  "net_job j N = N\<lparr>nJ := nJ N @ [j]\<rparr>"

definition net_unjob :: "job \<Rightarrow> net \<Rightarrow> net" where
  "net_unjob j N = N\<lparr>nJ := remove1 j (nJ N)\<rparr>"

definition net_set :: "trans_ptr \<Rightarrow> trans_ssh \<Rightarrow> net \<Rightarrow> net" where
  "net_set t ts N = N\<lparr>nT := (nT N)(t \<mapsto> ts)\<rparr>"

lemmas net_defs = net_arm_def net_disarm_def net_job_def net_unjob_def net_set_def

section \<open>Consistency\<close>

abbreviation session_up :: "trans_ssh \<Rightarrow> bool" where
  "session_up ts \<equiv> ts_ssh_state ts = SSH_SESSION_CONNECTED"

fun client_asm :: "ssh_client \<Rightarrow> asm_ptr" where
  "client_asm (Healthcheck a) = a"
| "client_asm (Resource_action ra) = ra_assembly ra"

fun conn_of :: "job \<Rightarrow> asm_ptr option" where
  "conn_of (My_instance_state_get a) = Some a"
| "conn_of (Connect_execute a) = Some a"
| "conn_of (Ssh_assembly_connect a) = Some a"
| "conn_of _ = None"

text \<open>Nothing of the net has a number that is still to be given out, and no number is given out twice.\<close>

definition fresh_ok :: "net \<Rightarrow> bool" where
  "fresh_ok N \<longleftrightarrow>
     (\<forall>t ts. nT N t = Some ts \<longrightarrow> t < n_trans N) \<and> (\<forall>a t. nP N a = Some t \<longrightarrow> t < n_trans N) \<and>
     (\<forall>q so. nQ N q = Some so \<longrightarrow> q < n_sshop N) \<and> (\<forall>tm \<in> set (nM N). tm_handle tm \<le> n_handle N) \<and>
     distinct (map tm_handle (nM N)) \<and> (\<forall>a b t. nP N a = Some t \<longrightarrow> nP N b = Some t \<longrightarrow> a = b) \<and> distinct (nJ N)"

text \<open>
  A queue holds distinct live commands of its own transport, which belongs to the node the command is for,
  and only a connected transport has any.
\<close>

definition queues_ok :: "net \<Rightarrow> bool" where
  "queues_ok N \<longleftrightarrow>
     (\<forall>t ts. nT N t = Some ts \<longrightarrow> distinct (ts_ssh_op_head ts) \<and> (ts_ssh_op_head ts \<noteq> [] \<longrightarrow> session_up ts) \<and>
        (\<forall>q \<in> set (ts_ssh_op_head ts). \<exists>so. nQ N q = Some so \<and> so_transport so = t \<and>
           nP N (client_asm (so_client so)) = Some t))"

text \<open>A pending time-out is that of a queued command.\<close>

definition timeouts_ok :: "net \<Rightarrow> bool" where
  "timeouts_ok N \<longleftrightarrow>
     (\<forall>tm \<in> set (nM N). \<forall>q. tm_fn tm = Ssh_timeout q \<longrightarrow>
        (\<exists>so ts. nQ N q = Some so \<and> so_timer so = tm_handle tm \<and> nT N (so_transport so) = Some ts \<and>
           q \<in> set (ts_ssh_op_head ts)))"

text \<open>
  A pending execution is that of the first command of a scheduled transport. \<open>B\<close> are the transports whose
  command is being executed: they count as scheduled and have no pending execution.
\<close>

definition execs_ok :: "trans_ptr set \<Rightarrow> net \<Rightarrow> bool" where
  "execs_ok B N \<longleftrightarrow>
     (\<forall>q. Assembly_ssh_exec q \<in> set (nJ N) \<longrightarrow>
        (\<exists>so ts rest. nQ N q = Some so \<and> so_transport so \<notin> B \<and> nT N (so_transport so) = Some ts \<and>
           ts_ssh_op_head ts = q # rest \<and> ts_scheduled ts)) \<and>
     (\<forall>t \<in> B. \<forall>ts. nT N t = Some ts \<longrightarrow> ts_scheduled ts)"

text \<open>Keep-alive and health-check timers are the ones their transport knows of, so that it can delete them.\<close>

definition keepalives_ok :: "net \<Rightarrow> bool" where
  "keepalives_ok N \<longleftrightarrow>
     (\<forall>tm \<in> set (nM N). \<forall>t. tm_fn tm = Ssh_keepalive_send t \<longrightarrow>
        (\<exists>ts. nT N t = Some ts \<and> ts_keepalive_timer ts = tm_handle tm \<and> session_up ts))"

definition is_check :: "net \<Rightarrow> asm_ptr \<Rightarrow> sshop_ptr \<Rightarrow> bool" where
  "is_check N a q \<longleftrightarrow> (\<exists>so. nQ N q = Some so \<and> so_client so = Healthcheck a)"

definition checks_ok :: "net \<Rightarrow> bool" where
  "checks_ok N \<longleftrightarrow>
     (\<forall>tm \<in> set (nM N). \<forall>a. tm_fn tm = Assembly_healthcheck a \<longrightarrow>
        (\<exists>t ts. nP N a = Some t \<and> nT N t = Some ts \<and> ts_healthcheck_timer ts = tm_handle tm \<and> session_up ts \<and>
           (\<forall>q \<in> set (ts_ssh_op_head ts). \<not> is_check N a q))) \<and>
     (\<forall>t ts a q q'. nT N t = Some ts \<longrightarrow> q \<in> set (ts_ssh_op_head ts) \<longrightarrow> q' \<in> set (ts_ssh_op_head ts) \<longrightarrow>
        is_check N a q \<longrightarrow> is_check N a q' \<longrightarrow> q = q')"

text \<open>
  At most one connection attempt is pending for a node, and its stage fits the transport: none while the
  cloud is polled, one that is connecting, one that is being set up.
\<close>

definition gone :: "net \<Rightarrow> asm_ptr \<Rightarrow> bool" where
  "gone N a \<longleftrightarrow> (\<forall>t. nP N a = Some t \<longrightarrow> nT N t = None)"

definition in_state :: "net \<Rightarrow> asm_ptr \<Rightarrow> ssh_state set \<Rightarrow> bool" where
  "in_state N a S \<longleftrightarrow> (\<exists>t ts. nP N a = Some t \<and> nT N t = Some ts \<and> ts_ssh_state ts \<in> S)"

definition handshake :: "ssh_state set" where
  "handshake = {SSH_SESSION_INIT, SSH_SESSION_STARTUP, SSH_USERAUTH_PUBLICKEY_FROMFILE, SSH_KEEPALIVE_CONFIG}"

definition idle :: "net \<Rightarrow> asm_ptr \<Rightarrow> bool" where
  "idle N a \<longleftrightarrow> (\<forall>j \<in> set (nJ N). conn_of j \<noteq> Some a) \<and> (\<forall>tm \<in> set (nM N). tm_fn tm \<noteq> Instance_state_poll a)"

definition conns_ok :: "net \<Rightarrow> bool" where
  "conns_ok N \<longleftrightarrow>
     (\<forall>j \<in> set (nJ N). \<forall>k \<in> set (nJ N). \<forall>a. conn_of j = Some a \<longrightarrow> conn_of k = Some a \<longrightarrow> j = k) \<and>
     (\<forall>tm \<in> set (nM N). \<forall>tm' \<in> set (nM N). \<forall>a. tm_fn tm = Instance_state_poll a \<longrightarrow>
        tm_fn tm' = Instance_state_poll a \<longrightarrow> tm = tm') \<and>
     (\<forall>tm \<in> set (nM N). \<forall>a. tm_fn tm = Instance_state_poll a \<longrightarrow>
        gone N a \<and> (\<forall>j \<in> set (nJ N). conn_of j \<noteq> Some a)) \<and>
     (\<forall>a. My_instance_state_get a \<in> set (nJ N) \<longrightarrow> gone N a) \<and>
     (\<forall>a. Connect_execute a \<in> set (nJ N) \<longrightarrow> in_state N a {SSH_SESSION_CONNECTING}) \<and>
     (\<forall>a. Ssh_assembly_connect a \<in> set (nJ N) \<longrightarrow> in_state N a handshake)"

definition net_ok :: "trans_ptr set \<Rightarrow> net \<Rightarrow> bool" where
  "net_ok B N \<longleftrightarrow> fresh_ok N \<and> queues_ok N \<and> timeouts_ok N \<and> execs_ok B N \<and> keepalives_ok N \<and> checks_ok N \<and> conns_ok N"

lemmas net_ok_defs = fresh_ok_def queues_ok_def timeouts_ok_def execs_ok_def keepalives_ok_def checks_ok_def conns_ok_def

lemma net_okI:
  "fresh_ok N \<Longrightarrow> queues_ok N \<Longrightarrow> timeouts_ok N \<Longrightarrow> execs_ok B N \<Longrightarrow> keepalives_ok N \<Longrightarrow> checks_ok N \<Longrightarrow>
   conns_ok N \<Longrightarrow> net_ok B N"
  by (simp add: net_ok_def)

lemma net_okD:
  "net_ok B N \<Longrightarrow> fresh_ok N" "net_ok B N \<Longrightarrow> queues_ok N" "net_ok B N \<Longrightarrow> timeouts_ok N" "net_ok B N \<Longrightarrow> execs_ok B N"
  "net_ok B N \<Longrightarrow> keepalives_ok N" "net_ok B N \<Longrightarrow> checks_ok N" "net_ok B N \<Longrightarrow> conns_ok N"
  by (simp_all add: net_ok_def)

text \<open>The parts by introduction and elimination.\<close>

lemma queues_okI:
  assumes "\<And>t ts. nT N t = Some ts \<Longrightarrow> distinct (ts_ssh_op_head ts)"
    and "\<And>t ts. nT N t = Some ts \<Longrightarrow> ts_ssh_op_head ts \<noteq> [] \<Longrightarrow> session_up ts"
    and "\<And>t ts q. nT N t = Some ts \<Longrightarrow> q \<in> set (ts_ssh_op_head ts) \<Longrightarrow>
      \<exists>so. nQ N q = Some so \<and> so_transport so = t \<and> nP N (client_asm (so_client so)) = Some t"
  shows "queues_ok N"
  using assms unfolding queues_ok_def by blast

lemma queue_distinct: "net_ok B N \<Longrightarrow> nT N t = Some ts \<Longrightarrow> distinct (ts_ssh_op_head ts)"
  unfolding net_ok_def queues_ok_def by blast

lemma queue_up: "net_ok B N \<Longrightarrow> nT N t = Some ts \<Longrightarrow> q \<in> set (ts_ssh_op_head ts) \<Longrightarrow> session_up ts"
  unfolding net_ok_def queues_ok_def by (metis length_pos_if_in_set list.size(3) less_irrefl)

lemma queue_member:
  assumes "net_ok B N" and "nT N t = Some ts" and "q \<in> set (ts_ssh_op_head ts)"
  obtains so where "nQ N q = Some so" and "so_transport so = t" and "nP N (client_asm (so_client so)) = Some t"
  using assms unfolding net_ok_def queues_ok_def by blast

lemma timeouts_okI:
  "(\<And>tm q. tm \<in> set (nM N) \<Longrightarrow> tm_fn tm = Ssh_timeout q \<Longrightarrow>
     \<exists>so ts. nQ N q = Some so \<and> so_timer so = tm_handle tm \<and> nT N (so_transport so) = Some ts \<and>
       q \<in> set (ts_ssh_op_head ts)) \<Longrightarrow> timeouts_ok N"
  unfolding timeouts_ok_def by blast

lemma timeout_queued:
  assumes "net_ok B N" and "tm \<in> set (nM N)" and "tm_fn tm = Ssh_timeout q"
  obtains so ts where "nQ N q = Some so" and "so_timer so = tm_handle tm" and "nT N (so_transport so) = Some ts"
    and "q \<in> set (ts_ssh_op_head ts)"
  using assms unfolding net_ok_def timeouts_ok_def by blast

lemma execs_okI:
  assumes "\<And>q. Assembly_ssh_exec q \<in> set (nJ N) \<Longrightarrow> \<exists>so ts rest. nQ N q = Some so \<and> so_transport so \<notin> B \<and>
      nT N (so_transport so) = Some ts \<and> ts_ssh_op_head ts = q # rest \<and> ts_scheduled ts"
    and "\<And>t ts. t \<in> B \<Longrightarrow> nT N t = Some ts \<Longrightarrow> ts_scheduled ts"
  shows "execs_ok B N"
  using assms unfolding execs_ok_def by blast

lemma exec_first:
  assumes "net_ok B N" and "Assembly_ssh_exec q \<in> set (nJ N)"
  obtains so ts rest where "nQ N q = Some so" and "so_transport so \<notin> B" and "nT N (so_transport so) = Some ts"
    and "ts_ssh_op_head ts = q # rest" and "ts_scheduled ts"
  using assms unfolding net_ok_def execs_ok_def by blast

lemma busy_scheduled: "net_ok B N \<Longrightarrow> t \<in> B \<Longrightarrow> nT N t = Some ts \<Longrightarrow> ts_scheduled ts"
  unfolding net_ok_def execs_ok_def by blast

lemma keepalives_okI:
  "(\<And>tm t. tm \<in> set (nM N) \<Longrightarrow> tm_fn tm = Ssh_keepalive_send t \<Longrightarrow>
     \<exists>ts. nT N t = Some ts \<and> ts_keepalive_timer ts = tm_handle tm \<and> session_up ts) \<Longrightarrow> keepalives_ok N"
  unfolding keepalives_ok_def by blast

lemma keepalive_known:
  assumes "net_ok B N" and "tm \<in> set (nM N)" and "tm_fn tm = Ssh_keepalive_send t"
  obtains ts where "nT N t = Some ts" and "ts_keepalive_timer ts = tm_handle tm" and "session_up ts"
  using assms unfolding net_ok_def keepalives_ok_def by blast

lemma checks_okI:
  assumes "\<And>tm a. tm \<in> set (nM N) \<Longrightarrow> tm_fn tm = Assembly_healthcheck a \<Longrightarrow>
      \<exists>t ts. nP N a = Some t \<and> nT N t = Some ts \<and> ts_healthcheck_timer ts = tm_handle tm \<and> session_up ts \<and>
        (\<forall>q \<in> set (ts_ssh_op_head ts). \<not> is_check N a q)"
    and "\<And>t ts a q q'. nT N t = Some ts \<Longrightarrow> q \<in> set (ts_ssh_op_head ts) \<Longrightarrow> q' \<in> set (ts_ssh_op_head ts) \<Longrightarrow>
        is_check N a q \<Longrightarrow> is_check N a q' \<Longrightarrow> q = q'"
  shows "checks_ok N"
  using assms unfolding checks_ok_def by blast

lemma check_known:
  assumes "net_ok B N" and "tm \<in> set (nM N)" and "tm_fn tm = Assembly_healthcheck a"
  obtains t ts where "nP N a = Some t" and "nT N t = Some ts" and "ts_healthcheck_timer ts = tm_handle tm"
    and "session_up ts" and "\<forall>q \<in> set (ts_ssh_op_head ts). \<not> is_check N a q"
  using assms unfolding net_ok_def checks_ok_def by blast

lemma check_once:
  "net_ok B N \<Longrightarrow> nT N t = Some ts \<Longrightarrow> q \<in> set (ts_ssh_op_head ts) \<Longrightarrow> q' \<in> set (ts_ssh_op_head ts) \<Longrightarrow>
   is_check N a q \<Longrightarrow> is_check N a q' \<Longrightarrow> q = q'"
  unfolding net_ok_def checks_ok_def by blast

lemma conns_okI:
  assumes "\<And>j k a. j \<in> set (nJ N) \<Longrightarrow> k \<in> set (nJ N) \<Longrightarrow> conn_of j = Some a \<Longrightarrow> conn_of k = Some a \<Longrightarrow> j = k"
    and "\<And>tm tm' a. tm \<in> set (nM N) \<Longrightarrow> tm' \<in> set (nM N) \<Longrightarrow> tm_fn tm = Instance_state_poll a \<Longrightarrow>
      tm_fn tm' = Instance_state_poll a \<Longrightarrow> tm = tm'"
    and "\<And>tm a. tm \<in> set (nM N) \<Longrightarrow> tm_fn tm = Instance_state_poll a \<Longrightarrow> gone N a"
    and "\<And>tm a j. tm \<in> set (nM N) \<Longrightarrow> tm_fn tm = Instance_state_poll a \<Longrightarrow> j \<in> set (nJ N) \<Longrightarrow> conn_of j \<noteq> Some a"
    and "\<And>a. My_instance_state_get a \<in> set (nJ N) \<Longrightarrow> gone N a"
    and "\<And>a. Connect_execute a \<in> set (nJ N) \<Longrightarrow> in_state N a {SSH_SESSION_CONNECTING}"
    and "\<And>a. Ssh_assembly_connect a \<in> set (nJ N) \<Longrightarrow> in_state N a handshake"
  shows "conns_ok N"
  using assms unfolding conns_ok_def by blast

lemma conn_stage:
  assumes "net_ok B N"
  shows "My_instance_state_get a \<in> set (nJ N) \<Longrightarrow> gone N a" "Connect_execute a \<in> set (nJ N) \<Longrightarrow> in_state N a {SSH_SESSION_CONNECTING}"
    "Ssh_assembly_connect a \<in> set (nJ N) \<Longrightarrow> in_state N a handshake"
    "tm \<in> set (nM N) \<Longrightarrow> tm_fn tm = Instance_state_poll a \<Longrightarrow> gone N a"
  using net_okD(7) [OF assms] unfolding conns_ok_def by blast+

lemma conns_cong:
  assumes ok: "net_ok B N" and eqs: "nJ N' = nJ N" "nM N' = nM N"
    and same: "\<And>a. gone N a \<Longrightarrow> \<not> idle N a \<Longrightarrow> gone N' a"
      "\<And>a S. in_state N a S \<Longrightarrow> \<not> idle N a \<Longrightarrow> in_state N' a S"
  shows "conns_ok N'"
proof -
  have busy: "j \<in> set (nJ N) \<Longrightarrow> conn_of j = Some a \<Longrightarrow> \<not> idle N a"
    "tm \<in> set (nM N) \<Longrightarrow> tm_fn tm = Instance_state_poll a \<Longrightarrow> \<not> idle N a" for j tm a
    by (auto simp: idle_def)
  show ?thesis
  proof (rule conns_okI, unfold eqs, goal_cases)
    case (1 j k a)
    then show ?case using net_okD(7) [OF ok] unfolding conns_ok_def by blast
  next
    case (2 tm tm' a)
    then show ?case using net_okD(7) [OF ok] unfolding conns_ok_def by blast
  next
    case (3 tm a)
    with same(1) busy(2) conn_stage(4) [OF ok] show ?case by blast
  next
    case (4 tm a j)
    then show ?case using net_okD(7) [OF ok] unfolding conns_ok_def by blast
  next
    case (5 a)
    with same(1) busy(1) [OF 5] conn_stage(1) [OF ok] show ?case by simp
  next
    case (6 a)
    with same(2) busy(1) [OF 6] conn_stage(2) [OF ok] show ?case by simp
  next
    case (7 a)
    with same(2) busy(1) [OF 7] conn_stage(3) [OF ok] show ?case by simp
  qed
qed

section \<open>Deleting\<close>

text \<open>Fewer jobs and timers.\<close>

lemma net_ok_fewer:
  assumes ok: "net_ok B N" and eqs: "nT N' = nT N" "nQ N' = nQ N" "nP N' = nP N" "n_trans N' = n_trans N" "n_sshop N' = n_sshop N"
    and h: "n_handle N \<le> n_handle N'" and M: "set (nM N') \<subseteq> set (nM N)" "distinct (map tm_handle (nM N'))"
    and J: "set (nJ N') \<subseteq> set (nJ N)" "distinct (nJ N')"
  shows "net_ok B N'"
proof (rule net_okI)
  have preds: "is_check N' = is_check N" "gone N' = gone N" "in_state N' = in_state N"
    by (simp_all add: is_check_def gone_def in_state_def eqs fun_eq_iff)
  show "fresh_ok N'"
    using net_okD(1) [OF ok] M J h unfolding fresh_ok_def eqs by (meson order_trans subsetD)
  show "queues_ok N'"
    using net_okD(2) [OF ok] unfolding queues_ok_def eqs .
  show "timeouts_ok N'"
    using net_okD(3) [OF ok] M(1) unfolding timeouts_ok_def eqs by (meson subsetD)
  show "execs_ok B N'"
    using net_okD(4) [OF ok] J(1) unfolding execs_ok_def eqs by (meson subsetD)
  show "keepalives_ok N'"
    using net_okD(5) [OF ok] M(1) unfolding keepalives_ok_def eqs by (meson subsetD)
  show "checks_ok N'"
    using net_okD(6) [OF ok] M(1) unfolding checks_ok_def eqs preds by (meson subsetD)
  show "conns_ok N'"
    using net_okD(7) [OF ok] M(1) J(1) unfolding conns_ok_def eqs preds by (meson subsetD)
qed

lemma net_ok_filter:
  assumes "net_ok B N" and "n_handle N \<le> h"
  shows "net_ok B (N\<lparr>nM := filter P (nM N), n_handle := h\<rparr>)"
  by (rule net_ok_fewer [OF assms(1)]) (use net_okD(1) [OF assms(1)] assms(2) in \<open>auto simp: fresh_ok_def distinct_map_filter\<close>)

lemma net_ok_disarm: "net_ok B N \<Longrightarrow> net_ok B (net_disarm h N)"
  using net_ok_filter [of B N "n_handle N" "\<lambda>tm. tm_handle tm \<noteq> h"] by (simp add: net_disarm_def)

lemma net_ok_unjob:
  assumes "net_ok B N"
  shows "net_ok B (net_unjob j N)"
  by (rule net_ok_fewer [OF assms]) (use net_okD(1) [OF assms] set_remove1_subset [of j "nJ N"] in \<open>simp_all add: net_unjob_def fresh_ok_def\<close>)

lemma quiet_net_ok:
  assumes "net_ok B (net_of s)" and "quiet s s'"
  shows "net_ok B (net_of s')"
proof -
  from assms(2) obtain P where "net_of s' = (net_of s)\<lparr>nM := filter P (nM (net_of s)), n_handle := next_handle s'\<rparr>"
    and "n_handle (net_of s) \<le> next_handle s'"
    by (auto simp: quiet_def net_of_def)
  with net_ok_filter [OF assms(1)] show ?thesis by metis
qed

section \<open>Adding\<close>

lemma net_arm_sel [simp]:
  "nT (net_arm f n N) = nT N" "nQ (net_arm f n N) = nQ N" "nP (net_arm f n N) = nP N" "nJ (net_arm f n N) = nJ N"
  "is_check (net_arm f n N) = is_check N" "gone (net_arm f n N) = gone N" "in_state (net_arm f n N) = in_state N"
  by (simp_all add: net_arm_def is_check_def gone_def in_state_def fun_eq_iff)

lemma net_arm_timers: "set (nM (net_arm f n N)) = insert \<lparr>tm_handle = Suc (n_handle N), tm_fn = f, tm_nsec = n\<rparr> (set (nM N))"
  by (simp add: net_arm_def)

text \<open>What a timer refers to.\<close>

definition timer_ok :: "net \<Rightarrow> timer_fn \<Rightarrow> timer_handle \<Rightarrow> bool" where
  "timer_ok N f h \<longleftrightarrow>
     (case f of
        Ssh_timeout q \<Rightarrow> \<exists>so ts. nQ N q = Some so \<and> so_timer so = h \<and> nT N (so_transport so) = Some ts \<and>
           q \<in> set (ts_ssh_op_head ts)
      | Ssh_keepalive_send t \<Rightarrow> \<exists>ts. nT N t = Some ts \<and> ts_keepalive_timer ts = h \<and> session_up ts
      | Assembly_healthcheck a \<Rightarrow> \<exists>t ts. nP N a = Some t \<and> nT N t = Some ts \<and> ts_healthcheck_timer ts = h \<and>
           session_up ts \<and> (\<forall>q \<in> set (ts_ssh_op_head ts). \<not> is_check N a q)
      | Instance_state_poll a \<Rightarrow> gone N a \<and> idle N a
      | _ \<Rightarrow> True)"

lemma net_ok_arm:
  assumes ok: "net_ok B N" and new: "timer_ok N f (Suc (n_handle N))"
  shows "net_ok B (net_arm f n N)"
proof (rule net_okI)
  let ?N = "net_arm f n N" and ?tm = "\<lparr>tm_handle = Suc (n_handle N), tm_fn = f, tm_nsec = n\<rparr>"
  show "fresh_ok ?N"
    using net_okD(1) [OF ok] by (fastforce simp: fresh_ok_def net_arm_def)
  show "queues_ok ?N" using net_okD(2) [OF ok] by (simp add: queues_ok_def)
  show "timeouts_ok ?N"
    using net_okD(3) [OF ok] new by (auto simp: timeouts_ok_def net_arm_timers timer_ok_def)
  show "execs_ok B ?N" using net_okD(4) [OF ok] by (simp add: execs_ok_def)
  show "keepalives_ok ?N"
    using net_okD(5) [OF ok] new by (auto simp: keepalives_ok_def net_arm_timers timer_ok_def)
  show "checks_ok ?N"
    using net_okD(6) [OF ok] new unfolding checks_ok_def net_arm_timers net_arm_sel by (cases f) (simp_all add: timer_ok_def)
  show "conns_ok ?N"
    using net_okD(7) [OF ok] new unfolding conns_ok_def net_arm_timers net_arm_sel
    by (auto simp: timer_ok_def idle_def)
qed

definition job_ok :: "trans_ptr set \<Rightarrow> net \<Rightarrow> job \<Rightarrow> bool" where
  "job_ok B N j \<longleftrightarrow>
     (case j of
        Assembly_ssh_exec q \<Rightarrow> \<exists>so ts rest. nQ N q = Some so \<and> so_transport so \<notin> B \<and>
           nT N (so_transport so) = Some ts \<and> ts_ssh_op_head ts = q # rest \<and> ts_scheduled ts
      | My_instance_state_get a \<Rightarrow> gone N a
      | Connect_execute a \<Rightarrow> in_state N a {SSH_SESSION_CONNECTING}
      | Ssh_assembly_connect a \<Rightarrow> in_state N a handshake
      | _ \<Rightarrow> True)"

lemma net_job_sel [simp]:
  "nT (net_job j N) = nT N" "nQ (net_job j N) = nQ N" "nP (net_job j N) = nP N" "nM (net_job j N) = nM N"
  "set (nJ (net_job j N)) = insert j (set (nJ N))"
  "is_check (net_job j N) = is_check N" "gone (net_job j N) = gone N" "in_state (net_job j N) = in_state N"
  by (simp_all add: net_job_def is_check_def gone_def in_state_def fun_eq_iff)

lemma net_ok_job:
  assumes ok: "net_ok B N" and new: "job_ok B N j" "j \<notin> set (nJ N)" "\<And>a. conn_of j = Some a \<Longrightarrow> idle N a"
  shows "net_ok B (net_job j N)"
proof (rule net_okI)
  let ?N = "net_job j N"
  show "fresh_ok ?N" using net_okD(1) [OF ok] new(2) by (auto simp: fresh_ok_def net_job_def)
  show "queues_ok ?N" using net_okD(2) [OF ok] by (simp add: queues_ok_def)
  show "timeouts_ok ?N" using net_okD(3) [OF ok] by (simp add: timeouts_ok_def)
  show "execs_ok B ?N" using net_okD(4) [OF ok] new(1) by (auto simp: execs_ok_def job_ok_def)
  show "keepalives_ok ?N" using net_okD(5) [OF ok] by (simp add: keepalives_ok_def)
  show "checks_ok ?N" using net_okD(6) [OF ok] by (simp add: checks_ok_def)
  have "job_ok B N j \<Longrightarrow> conns_ok ?N"
    using net_okD(7) [OF ok] new(3) unfolding conns_ok_def net_job_sel by (cases j) (auto simp: job_ok_def idle_def)
  with new(1) show "conns_ok ?N" by blast
qed

section \<open>Changing a transport\<close>

text \<open>An update of a transport that leaves its queue alone.\<close>

lemma net_ok_set:
  assumes ok: "net_ok B N" and t: "nT N t = Some ts" and q: "ts_ssh_op_head ts' = ts_ssh_op_head ts" "ts_scheduled ts' = ts_scheduled ts"
    and up: "session_up ts \<Longrightarrow> session_up ts'"
    and ka: "ts_keepalive_timer ts' = ts_keepalive_timer ts \<or> (\<forall>tm \<in> set (nM N). tm_fn tm \<noteq> Ssh_keepalive_send t)"
    and hc: "ts_healthcheck_timer ts' = ts_healthcheck_timer ts \<or>
      (\<forall>a. nP N a = Some t \<longrightarrow> (\<forall>tm \<in> set (nM N). tm_fn tm \<noteq> Assembly_healthcheck a))"
    and st: "ts_ssh_state ts' = ts_ssh_state ts \<or> (\<forall>a. nP N a = Some t \<longrightarrow> idle N a)"
  shows "net_ok B (net_set t ts' N)"
proof (rule net_okI)
  let ?N = "net_set t ts' N"
  have sel: "nQ ?N = nQ N" "nP ?N = nP N" "nM ?N = nM N" "nJ ?N = nJ N" "n_trans ?N = n_trans N" "n_sshop ?N = n_sshop N"
    "n_handle ?N = n_handle N" "is_check ?N = is_check N"
    by (simp_all add: net_set_def is_check_def fun_eq_iff)
  have T: "nT ?N u = (if u = t then Some ts' else nT N u)" for u by (simp add: net_set_def)
  have old: "\<exists>us. nT N u = Some us \<and> ts_ssh_op_head us' = ts_ssh_op_head us \<and> ts_scheduled us' = ts_scheduled us \<and>
      (session_up us \<longrightarrow> session_up us')" if "nT ?N u = Some us'" for u us'
    using that t q up by (auto simp: T split: if_splits)
  have new: "\<exists>us'. nT ?N u = Some us' \<and> ts_ssh_op_head us' = ts_ssh_op_head us \<and> ts_scheduled us' = ts_scheduled us \<and>
      (session_up us \<longrightarrow> session_up us') \<and> (u \<noteq> t \<longrightarrow> us' = us)" if "nT N u = Some us" for u us
    using that t q up by (auto simp: T)
  show "fresh_ok ?N" using net_okD(1) [OF ok] t unfolding fresh_ok_def sel T by simp
  show "queues_ok ?N"
    by (rule queues_okI; (unfold sel)?; drule old; metis queue_distinct [OF ok] queue_up [OF ok] queue_member [OF ok]
        list.set_intros(1) neq_Nil_conv)
  show "timeouts_ok ?N"
    by (rule timeouts_okI; (unfold sel)?; metis timeout_queued [OF ok] new)
  show "execs_ok B ?N"
    by (rule execs_okI; (unfold sel)?; metis exec_first [OF ok] busy_scheduled [OF ok] old new)
  show "keepalives_ok ?N"
  proof (rule keepalives_okI, unfold sel)
    fix tm u assume tm: "tm \<in> set (nM N)" "tm_fn tm = Ssh_keepalive_send u"
    from keepalive_known [OF ok tm] obtain us where "nT N u = Some us" "ts_keepalive_timer us = tm_handle tm" "session_up us" .
    with tm t ka up show "\<exists>ts. nT ?N u = Some ts \<and> ts_keepalive_timer ts = tm_handle tm \<and> session_up ts"
      by (auto simp: T)
  qed
  show "checks_ok ?N"
  proof (rule checks_okI, unfold sel)
    fix tm a assume tm: "tm \<in> set (nM N)" "tm_fn tm = Assembly_healthcheck a"
    from check_known [OF ok tm] obtain u us where "nP N a = Some u" "nT N u = Some us" "ts_healthcheck_timer us = tm_handle tm"
      "session_up us" "\<forall>q \<in> set (ts_ssh_op_head us). \<not> is_check N a q" .
    with tm t q hc up show "\<exists>t ts. nP N a = Some t \<and> nT ?N t = Some ts \<and> ts_healthcheck_timer ts = tm_handle tm \<and> session_up ts \<and>
        (\<forall>q \<in> set (ts_ssh_op_head ts). \<not> is_check N a q)"
      by (auto simp: T)
  next
    fix u us a p p' assume "nT ?N u = Some us" "p \<in> set (ts_ssh_op_head us)" "p' \<in> set (ts_ssh_op_head us)"
      "is_check N a p" "is_check N a p'"
    then show "p = p'" using check_once [OF ok] old by metis
  qed
  show "conns_ok ?N"
    by (rule conns_cong [OF ok]) (use t st in \<open>auto simp: sel T gone_def in_state_def\<close>)
qed

text \<open>Commands leave a queue.\<close>

lemma net_ok_dequeue:
  assumes ok: "net_ok B N" and t: "nT N t = Some ts"
    and ts': "ts' = ts\<lparr>ts_ssh_op_head := h, ts_scheduled := sc\<rparr>" and h: "set h \<subseteq> set (ts_ssh_op_head ts)" "distinct h"
    and tmo: "\<And>q tm. tm \<in> set (nM N) \<Longrightarrow> tm_fn tm = Ssh_timeout q \<Longrightarrow> q \<in> set (ts_ssh_op_head ts) \<Longrightarrow> q \<in> set h"
    and ex: "\<And>q so. nQ N q = Some so \<Longrightarrow> so_transport so = t \<Longrightarrow> Assembly_ssh_exec q \<notin> set (nJ N)"
    and B: "t \<in> B \<Longrightarrow> sc"
  shows "net_ok B (net_set t ts' N)"
proof (rule net_okI)
  let ?N = "net_set t ts' N"
  have sel: "nQ ?N = nQ N" "nP ?N = nP N" "nM ?N = nM N" "nJ ?N = nJ N" "n_trans ?N = n_trans N" "n_sshop ?N = n_sshop N"
    "n_handle ?N = n_handle N" "is_check ?N = is_check N"
    by (simp_all add: net_set_def is_check_def fun_eq_iff)
  have T: "nT ?N u = (if u = t then Some ts' else nT N u)" for u by (simp add: net_set_def)
  have f: "ts_ssh_op_head ts' = h" "ts_scheduled ts' = sc" "ts_ssh_state ts' = ts_ssh_state ts"
    "ts_keepalive_timer ts' = ts_keepalive_timer ts" "ts_healthcheck_timer ts' = ts_healthcheck_timer ts"
    by (simp_all add: ts')
  have preds: "gone ?N = gone N" "in_state ?N = in_state N"
    using t by (auto simp: gone_def in_state_def sel T f fun_eq_iff)
  show "fresh_ok ?N" using net_okD(1) [OF ok] t unfolding fresh_ok_def sel T by simp
  have old: "\<exists>us. nT N u = Some us \<and> set (ts_ssh_op_head us') \<subseteq> set (ts_ssh_op_head us) \<and> distinct (ts_ssh_op_head us') \<and>
      ts_ssh_state us' = ts_ssh_state us" if "nT ?N u = Some us'" for u us'
    using that t h f queue_distinct [OF ok] by (cases "u = t") (auto simp: T)
  show "queues_ok ?N"
    by (rule queues_okI; (unfold sel)?; drule old; metis queue_up [OF ok] queue_member [OF ok] list.set_intros(1) neq_Nil_conv subsetD)
  show "timeouts_ok ?N"
  proof (rule timeouts_okI, unfold sel)
    fix tm q assume tm: "tm \<in> set (nM N)" "tm_fn tm = Ssh_timeout q"
    from timeout_queued [OF ok tm] obtain so us where "nQ N q = Some so" "so_timer so = tm_handle tm"
      "nT N (so_transport so) = Some us" "q \<in> set (ts_ssh_op_head us)" .
    with tm tmo [OF tm] t show "\<exists>so ts. nQ N q = Some so \<and> so_timer so = tm_handle tm \<and> nT ?N (so_transport so) = Some ts \<and>
        q \<in> set (ts_ssh_op_head ts)"
      by (auto simp: T f)
  qed
  show "execs_ok B ?N"
  proof (rule execs_okI, unfold sel)
    fix q assume q: "Assembly_ssh_exec q \<in> set (nJ N)"
    from exec_first [OF ok q] obtain so us rest where "nQ N q = Some so" "so_transport so \<notin> B" "nT N (so_transport so) = Some us"
      "ts_ssh_op_head us = q # rest" "ts_scheduled us" .
    with q ex show "\<exists>so ts rest. nQ N q = Some so \<and> so_transport so \<notin> B \<and> nT ?N (so_transport so) = Some ts \<and>
        ts_ssh_op_head ts = q # rest \<and> ts_scheduled ts"
      by (auto simp: T)
  next
    fix u us assume "u \<in> B" "nT ?N u = Some us"
    then show "ts_scheduled us" using B f(2) busy_scheduled [OF ok, of u] by (cases "u = t") (auto simp: T)
  qed
  show "keepalives_ok ?N"
  proof (rule keepalives_okI, unfold sel)
    fix tm u assume tm: "tm \<in> set (nM N)" "tm_fn tm = Ssh_keepalive_send u"
    from keepalive_known [OF ok tm] obtain us where "nT N u = Some us" "ts_keepalive_timer us = tm_handle tm" "session_up us" .
    with t show "\<exists>ts. nT ?N u = Some ts \<and> ts_keepalive_timer ts = tm_handle tm \<and> session_up ts"
      by (auto simp: T f)
  qed
  show "checks_ok ?N"
  proof (rule checks_okI, unfold sel)
    fix tm a assume tm: "tm \<in> set (nM N)" "tm_fn tm = Assembly_healthcheck a"
    from check_known [OF ok tm] obtain u us where "nP N a = Some u" "nT N u = Some us" "ts_healthcheck_timer us = tm_handle tm"
      "session_up us" "\<forall>q \<in> set (ts_ssh_op_head us). \<not> is_check N a q" .
    with t h(1) show "\<exists>t ts. nP N a = Some t \<and> nT ?N t = Some ts \<and> ts_healthcheck_timer ts = tm_handle tm \<and> session_up ts \<and>
        (\<forall>q \<in> set (ts_ssh_op_head ts). \<not> is_check N a q)"
      by (auto simp: T f)
  next
    fix u us a p p' assume us: "nT ?N u = Some us" "p \<in> set (ts_ssh_op_head us)" "p' \<in> set (ts_ssh_op_head us)"
      "is_check N a p" "is_check N a p'"
    from old [OF us(1)] obtain vs where vs: "nT N u = Some vs" "set (ts_ssh_op_head us) \<subseteq> set (ts_ssh_op_head vs)" by blast
    with us(2-) show "p = p'" by (intro check_once [OF ok vs(1)]) auto
  qed
  show "conns_ok ?N" using net_okD(7) [OF ok] unfolding conns_ok_def sel preds .
qed

text \<open>A command enters a queue.\<close>

lemma net_ok_enqueue:
  assumes ok: "net_ok B N" and t: "nT N t = Some ts" "session_up ts" and so: "so_transport so = t" "nP N (client_asm (so_client so)) = Some t"
    and check: "\<And>a. so_client so = Healthcheck a \<Longrightarrow> (\<forall>tm \<in> set (nM N). tm_fn tm \<noteq> Assembly_healthcheck a) \<and>
      (\<forall>q \<in> set (ts_ssh_op_head ts). \<not> is_check N a q)"
  shows "net_ok B (N\<lparr>nT := (nT N)(t \<mapsto> ts\<lparr>ts_ssh_op_head := ts_ssh_op_head ts @ [n_sshop N]\<rparr>),
    nQ := (nQ N)(n_sshop N \<mapsto> so), n_sshop := Suc (n_sshop N)\<rparr>)" (is "net_ok B ?N")
proof (rule net_okI)
  let ?q = "n_sshop N" and ?ts = "ts\<lparr>ts_ssh_op_head := ts_ssh_op_head ts @ [n_sshop N]\<rparr>"
  have sel: "nP ?N = nP N" "nM ?N = nM N" "nJ ?N = nJ N" "n_trans ?N = n_trans N" "n_sshop ?N = Suc ?q"
    "n_handle ?N = n_handle N" by simp_all
  have T: "nT ?N u = (if u = t then Some ?ts else nT N u)" for u by simp
  have Q: "nQ ?N q = (if q = ?q then Some so else nQ N q)" for q by simp
  have new: "nQ N ?q = None"
    using net_okD(1) [OF ok] by (cases "nQ N ?q") (auto simp: fresh_ok_def)
  have out: "?q \<notin> set (ts_ssh_op_head us)" if "nT N u = Some us" for u us
  proof
    assume "?q \<in> set (ts_ssh_op_head us)"
    from queue_member [OF ok that this] new show False by (metis option.distinct(1))
  qed
  have check_eq: "is_check ?N a q \<longleftrightarrow> (if q = ?q then so_client so = Healthcheck a else is_check N a q)" for a q
    by (simp add: is_check_def)
  show "fresh_ok ?N"
    using net_okD(1) [OF ok] t(1) unfolding fresh_ok_def sel T Q by (auto intro: less_SucI)
  have old: "\<exists>vs. nT N u = Some vs \<and> session_up us = session_up vs \<and> ts_scheduled us = ts_scheduled vs \<and>
      ts_ssh_op_head us = (if u = t then ts_ssh_op_head vs @ [?q] else ts_ssh_op_head vs)" if "nT ?N u = Some us" for u us
    using that t(1) by (cases "u = t") (auto simp: T)
  have keep: "\<exists>us. nT ?N u = Some us \<and> session_up us = session_up vs \<and> ts_scheduled us = ts_scheduled vs \<and>
      ts_keepalive_timer us = ts_keepalive_timer vs \<and> ts_healthcheck_timer us = ts_healthcheck_timer vs \<and>
      ts_ssh_op_head us = (if u = t then ts_ssh_op_head vs @ [?q] else ts_ssh_op_head vs)" if "nT N u = Some vs" for u vs
    using that t(1) by (cases "u = t") (auto simp: T)
  have other: "nQ ?N q = nQ N q" if "nQ N q = Some x" for q x using that new by (auto simp: Q)
  show "queues_ok ?N"
  proof (rule queues_okI, unfold sel)
    fix u us assume us: "nT ?N u = Some us"
    from old [OF us] obtain vs where vs: "nT N u = Some vs" "session_up us = session_up vs"
      "ts_ssh_op_head us = (if u = t then ts_ssh_op_head vs @ [?q] else ts_ssh_op_head vs)" by blast
    then show "distinct (ts_ssh_op_head us)" using queue_distinct [OF ok vs(1)] out [OF vs(1)] by simp
    show "session_up us" if "ts_ssh_op_head us \<noteq> []"
      using that vs t queue_up [OF ok vs(1), of "hd (ts_ssh_op_head vs)"] by (cases "u = t") auto
    show "\<exists>so. nQ ?N q = Some so \<and> so_transport so = u \<and> nP N (client_asm (so_client so)) = Some u"
      if "q \<in> set (ts_ssh_op_head us)" for q
    proof (cases "q = ?q")
      case True
      with that vs out [OF vs(1)] so show ?thesis by (auto simp: Q split: if_splits)
    next
      case False
      with that vs(3) have "q \<in> set (ts_ssh_op_head vs)" by (auto split: if_splits)
      with False queue_member [OF ok vs(1) this] show ?thesis by (auto simp: Q)
    qed
  qed
  show "timeouts_ok ?N"
  proof (rule timeouts_okI, unfold sel)
    fix tm q assume tm: "tm \<in> set (nM N)" "tm_fn tm = Ssh_timeout q"
    from timeout_queued [OF ok tm] obtain x us where x: "nQ N q = Some x" "so_timer x = tm_handle tm"
      "nT N (so_transport x) = Some us" "q \<in> set (ts_ssh_op_head us)" .
    from keep [OF x(3)] obtain vs where "nT ?N (so_transport x) = Some vs" "q \<in> set (ts_ssh_op_head vs)"
      using x(4) by (metis UnI1 set_append)
    with x other [OF x(1)] show "\<exists>so ts. nQ ?N q = Some so \<and> so_timer so = tm_handle tm \<and> nT ?N (so_transport so) = Some ts \<and>
        q \<in> set (ts_ssh_op_head ts)" by auto
  qed
  show "execs_ok B ?N"
  proof (rule execs_okI, unfold sel)
    fix q assume q: "Assembly_ssh_exec q \<in> set (nJ N)"
    from exec_first [OF ok q] obtain x us rest where x: "nQ N q = Some x" "so_transport x \<notin> B" "nT N (so_transport x) = Some us"
      "ts_ssh_op_head us = q # rest" "ts_scheduled us" .
    from keep [OF x(3)] obtain vs rest' where "nT ?N (so_transport x) = Some vs" "ts_ssh_op_head vs = q # rest'" "ts_scheduled vs"
      using x(4,5) by (metis append_Cons)
    with x other [OF x(1)] show "\<exists>so ts rest. nQ ?N q = Some so \<and> so_transport so \<notin> B \<and> nT ?N (so_transport so) = Some ts \<and>
        ts_ssh_op_head ts = q # rest \<and> ts_scheduled ts" by auto
  next
    fix u us assume "u \<in> B" "nT ?N u = Some us"
    then show "ts_scheduled us" using old busy_scheduled [OF ok] by metis
  qed
  show "keepalives_ok ?N"
  proof (rule keepalives_okI, unfold sel)
    fix tm u assume tm: "tm \<in> set (nM N)" "tm_fn tm = Ssh_keepalive_send u"
    from keepalive_known [OF ok tm] obtain us where "nT N u = Some us" "ts_keepalive_timer us = tm_handle tm" "session_up us" .
    with keep show "\<exists>ts. nT ?N u = Some ts \<and> ts_keepalive_timer ts = tm_handle tm \<and> session_up ts" by metis
  qed
  show "checks_ok ?N"
  proof (rule checks_okI, unfold sel)
    fix tm a assume tm: "tm \<in> set (nM N)" "tm_fn tm = Assembly_healthcheck a"
    from check_known [OF ok tm] obtain u us where us: "nP N a = Some u" "nT N u = Some us" "ts_healthcheck_timer us = tm_handle tm"
      "session_up us" "\<forall>q \<in> set (ts_ssh_op_head us). \<not> is_check N a q" .
    from keep [OF us(2)] us obtain vs where vs: "nT ?N u = Some vs" "ts_healthcheck_timer vs = tm_handle tm" "session_up vs"
      "set (ts_ssh_op_head vs) \<subseteq> insert ?q (set (ts_ssh_op_head us))"
      by (metis Un_insert_right empty_set insert_is_Un list.simps(15) set_append subset_insertI sup_bot.right_neutral order_refl)
    have "so_client so \<noteq> Healthcheck a" using check [of a] tm by blast
    with vs(4) us(5) have "\<forall>q \<in> set (ts_ssh_op_head vs). \<not> is_check ?N a q" unfolding check_eq by auto
    with us(1) vs(1-3) show "\<exists>t ts. nP N a = Some t \<and> nT ?N t = Some ts \<and> ts_healthcheck_timer ts = tm_handle tm \<and> session_up ts \<and>
        (\<forall>q \<in> set (ts_ssh_op_head ts). \<not> is_check ?N a q)" by blast
  next
    fix u us a p p' assume us: "nT ?N u = Some us" "p \<in> set (ts_ssh_op_head us)" "p' \<in> set (ts_ssh_op_head us)"
      "is_check ?N a p" "is_check ?N a p'"
    from old [OF us(1)] obtain vs where vs: "nT N u = Some vs"
      "ts_ssh_op_head us = (if u = t then ts_ssh_op_head vs @ [?q] else ts_ssh_op_head vs)" by blast
    have "p \<in> set (ts_ssh_op_head vs) \<or> p = ?q \<and> u = t" "p' \<in> set (ts_ssh_op_head vs) \<or> p' = ?q \<and> u = t"
      using us(2,3) vs(2) by (auto split: if_splits)
    moreover have "vs = ts" if "u = t" using that vs(1) t(1) by simp
    ultimately show "p = p'"
      using us(4,5) check [of a] check_once [OF ok vs(1)] out [OF vs(1)] unfolding check_eq by metis
  qed
  show "conns_ok ?N"
    by (rule conns_cong [OF ok]) (use t(1) in \<open>auto simp: gone_def in_state_def\<close>)
qed

text \<open>Fields of a command that nothing pending depends on.\<close>

lemma net_ok_command:
  assumes ok: "net_ok B N" and so: "nQ N q = Some so" and eqs: "so_client so' = so_client so" "so_transport so' = so_transport so"
    and tmr: "so_timer so' = so_timer so \<or> (\<forall>tm \<in> set (nM N). tm_fn tm \<noteq> Ssh_timeout q)"
  shows "net_ok B (N\<lparr>nQ := (nQ N)(q \<mapsto> so')\<rparr>)" (is "net_ok B ?N")
proof (rule net_okI)
  have sel: "nT ?N = nT N" "nP ?N = nP N" "nM ?N = nM N" "nJ ?N = nJ N" "n_trans ?N = n_trans N" "n_sshop ?N = n_sshop N"
    "n_handle ?N = n_handle N" by simp_all
  have Q: "nQ ?N p = (if p = q then Some so' else nQ N p)" for p by simp
  have keep: "\<exists>x'. nQ ?N p = Some x' \<and> so_client x' = so_client x \<and> so_transport x' = so_transport x \<and>
      (so_timer x' = so_timer x \<or> (\<forall>tm \<in> set (nM N). tm_fn tm \<noteq> Ssh_timeout p))" if "nQ N p = Some x" for p x
    using that so eqs tmr by (auto simp: Q)
  have check: "is_check ?N = is_check N" using so eqs by (auto simp: is_check_def fun_eq_iff)
  have preds: "gone ?N = gone N" "in_state ?N = in_state N" by (simp_all add: gone_def in_state_def fun_eq_iff)
  show "fresh_ok ?N" using net_okD(1) [OF ok] so unfolding fresh_ok_def sel Q by auto
  show "queues_ok ?N"
    by (rule queues_okI; (unfold sel)?; metis queue_distinct [OF ok] queue_up [OF ok] queue_member [OF ok] keep
        list.set_intros(1) neq_Nil_conv)
  show "timeouts_ok ?N"
    by (rule timeouts_okI; (unfold sel)?; metis timeout_queued [OF ok] keep)
  show "execs_ok B ?N"
    by (rule execs_okI; (unfold sel)?; metis exec_first [OF ok] busy_scheduled [OF ok] keep)
  show "keepalives_ok ?N" using net_okD(5) [OF ok] unfolding keepalives_ok_def sel .
  show "checks_ok ?N" using net_okD(6) [OF ok] unfolding checks_ok_def sel check .
  show "conns_ok ?N" using net_okD(7) [OF ok] unfolding conns_ok_def sel preds .
qed

section \<open>Freeing\<close>

text \<open>Commands that are in no queue.\<close>

lemma net_ok_free_commands:
  assumes ok: "net_ok B N" and out: "\<And>t ts q. nT N t = Some ts \<Longrightarrow> q \<in> set (ts_ssh_op_head ts) \<Longrightarrow> q \<notin> X"
  shows "net_ok B (N\<lparr>nQ := (\<lambda>q. if q \<in> X then None else nQ N q)\<rparr>)" (is "net_ok B ?N")
proof (rule net_okI)
  have sel: "nT ?N = nT N" "nP ?N = nP N" "nM ?N = nM N" "nJ ?N = nJ N" "n_trans ?N = n_trans N" "n_sshop ?N = n_sshop N"
    "n_handle ?N = n_handle N" by simp_all
  have Q: "nQ ?N p = (if p \<in> X then None else nQ N p)" for p by simp
  have preds: "gone ?N = gone N" "in_state ?N = in_state N" by (simp_all add: gone_def in_state_def fun_eq_iff)
  have check: "is_check ?N a q \<Longrightarrow> is_check N a q" for a q by (auto simp: is_check_def split: if_splits)
  show "fresh_ok ?N" using net_okD(1) [OF ok] unfolding fresh_ok_def sel Q by auto
  show "queues_ok ?N"
    by (rule queues_okI; (unfold sel Q)?; metis queue_distinct [OF ok] queue_up [OF ok] queue_member [OF ok] out
        list.set_intros(1) neq_Nil_conv)
  show "timeouts_ok ?N"
    by (rule timeouts_okI; (unfold sel Q)?; metis timeout_queued [OF ok] out)
  show "execs_ok B ?N"
    by (rule execs_okI; (unfold sel Q)?; metis exec_first [OF ok] busy_scheduled [OF ok] out list.set_intros(1))
  show "keepalives_ok ?N" using net_okD(5) [OF ok] unfolding keepalives_ok_def sel .
  show "checks_ok ?N"
  proof (rule checks_okI, unfold sel)
    fix tm a assume tm: "tm \<in> set (nM N)" "tm_fn tm = Assembly_healthcheck a"
    from check_known [OF ok tm] obtain u us where "nP N a = Some u" "nT N u = Some us" "ts_healthcheck_timer us = tm_handle tm"
      "session_up us" "\<forall>q \<in> set (ts_ssh_op_head us). \<not> is_check N a q" .
    with check show "\<exists>t ts. nP N a = Some t \<and> nT N t = Some ts \<and> ts_healthcheck_timer ts = tm_handle tm \<and>
        session_up ts \<and> (\<forall>q \<in> set (ts_ssh_op_head ts). \<not> is_check ?N a q)" by blast
  qed (use check check_once [OF ok] in blast)
  show "conns_ok ?N" using net_okD(7) [OF ok] unfolding conns_ok_def sel preds .
qed

text \<open>A transport for which nothing is pending any more.\<close>

lemma net_ok_free_transport:
  assumes ok: "net_ok B N" and t: "nT N t = Some ts"
    and tmo: "\<And>tm q. tm \<in> set (nM N) \<Longrightarrow> tm_fn tm = Ssh_timeout q \<Longrightarrow> q \<notin> set (ts_ssh_op_head ts)"
    and ex: "\<And>q. Assembly_ssh_exec q \<in> set (nJ N) \<Longrightarrow> q \<notin> set (ts_ssh_op_head ts)"
    and ka: "\<And>tm. tm \<in> set (nM N) \<Longrightarrow> tm_fn tm \<noteq> Ssh_keepalive_send t"
    and hc: "\<And>tm a. tm \<in> set (nM N) \<Longrightarrow> nP N a = Some t \<Longrightarrow> tm_fn tm \<noteq> Assembly_healthcheck a"
    and idle: "\<And>a. nP N a = Some t \<Longrightarrow> idle N a"
  shows "net_ok B (N\<lparr>nT := (nT N)(t := None)\<rparr>)" (is "net_ok B ?N")
proof (rule net_okI)
  have sel: "nQ ?N = nQ N" "nP ?N = nP N" "nM ?N = nM N" "nJ ?N = nJ N" "n_trans ?N = n_trans N" "n_sshop ?N = n_sshop N"
    "n_handle ?N = n_handle N" "is_check ?N = is_check N" by (simp_all add: is_check_def fun_eq_iff)
  have T: "nT ?N u = (if u = t then None else nT N u)" for u by simp
  have old: "nT N u = Some us" if "nT ?N u = Some us" for u us using that by (simp split: if_splits)
  have keep: "nT ?N u = Some us" if "nT N u = Some us" "u \<noteq> t" for u us using that by simp
  show "fresh_ok ?N" using net_okD(1) [OF ok] unfolding fresh_ok_def sel T by auto
  show "queues_ok ?N"
    by (rule queues_okI; (unfold sel)?; drule old; metis queue_distinct [OF ok] queue_up [OF ok] queue_member [OF ok]
        list.set_intros(1) neq_Nil_conv)
  show "timeouts_ok ?N"
    by (rule timeouts_okI; (unfold sel)?; metis timeout_queued [OF ok] keep t tmo option.inject)
  show "execs_ok B ?N"
    by (rule execs_okI; (unfold sel)?; metis exec_first [OF ok] busy_scheduled [OF ok] keep old t ex option.inject list.set_intros(1))
  show "keepalives_ok ?N"
    by (rule keepalives_okI; (unfold sel)?; metis keepalive_known [OF ok] keep ka)
  show "checks_ok ?N"
    by (rule checks_okI; (unfold sel)?; metis check_known [OF ok] check_once [OF ok] keep old hc)
  show "conns_ok ?N"
  proof (rule conns_cong [OF ok])
    show "in_state ?N a S" if "in_state N a S" "\<not> idle N a" for a S
      using that idle keep unfolding in_state_def sel by metis
  qed (auto simp: gone_def)
qed

section \<open>A new transport\<close>

lemma net_ok_connect:
  assumes ok: "net_ok B N" and a: "gone N a" "idle N a" and ts: "ts_ssh_op_head ts = []" "ts_ssh_state ts = SSH_SESSION_CONNECTING"
    and B: "\<And>t. t \<in> B \<Longrightarrow> t < n_trans N"
  shows "net_ok B (N\<lparr>nT := (nT N)(n_trans N \<mapsto> ts), nP := (nP N)(a \<mapsto> n_trans N), n_trans := Suc (n_trans N)\<rparr>)" (is "net_ok B ?N")
proof (rule net_okI)
  let ?t = "n_trans N"
  have sel: "nQ ?N = nQ N" "nM ?N = nM N" "nJ ?N = nJ N" "n_sshop ?N = n_sshop N"
    "n_handle ?N = n_handle N" "is_check ?N = is_check N" by (simp_all add: is_check_def fun_eq_iff)
  have P: "nP ?N b = (if b = a then Some ?t else nP N b)" for b by simp
  have new: "nT N ?t = None" "nP N b \<noteq> Some ?t" for b
    using net_okD(1) [OF ok] by (cases "nT N ?t"; force simp: fresh_ok_def)+
  have old: "nT N u = Some us \<or> u = ?t \<and> us = ts" if "nT ?N u = Some us" for u us
    using that by (simp split: if_splits)
  have keep: "nT ?N u = Some us \<and> u \<noteq> ?t" if "nT N u = Some us" for u us
    using that new by auto
  have alive: "nP ?N b = Some u" if "nP N b = Some u" "nT N u = Some us" for b u us
    using that a(1) by (auto simp: gone_def)
  show "fresh_ok ?N" using net_okD(1) [OF ok] new unfolding fresh_ok_def sel by (auto simp: less_SucI dest: less_imp_neq)
  show "queues_ok ?N"
  proof (rule queues_okI)
    fix u us assume us: "nT ?N u = Some us"
    from old [OF us] ts show "distinct (ts_ssh_op_head us)" using queue_distinct [OF ok] by auto
    from old [OF us] ts show "session_up us" if "ts_ssh_op_head us \<noteq> []"
      using that queue_up [OF ok, of u us "hd (ts_ssh_op_head us)"] by auto
    from old [OF us] ts show "\<exists>so. nQ ?N q = Some so \<and> so_transport so = u \<and> nP ?N (client_asm (so_client so)) = Some u"
      if "q \<in> set (ts_ssh_op_head us)" for q
      using that queue_member [OF ok, of u us q] alive unfolding sel by (metis empty_iff empty_set)
  qed
  show "timeouts_ok ?N"
    by (rule timeouts_okI; (unfold sel)?; metis timeout_queued [OF ok] keep)
  show "execs_ok B ?N"
    by (rule execs_okI; (unfold sel)?; metis exec_first [OF ok] busy_scheduled [OF ok] keep old B less_irrefl)
  show "keepalives_ok ?N"
    by (rule keepalives_okI; (unfold sel)?; metis keepalive_known [OF ok] keep)
  show "checks_ok ?N"
  proof (rule checks_okI, unfold sel)
    fix tm b assume tm: "tm \<in> set (nM N)" "tm_fn tm = Assembly_healthcheck b"
    from check_known [OF ok tm] obtain u us where us: "nP N b = Some u" "nT N u = Some us" "ts_healthcheck_timer us = tm_handle tm"
      "session_up us" "\<forall>q \<in> set (ts_ssh_op_head us). \<not> is_check N b q" .
    with keep [OF us(2)] alive [OF us(1,2)] show "\<exists>t ts. nP ?N b = Some t \<and> nT ?N t = Some ts \<and> ts_healthcheck_timer ts = tm_handle tm \<and>
        session_up ts \<and> (\<forall>q \<in> set (ts_ssh_op_head ts). \<not> is_check N b q)" by blast
  next
    fix u us b p p' assume us: "nT ?N u = Some us" "p \<in> set (ts_ssh_op_head us)" "p' \<in> set (ts_ssh_op_head us)"
      "is_check N b p" "is_check N b p'"
    from old [OF us(1)] ts us(2) have "nT N u = Some us" by auto
    from check_once [OF ok this us(2-)] show "p = p'" .
  qed
  show "conns_ok ?N"
  proof (rule conns_cong [OF ok])
    show "gone ?N b" if "gone N b" "\<not> idle N b" for b
      using that a(2) new by (auto simp: gone_def)
    show "in_state ?N b S" if "in_state N b S" "\<not> idle N b" for b S
      using that a(2) keep unfolding in_state_def P by metis
  qed simp_all
qed

end
