(* ===== verification/Ssh_Channel.thy ===== *)
theory Ssh_Channel
  imports Ssh_Events
begin

text \<open>
  The execution of one remote command as a pipeline of nine stages, and the queue of commands of a
  transport.
\<close>

section \<open>The stages of a command\<close>

definition stages :: "ssh_exec_state list" where
  "stages = [SSH_CHANNEL_OPEN, SSH_CHANNEL_EXEC, SSH_CHANNEL_SEND_EOF, SSH_CHANNEL_WAIT_EOF,
     SSH_CHANNEL_CLOSE, SSH_CHANNEL_READ, SSH_CHANNEL_READ_STDERR, SSH_CHANNEL_WAIT_CLOSED,
     SSH_CHANNEL_FREE]"

datatype stage_result = Passed | Again | Stuck | Broken

definition answer_of :: "int \<Rightarrow> stage_result" where
  "answer_of rc = (if rc = LIBSSH2_ERROR_EAGAIN then Again else if rc = 0 then Passed else Broken)"

definition read_answer_of :: "int \<Rightarrow> stage_result" where
  "read_answer_of rc = (if rc = LIBSSH2_ERROR_EAGAIN then Again else if rc \<ge> 0 then Passed else Broken)"

fun stage_answer :: "ssh_answers \<Rightarrow> ssh_exec_state \<Rightarrow> stage_result" where
  "stage_answer h SSH_CHANNEL_OPEN =
     (if open_session_ok h then Passed else if last_errno h = LIBSSH2_ERROR_EAGAIN then Again else Stuck)"
| "stage_answer h SSH_CHANNEL_EXEC = answer_of (exec_rc h)"
| "stage_answer h SSH_CHANNEL_SEND_EOF = answer_of (send_eof_rc h)"
| "stage_answer h SSH_CHANNEL_WAIT_EOF = answer_of (wait_eof_rc h)"
| "stage_answer h SSH_CHANNEL_CLOSE = answer_of (close_rc h)"
| "stage_answer h SSH_CHANNEL_READ = read_answer_of (read_rc h)"
| "stage_answer h SSH_CHANNEL_READ_STDERR = read_answer_of (read_stderr_rc h)"
| "stage_answer h SSH_CHANNEL_WAIT_CLOSED = answer_of (wait_closed_rc h)"
| "stage_answer h SSH_CHANNEL_FREE = answer_of (free_rc h)"

text \<open>The first stage, from a given one on, that libssh2 does not let pass.\<close>

definition blocked_at :: "ssh_answers \<Rightarrow> ssh_exec_state \<Rightarrow> ssh_exec_state option" where
  "blocked_at h st = List.find (\<lambda>x. stage_answer h x \<noteq> Passed) (dropWhile (\<lambda>x. x \<noteq> st) stages)"

text \<open>
  The command after it moved from the stage \<open>st\<close> to \<open>x\<close>: it has a channel once it left the first stage,
  and the exit status of the remote command once the channel was closed.
\<close>

definition moved :: "ssh_answers \<Rightarrow> ssh_exec_state \<Rightarrow> ssh_exec_state \<Rightarrow> ssh_op \<Rightarrow> ssh_op" where
  "moved h st x so = so\<lparr>so_exec_state := x,
     so_channel := (so_channel so \<or> (st = SSH_CHANNEL_OPEN \<and> x \<noteq> SSH_CHANNEL_OPEN)),
     so_ssh_rc := (if st \<noteq> SSH_CHANNEL_FREE \<and> x = SSH_CHANNEL_FREE then exit_status h else so_ssh_rc so)\<rparr>"

definition pipeline :: "'sw env \<Rightarrow> trans_ptr \<Rightarrow> sshop_ptr \<Rightarrow> ssh_exec_state \<Rightarrow> 'sw cape \<Rightarrow> 'sw cape res" where
  "pipeline E t q st s =
     (case blocked_at (ssh E) st of
        None \<Rightarrow> bindE (ssh_op_complete E q (upd_sshop q (moved (ssh E) st SSH_CHANNEL_FREE) s)) (transport_schedule t)
      | Some x \<Rightarrow>
          (case stage_answer (ssh E) x of
             Again \<Rightarrow> Inr (loop_job_add (Assembly_ssh_exec q) (upd_sshop q (moved (ssh E) st x) s))
           | Stuck \<Rightarrow> Inr (upd_sshop q (moved (ssh E) st x) s)
           | _ \<Rightarrow> Inl AssertFail))"

lemma blocked_at_simps:
  "blocked_at h SSH_CHANNEL_OPEN =
     (if stage_answer h SSH_CHANNEL_OPEN = Passed then blocked_at h SSH_CHANNEL_EXEC else Some SSH_CHANNEL_OPEN)"
  "blocked_at h SSH_CHANNEL_EXEC =
     (if stage_answer h SSH_CHANNEL_EXEC = Passed then blocked_at h SSH_CHANNEL_SEND_EOF else Some SSH_CHANNEL_EXEC)"
  "blocked_at h SSH_CHANNEL_SEND_EOF =
     (if stage_answer h SSH_CHANNEL_SEND_EOF = Passed then blocked_at h SSH_CHANNEL_WAIT_EOF else Some SSH_CHANNEL_SEND_EOF)"
  "blocked_at h SSH_CHANNEL_WAIT_EOF =
     (if stage_answer h SSH_CHANNEL_WAIT_EOF = Passed then blocked_at h SSH_CHANNEL_CLOSE else Some SSH_CHANNEL_WAIT_EOF)"
  "blocked_at h SSH_CHANNEL_CLOSE =
     (if stage_answer h SSH_CHANNEL_CLOSE = Passed then blocked_at h SSH_CHANNEL_READ else Some SSH_CHANNEL_CLOSE)"
  "blocked_at h SSH_CHANNEL_READ =
     (if stage_answer h SSH_CHANNEL_READ = Passed then blocked_at h SSH_CHANNEL_READ_STDERR else Some SSH_CHANNEL_READ)"
  "blocked_at h SSH_CHANNEL_READ_STDERR =
     (if stage_answer h SSH_CHANNEL_READ_STDERR = Passed then blocked_at h SSH_CHANNEL_WAIT_CLOSED
      else Some SSH_CHANNEL_READ_STDERR)"
  "blocked_at h SSH_CHANNEL_WAIT_CLOSED =
     (if stage_answer h SSH_CHANNEL_WAIT_CLOSED = Passed then blocked_at h SSH_CHANNEL_FREE
      else Some SSH_CHANNEL_WAIT_CLOSED)"
  "blocked_at h SSH_CHANNEL_FREE = (if stage_answer h SSH_CHANNEL_FREE = Passed then None else Some SSH_CHANNEL_FREE)"
  by (simp_all add: blocked_at_def stages_def del: stage_answer.simps)

lemma upd_sshop_again: "upd_sshop q f (upd_sshop q g s) = upd_sshop q (f \<circ> g) s"
  by (simp add: upd_sshop_def option.map_comp)

text \<open>A command that is in the stage \<open>st\<close>.\<close>

definition in_stage :: "'sw cape \<Rightarrow> sshop_ptr \<Rightarrow> ssh_exec_state \<Rightarrow> bool" where
  "in_stage s q st \<longleftrightarrow> (case sshops s q of None \<Rightarrow> False | Some so \<Rightarrow> so_exec_state so = st)"

lemma in_stage_moved [simp]: "in_stage s q st \<Longrightarrow> in_stage (upd_sshop q (moved h st x) s) q x"
  by (auto simp: in_stage_def upd_sshop_def moved_def split: option.splits)

lemma moved_stay: "in_stage s q st \<Longrightarrow> upd_sshop q (moved h st st) s = s"
  by (auto simp: in_stage_def upd_sshop_def moved_def fun_upd_idem split: option.splits)

lemma moved_moved:
  assumes "n \<noteq> SSH_CHANNEL_OPEN" and "x \<noteq> SSH_CHANNEL_OPEN" and "st \<noteq> SSH_CHANNEL_FREE"
    and "n = SSH_CHANNEL_FREE \<longrightarrow> x = SSH_CHANNEL_FREE"
  shows "moved h n x \<circ> moved h st n = moved h st x"
  using assms by (auto simp: moved_def fun_eq_iff)

lemma blocked_at_later:
  "blocked_at h n = Some x \<Longrightarrow> n \<noteq> SSH_CHANNEL_OPEN \<Longrightarrow> x \<noteq> SSH_CHANNEL_OPEN"
  "blocked_at h SSH_CHANNEL_FREE = Some x \<Longrightarrow> x = SSH_CHANNEL_FREE"
  by (cases n) (auto simp: blocked_at_simps simp del: stage_answer.simps split: if_splits)

text \<open>One stage of the pipeline.\<close>

lemma pipeline_pass:
  assumes "blocked_at (ssh E) st = blocked_at (ssh E) n" and "n \<noteq> SSH_CHANNEL_OPEN" and "st \<noteq> SSH_CHANNEL_FREE"
  shows "pipeline E t q st s = pipeline E t q n (upd_sshop q (moved (ssh E) st n) s)"
proof -
  have "moved (ssh E) n SSH_CHANNEL_FREE \<circ> moved (ssh E) st n = moved (ssh E) st SSH_CHANNEL_FREE"
    using assms by (intro moved_moved) auto
  moreover have "moved (ssh E) n x \<circ> moved (ssh E) st n = moved (ssh E) st x" if "blocked_at (ssh E) n = Some x" for x
    using assms blocked_at_later [of "ssh E"] that by (intro moved_moved) auto
  ultimately show ?thesis
    by (auto simp: pipeline_def assms(1) upd_sshop_again split: option.splits stage_result.splits)
qed

lemma pipeline_block:
  assumes "blocked_at (ssh E) st = Some st" and "in_stage s q st"
  shows "pipeline E t q st s = (case stage_answer (ssh E) st of
     Again \<Rightarrow> Inr (loop_job_add (Assembly_ssh_exec q) s) | Stuck \<Rightarrow> Inr s | _ \<Rightarrow> Inl AssertFail)"
  using assms by (simp add: pipeline_def moved_stay split: stage_result.splits)


lemma moved_plain:
  "st \<noteq> SSH_CHANNEL_OPEN \<Longrightarrow> n \<noteq> SSH_CHANNEL_FREE \<Longrightarrow>
   upd_sshop q (moved h st n) s = exec_state_set q n s"
  by (simp add: exec_state_set_def moved_def [abs_def])

lemma moved_open:
  "upd_sshop q (moved h SSH_CHANNEL_OPEN SSH_CHANNEL_EXEC) s =
   exec_state_set q SSH_CHANNEL_EXEC (upd_sshop q (\<lambda>so. so\<lparr>so_channel := True\<rparr>) s)"
  unfolding exec_state_set_def upd_sshop_again
  by (rule arg_cong [where f = "\<lambda>f. upd_sshop q f s"]) (rule ext, simp add: moved_def)

lemma moved_closed:
  "upd_sshop q (moved h SSH_CHANNEL_WAIT_CLOSED SSH_CHANNEL_FREE) s =
   exec_state_set q SSH_CHANNEL_FREE (upd_sshop q (\<lambda>so. so\<lparr>so_ssh_rc := exit_status h\<rparr>) s)"
  unfolding exec_state_set_def upd_sshop_again
  by (rule arg_cong [where f = "\<lambda>f. upd_sshop q f s"]) (rule ext, simp add: moved_def)

lemmas answer_defs = answer_of_def read_answer_of_def job_repeat_schedule_def LIBSSH2_ERROR_EAGAIN_def

lemma channel_free_pipeline:
  assumes "in_stage s q SSH_CHANNEL_FREE"
  shows "channel_free E t q s = pipeline E t q SSH_CHANNEL_FREE s"
proof (cases "stage_answer (ssh E) SSH_CHANNEL_FREE = Passed")
  case True
  then show ?thesis using assms
    by (simp add: channel_free_def pipeline_def blocked_at_simps moved_stay answer_of_def LIBSSH2_ERROR_EAGAIN_def
        split: if_splits)
next
  case False
  then have "blocked_at (ssh E) SSH_CHANNEL_FREE = Some SSH_CHANNEL_FREE"
    unfolding blocked_at_simps(9) by simp
  from pipeline_block [OF this assms] False show ?thesis
    by (auto simp: channel_free_def answer_defs split: if_splits)
qed

lemma channel_wait_closed_pipeline:
  assumes "in_stage s q SSH_CHANNEL_WAIT_CLOSED"
  shows "channel_wait_closed E t q s = pipeline E t q SSH_CHANNEL_WAIT_CLOSED s"
proof (cases "stage_answer (ssh E) SSH_CHANNEL_WAIT_CLOSED = Passed")
  case True
  then have "blocked_at (ssh E) SSH_CHANNEL_WAIT_CLOSED = blocked_at (ssh E) SSH_CHANNEL_FREE"
    unfolding blocked_at_simps(8) by simp
  note pass = pipeline_pass [OF this]
  have "pipeline E t q SSH_CHANNEL_WAIT_CLOSED s =
      channel_free E t q (upd_sshop q (moved (ssh E) SSH_CHANNEL_WAIT_CLOSED SSH_CHANNEL_FREE) s)"
    unfolding channel_free_pipeline [OF in_stage_moved [OF assms]] by (rule pass) simp_all
  with True show ?thesis
    by (simp add: channel_wait_closed_def moved_closed answer_defs split: if_splits)
next
  case False
  then have "blocked_at (ssh E) SSH_CHANNEL_WAIT_CLOSED = Some SSH_CHANNEL_WAIT_CLOSED"
    unfolding blocked_at_simps(8) by simp
  from pipeline_block [OF this assms] False show ?thesis
    by (auto simp: channel_wait_closed_def answer_defs split: if_splits)
qed

lemma channel_read_stderr_pipeline:
  assumes "in_stage s q SSH_CHANNEL_READ_STDERR"
  shows "channel_read_stderr E t q s = pipeline E t q SSH_CHANNEL_READ_STDERR s"
proof (cases "stage_answer (ssh E) SSH_CHANNEL_READ_STDERR = Passed")
  case True
  then have "blocked_at (ssh E) SSH_CHANNEL_READ_STDERR = blocked_at (ssh E) SSH_CHANNEL_WAIT_CLOSED"
    unfolding blocked_at_simps(7) by simp
  note pass = pipeline_pass [OF this]
  have "pipeline E t q SSH_CHANNEL_READ_STDERR s =
      channel_wait_closed E t q (upd_sshop q (moved (ssh E) SSH_CHANNEL_READ_STDERR SSH_CHANNEL_WAIT_CLOSED) s)"
    unfolding channel_wait_closed_pipeline [OF in_stage_moved [OF assms]] by (rule pass) simp_all
  with True show ?thesis
    by (simp add: channel_read_stderr_def moved_plain answer_defs split: if_splits)
next
  case False
  then have "blocked_at (ssh E) SSH_CHANNEL_READ_STDERR = Some SSH_CHANNEL_READ_STDERR"
    unfolding blocked_at_simps(7) by simp
  from pipeline_block [OF this assms] False show ?thesis
    by (auto simp: channel_read_stderr_def answer_defs split: if_splits)
qed

lemma channel_read_pipeline:
  assumes "in_stage s q SSH_CHANNEL_READ"
  shows "channel_read E t q s = pipeline E t q SSH_CHANNEL_READ s"
proof (cases "stage_answer (ssh E) SSH_CHANNEL_READ = Passed")
  case True
  then have "blocked_at (ssh E) SSH_CHANNEL_READ = blocked_at (ssh E) SSH_CHANNEL_READ_STDERR"
    unfolding blocked_at_simps(6) by simp
  note pass = pipeline_pass [OF this]
  have "pipeline E t q SSH_CHANNEL_READ s =
      channel_read_stderr E t q (upd_sshop q (moved (ssh E) SSH_CHANNEL_READ SSH_CHANNEL_READ_STDERR) s)"
    unfolding channel_read_stderr_pipeline [OF in_stage_moved [OF assms]] by (rule pass) simp_all
  with True show ?thesis
    by (simp add: channel_read_def moved_plain answer_defs split: if_splits)
next
  case False
  then have "blocked_at (ssh E) SSH_CHANNEL_READ = Some SSH_CHANNEL_READ"
    unfolding blocked_at_simps(6) by simp
  from pipeline_block [OF this assms] False show ?thesis
    by (auto simp: channel_read_def answer_defs split: if_splits)
qed

lemma channel_close_pipeline:
  assumes "in_stage s q SSH_CHANNEL_CLOSE"
  shows "channel_close E t q s = pipeline E t q SSH_CHANNEL_CLOSE s"
proof (cases "stage_answer (ssh E) SSH_CHANNEL_CLOSE = Passed")
  case True
  then have "blocked_at (ssh E) SSH_CHANNEL_CLOSE = blocked_at (ssh E) SSH_CHANNEL_READ"
    unfolding blocked_at_simps(5) by simp
  note pass = pipeline_pass [OF this]
  have "pipeline E t q SSH_CHANNEL_CLOSE s =
      channel_read E t q (upd_sshop q (moved (ssh E) SSH_CHANNEL_CLOSE SSH_CHANNEL_READ) s)"
    unfolding channel_read_pipeline [OF in_stage_moved [OF assms]] by (rule pass) simp_all
  with True show ?thesis
    by (simp add: channel_close_def moved_plain answer_defs split: if_splits)
next
  case False
  then have "blocked_at (ssh E) SSH_CHANNEL_CLOSE = Some SSH_CHANNEL_CLOSE"
    unfolding blocked_at_simps(5) by simp
  from pipeline_block [OF this assms] False show ?thesis
    by (auto simp: channel_close_def answer_defs split: if_splits)
qed

lemma channel_wait_eof_pipeline:
  assumes "in_stage s q SSH_CHANNEL_WAIT_EOF"
  shows "channel_wait_eof E t q s = pipeline E t q SSH_CHANNEL_WAIT_EOF s"
proof (cases "stage_answer (ssh E) SSH_CHANNEL_WAIT_EOF = Passed")
  case True
  then have "blocked_at (ssh E) SSH_CHANNEL_WAIT_EOF = blocked_at (ssh E) SSH_CHANNEL_CLOSE"
    unfolding blocked_at_simps(4) by simp
  note pass = pipeline_pass [OF this]
  have "pipeline E t q SSH_CHANNEL_WAIT_EOF s =
      channel_close E t q (upd_sshop q (moved (ssh E) SSH_CHANNEL_WAIT_EOF SSH_CHANNEL_CLOSE) s)"
    unfolding channel_close_pipeline [OF in_stage_moved [OF assms]] by (rule pass) simp_all
  with True show ?thesis
    by (simp add: channel_wait_eof_def moved_plain answer_defs split: if_splits)
next
  case False
  then have "blocked_at (ssh E) SSH_CHANNEL_WAIT_EOF = Some SSH_CHANNEL_WAIT_EOF"
    unfolding blocked_at_simps(4) by simp
  from pipeline_block [OF this assms] False show ?thesis
    by (auto simp: channel_wait_eof_def answer_defs split: if_splits)
qed

lemma channel_send_eof_pipeline:
  assumes "in_stage s q SSH_CHANNEL_SEND_EOF"
  shows "channel_send_eof E t q s = pipeline E t q SSH_CHANNEL_SEND_EOF s"
proof (cases "stage_answer (ssh E) SSH_CHANNEL_SEND_EOF = Passed")
  case True
  then have "blocked_at (ssh E) SSH_CHANNEL_SEND_EOF = blocked_at (ssh E) SSH_CHANNEL_WAIT_EOF"
    unfolding blocked_at_simps(3) by simp
  note pass = pipeline_pass [OF this]
  have "pipeline E t q SSH_CHANNEL_SEND_EOF s =
      channel_wait_eof E t q (upd_sshop q (moved (ssh E) SSH_CHANNEL_SEND_EOF SSH_CHANNEL_WAIT_EOF) s)"
    unfolding channel_wait_eof_pipeline [OF in_stage_moved [OF assms]] by (rule pass) simp_all
  with True show ?thesis
    by (simp add: channel_send_eof_def moved_plain answer_defs split: if_splits)
next
  case False
  then have "blocked_at (ssh E) SSH_CHANNEL_SEND_EOF = Some SSH_CHANNEL_SEND_EOF"
    unfolding blocked_at_simps(3) by simp
  from pipeline_block [OF this assms] False show ?thesis
    by (auto simp: channel_send_eof_def answer_defs split: if_splits)
qed

lemma channel_exec_pipeline:
  assumes "in_stage s q SSH_CHANNEL_EXEC"
  shows "channel_exec E t q s = pipeline E t q SSH_CHANNEL_EXEC s"
proof (cases "stage_answer (ssh E) SSH_CHANNEL_EXEC = Passed")
  case True
  then have "blocked_at (ssh E) SSH_CHANNEL_EXEC = blocked_at (ssh E) SSH_CHANNEL_SEND_EOF"
    unfolding blocked_at_simps(2) by simp
  note pass = pipeline_pass [OF this]
  have "pipeline E t q SSH_CHANNEL_EXEC s =
      channel_send_eof E t q (upd_sshop q (moved (ssh E) SSH_CHANNEL_EXEC SSH_CHANNEL_SEND_EOF) s)"
    unfolding channel_send_eof_pipeline [OF in_stage_moved [OF assms]] by (rule pass) simp_all
  with True show ?thesis
    by (simp add: channel_exec_def moved_plain answer_defs split: if_splits)
next
  case False
  then have "blocked_at (ssh E) SSH_CHANNEL_EXEC = Some SSH_CHANNEL_EXEC"
    unfolding blocked_at_simps(2) by simp
  from pipeline_block [OF this assms] False show ?thesis
    by (auto simp: channel_exec_def answer_defs split: if_splits)
qed

lemma channel_open_pipeline:
  assumes "in_stage s q SSH_CHANNEL_OPEN"
  shows "channel_open E t q s = pipeline E t q SSH_CHANNEL_OPEN s"
proof (cases "stage_answer (ssh E) SSH_CHANNEL_OPEN = Passed")
  case True
  then have "blocked_at (ssh E) SSH_CHANNEL_OPEN = blocked_at (ssh E) SSH_CHANNEL_EXEC"
    unfolding blocked_at_simps(1) by simp
  note pass = pipeline_pass [OF this]
  have "pipeline E t q SSH_CHANNEL_OPEN s =
      channel_exec E t q (upd_sshop q (moved (ssh E) SSH_CHANNEL_OPEN SSH_CHANNEL_EXEC) s)"
    unfolding channel_exec_pipeline [OF in_stage_moved [OF assms]] by (rule pass) simp_all
  with True show ?thesis
    by (simp add: channel_open_def moved_open answer_defs split: if_splits)
next
  case False
  then have "blocked_at (ssh E) SSH_CHANNEL_OPEN = Some SSH_CHANNEL_OPEN"
    unfolding blocked_at_simps(1) by simp
  from pipeline_block [OF this assms] False show ?thesis
    by (auto simp: channel_open_def answer_defs split: if_splits)
qed

lemma ssh_exec_pipeline_lemma:
  assumes "sshops s q = Some so" and "transs s (so_transport so) = Some ts"
    and "ts_ssh_state ts = SSH_SESSION_CONNECTED"
  shows "assembly_ssh_exec E q s = pipeline E (so_transport so) q (so_exec_state so) s"
proof -
  have st: "in_stage s q (so_exec_state so)" using assms(1) by (simp add: in_stage_def)
  show ?thesis
    unfolding assembly_ssh_exec_def sshop_get_def trans_get_def assms derefE_simps bindE_simps Let_def assertE_def
    using st by (cases "so_exec_state so")
      (simp_all add: assms(3) channel_open_pipeline channel_exec_pipeline channel_send_eof_pipeline
        channel_wait_eof_pipeline channel_close_pipeline channel_read_pipeline channel_read_stderr_pipeline
        channel_wait_closed_pipeline channel_free_pipeline)
qed

text \<open>
  C8. One run of a command's job is a pipeline: from the stage the command is in, it passes every stage
  that libssh2 lets pass, in the order of the protocol. If it is asked to wait, the command stays in
  exactly the stage that blocked, with what it got so far, and its job is queued again; an error stops
  the program; a refused channel leaves the command waiting for its time-out; and if nothing blocks, the
  command completes with the remote exit status and the next command of the transport is scheduled.
\<close>

theorem ssh_exec_pipeline:
  assumes "sshops s q = Some so" and "transs s (so_transport so) = Some ts"
    and "ts_ssh_state ts = SSH_SESSION_CONNECTED"
  shows "assembly_ssh_exec E q s = pipeline E (so_transport so) q (so_exec_state so) s"
  using assms by (rule ssh_exec_pipeline_lemma)

definition demo_sshop :: ssh_op where
  "demo_sshop = new_ssh_op 0 (Healthcheck 0) ''uptime''"

theorem ssh_exec_pipeline_witness:
  "assembly_ssh_exec (demo_env\<lparr>ssh := demo_ssh\<lparr>read_rc := LIBSSH2_ERROR_EAGAIN\<rparr>\<rparr>) 0
     (demo_state\<lparr>sshops := [0 \<mapsto> demo_sshop]\<rparr>) =
   Inr (demo_state\<lparr>sshops := [0 \<mapsto> demo_sshop\<lparr>so_exec_state := SSH_CHANNEL_READ, so_channel := True\<rparr>],
     jobs := [Assembly_ssh_exec 0]\<rparr>)"
proof -
  let ?E = "demo_env\<lparr>ssh := demo_ssh\<lparr>read_rc := LIBSSH2_ERROR_EAGAIN\<rparr>\<rparr>"
  let ?s = "demo_state\<lparr>sshops := [0 \<mapsto> demo_sshop]\<rparr>"
  have s: "sshops ?s 0 = Some demo_sshop" "so_transport demo_sshop = 0" "so_exec_state demo_sshop = SSH_CHANNEL_OPEN"
    "transs ?s 0 = Some demo_trans" "ts_ssh_state demo_trans = SSH_SESSION_CONNECTED" "jobs ?s = []"
    by (simp_all add: demo_sshop_def new_ssh_op_def demo_state_defs)
  have "blocked_at (ssh ?E) SSH_CHANNEL_OPEN = Some SSH_CHANNEL_READ"
    by (simp add: blocked_at_simps demo_ssh_def answer_defs)
  with s ssh_exec_pipeline [of ?s 0 demo_sshop demo_trans ?E] show ?thesis
    by (simp add: pipeline_def answer_defs moved_def upd_sshop_def loop_job_add_def)
qed

section \<open>The queue of a transport\<close>

text \<open>
  Queueing a command on a connected transport: the command is appended to the queue with its time-out
  armed; a job is added exactly when the queue was empty, so that one command of a transport runs at a
  time and the others wait for it.
\<close>

lemma transport_execute_queues:
  assumes "transs s t = Some ts" and "ts_ssh_state ts = SSH_SESSION_CONNECTED"
    and "ts_scheduled ts \<longleftrightarrow> ts_ssh_op_head ts \<noteq> []" and "length command < COMMAND_MAX"
  shows "\<exists>s'. transport_execute (Some t) client msec command s = Inr s' \<and>
    transs s' = (transs s)(t \<mapsto> ts\<lparr>ts_ssh_op_head := ts_ssh_op_head ts @ [next_sshop s], ts_scheduled := True\<rparr>) \<and>
    sshops s' = (sshops s)(next_sshop s \<mapsto> (new_ssh_op t client command)\<lparr>so_timer := next_handle s'\<rparr>) \<and>
    timers s' = timers s @ [\<lparr>tm_handle = next_handle s', tm_fn = Ssh_timeout (next_sshop s),
       tm_nsec = msec * 1000000\<rparr>] \<and>
    jobs s' = (if ts_ssh_op_head ts = [] then jobs s @ [Assembly_ssh_exec (next_sshop s)] else jobs s)"
proof (cases "ts_ssh_op_head ts = []")
  case True
  with assms show ?thesis
    by (simp add: transport_execute_def transport_schedule_def heap_defs loop_timer_add_def loop_job_add_def
        snprintf_fits QB_TIME_NS_IN_MSEC_def Let_def)
next
  case False
  with assms(3) have same: "ts\<lparr>ts_ssh_op_head := x, ts_scheduled := True\<rparr> = ts\<lparr>ts_ssh_op_head := x\<rparr>" for x
    by (cases ts) simp
  from False assms show ?thesis
    by (simp add: same transport_execute_def heap_defs loop_timer_add_def snprintf_fits QB_TIME_NS_IN_MSEC_def Let_def)
qed

section \<open>Disconnecting\<close>

lemma ssh_op_delete_eq:
  "sshops s q = Some so \<Longrightarrow>
   ssh_op_delete q s = Inr ((loop_timer_del (so_timer so) s)\<lparr>sshops := (sshops s)(q := None)\<rparr>)"
  "sshops s q = None \<Longrightarrow> ssh_op_delete q s = Inl BadPtr"
  by (simp_all add: ssh_op_delete_def sshop_get_def loop_timer_del_def Let_def)

lemma ssh_op_delete_all:
  "foldE ssh_op_delete qs s = Inr s' \<Longrightarrow>
   s' = s\<lparr>sshops := (\<lambda>q. if q \<in> set qs then None else sshops s q),
          timers := filter (\<lambda>tm. \<forall>q \<in> set qs. \<forall>so. sshops s q = Some so \<longrightarrow> tm_handle tm \<noteq> so_timer so) (timers s)\<rparr>"
proof (induction qs arbitrary: s)
  case (Cons q qs)
  from Cons.prems obtain so where so: "sshops s q = Some so" and
    rest: "foldE ssh_op_delete qs ((loop_timer_del (so_timer so) s)\<lparr>sshops := (sshops s)(q := None)\<rparr>) = Inr s'"
    by (cases "sshops s q") (auto simp: ssh_op_delete_eq)
  have q: "q \<notin> set qs"
  proof
    assume "q \<in> set qs"
    then obtain xs ys where qs: "qs = xs @ q # ys" "q \<notin> set xs" by (meson split_list_first)
    let ?u = "(loop_timer_del (so_timer so) s)\<lparr>sshops := (sshops s)(q := None)\<rparr>"
    have "okE (\<lambda>v. sshops v q = None) (ssh_op_delete x v)" if "sshops v q = None" for x and v :: "'a cape"
      using that by (cases "sshops v x") (simp_all add: ssh_op_delete_eq loop_timer_del_def)
    then have "okE (\<lambda>v. sshops v q = None) (foldE ssh_op_delete xs ?u)"
      by (intro okE_foldE) simp_all
    with rest qs(1) show False
      by (cases "foldE ssh_op_delete xs ?u") (simp_all add: foldE_append ssh_op_delete_eq)
  qed
  have "filter (\<lambda>tm. \<forall>q' \<in> set qs. \<forall>so'. ((sshops s)(q := None)) q' = Some so' \<longrightarrow> tm_handle tm \<noteq> so_timer so')
      (filter (\<lambda>tm. tm_handle tm \<noteq> so_timer so) (timers s)) =
    filter (\<lambda>tm. \<forall>q' \<in> set (q # qs). \<forall>so'. sshops s q' = Some so' \<longrightarrow> tm_handle tm \<noteq> so_timer so') (timers s)"
    using so q by (auto simp: filter_filter intro!: filter_cong)
  with Cons.IH [OF rest] show ?case
    by (simp add: loop_timer_del_def fun_eq_iff)
qed (simp add: fun_eq_iff)

text \<open>Removing jobs and timers only.\<close>

definition trimmed :: "'sw cape \<Rightarrow> 'sw cape \<Rightarrow> bool" where
  "trimmed s s' \<longleftrightarrow> set (jobs s') \<subseteq> set (jobs s) \<and> set (timers s') \<subseteq> set (timers s) \<and>
     asms s' = asms s \<and> rscs s' = rscs s \<and> ops s' = ops s \<and> op_history_map s' = op_history_map s \<and>
     events s' = events s"

lemma trimmed_simps [simp]:
  "trimmed s s"
  "trimmed s s' \<Longrightarrow> trimmed s (loop_job_del j s')"
  "trimmed s s' \<Longrightarrow> trimmed s (loop_timer_del h s')"
  "trimmed s s' \<Longrightarrow> trimmed s (upd_trans t f s')"
  "trimmed s s' \<Longrightarrow> trimmed s (s'\<lparr>transs := T\<rparr>)"
  "trimmed s s' \<Longrightarrow> trimmed s (s'\<lparr>sshops := Q\<rparr>)"
  using set_remove1_subset [of j "jobs s'"]
  by (auto simp: trimmed_def loop_job_del_def loop_timer_del_def upd_trans_def)

lemma trimmed_delete_all: "foldE ssh_op_delete qs u = Inr s' \<Longrightarrow> trimmed s u \<Longrightarrow> trimmed s s'"
  by (drule ssh_op_delete_all) (auto simp: trimmed_def)

lemma unschedule_trimmed:
  assumes "transport_unschedule t s = Inr u"
  shows "(transs u)(t := None) = (transs s)(t := None)" "sshops u = sshops s" "timers u = timers s"
    "trimmed r s \<Longrightarrow> trimmed r u"
proof -
  from assms have "u = s \<or> u = upd_trans t (\<lambda>ts. ts\<lparr>ts_scheduled := False\<rparr>) s \<or>
      (\<exists>q. u = loop_job_del (Assembly_ssh_exec q) (upd_trans t (\<lambda>ts. ts\<lparr>ts_scheduled := False\<rparr>) s))"
    by (auto simp: transport_unschedule_def trans_get_def bindE_eq_Inr Let_def split: if_splits list.splits)
  then show "(transs u)(t := None) = (transs s)(t := None)" "sshops u = sshops s" "timers u = timers s"
    "trimmed r s \<Longrightarrow> trimmed r u"
    by (auto simp: fun_eq_iff) (auto simp: upd_trans_def loop_job_del_def)
qed

lemma disconnect_end_trimmed:
  "transs (disconnect_end a t ts v) = (transs v)(t := None)"
  "sshops (disconnect_end a t ts v) = sshops v"
  "trimmed s v \<Longrightarrow> trimmed s (disconnect_end a t ts v)"
  "set (timers (disconnect_end a t ts v)) \<subseteq> set (timers v)"
  "ts_ssh_state ts = SSH_SESSION_CONNECTED \<Longrightarrow>
     \<forall>tm \<in> set (timers (disconnect_end a t ts v)). tm_handle tm \<noteq> ts_keepalive_timer ts"
  unfolding disconnect_end_def Let_def
  by (simp_all) (auto simp: loop_timer_del_def loop_job_del_def)

text \<open>
  Disconnecting a node frees its transport and every command queued on it, cancels the time-outs of
  these commands and the timer of the health check (and, on a connected transport, the keep-alive
  timer), adds no job and no timer, and touches no other transport or command, no node, no
  resource, no operation and no history.
\<close>

lemma transport_disconnect_frees:
  assumes "transport_disconnect a s = Inr s'" and "asms s a = Some x" and "a_transport x = Some t"
    and "transs s t = Some ts"
  shows "transs s' = (transs s)(t := None) \<and>
    sshops s' = (\<lambda>q. if q \<in> set (ts_ssh_op_head ts) then None else sshops s q) \<and>
    trimmed s s' \<and>
    (\<forall>tm \<in> set (timers s'). tm_handle tm \<noteq> ts_healthcheck_timer ts \<and>
       (ts_ssh_state ts = SSH_SESSION_CONNECTED \<longrightarrow> tm_handle tm \<noteq> ts_keepalive_timer ts) \<and>
       (\<forall>q \<in> set (ts_ssh_op_head ts). \<forall>so. sshops s q = Some so \<longrightarrow> tm_handle tm \<noteq> so_timer so))"
proof -
  let ?s1 = "disconnect_begin a ts s"
  from assms obtain u v where
    u: "(if ts_ssh_state ts = SSH_SESSION_CONNECTED then transport_unschedule t ?s1 else Inr ?s1) = Inr u"
    and v: "foldE ssh_op_delete (ts_ssh_op_head ts) u = Inr v" and s': "s' = disconnect_end a t ts v"
    unfolding transport_disconnect_def asm_get_def trans_get_def
    by (auto simp: Let_def bindE_eq_Inr)
  have s1: "transs ?s1 = transs s" "sshops ?s1 = sshops s" "trimmed s ?s1"
    "\<forall>tm \<in> set (timers ?s1). tm_handle tm \<noteq> ts_healthcheck_timer ts"
    unfolding disconnect_begin_def Let_def
    by (simp_all) (simp_all add: loop_timer_del_def loop_job_del_def)
  have u': "(transs u)(t := None) = (transs s)(t := None)" "sshops u = sshops s" "trimmed s u"
    "timers u = timers ?s1"
    using u s1(1-3) by (auto simp: unschedule_trimmed split: if_splits)
  note del = ssh_op_delete_all [OF v]
  show ?thesis
    unfolding s' using u' s1(4) disconnect_end_trimmed [where a = a and t = t and ts = ts and v = v]
      trimmed_delete_all [OF v u'(3)]
    by (auto simp: del)
qed

end
