(* ===== verification/Ssh_Handlers.thy ===== *)
theory Ssh_Handlers
  imports Ssh_Net Ssh_Channel
begin

text \<open>
  The operations of \<^verbatim>\<open>trans_ssh.c\<close> that other handlers call, as operations on the net: queueing a command,
  disconnecting a failed node, completing and timing out a command, executing the first command of a
  queue. Each keeps the net consistent. \<open>good B s\<close>: the state is wired and its net is consistent, while the
  transports \<open>B\<close> are executing a command.
\<close>

section \<open>Writes seen from the net\<close>

lemma net_of_timer_del [simp]: "net_of (loop_timer_del h s) = net_disarm h (net_of s)"
  by (simp add: net_of_def net_disarm_def loop_timer_del_def tp_def fun_eq_iff tjobs_def ttimers_def filter_filter conj_commute)

lemma net_of_job_add [simp]: "transport_job j \<Longrightarrow> net_of (loop_job_add j s) = net_job j (net_of s)"
  by (simp add: net_of_def net_job_def loop_job_add_def tp_def fun_eq_iff tjobs_def ttimers_def)

lemma net_of_job_del [simp]: "transport_job j \<Longrightarrow> net_of (loop_job_del j s) = net_unjob j (net_of s)"
  by (simp add: net_of_def net_unjob_def loop_job_del_def tp_def fun_eq_iff tjobs_def ttimers_def filter_remove1)

lemma net_of_timer_add:
  "transport_timer f \<Longrightarrow> loop_timer_add f n s = (h, s') \<Longrightarrow> net_of s' = net_arm f n (net_of s) \<and> h = Suc (next_handle s)"
  by (auto simp: net_of_def net_arm_def loop_timer_add_def tp_def fun_eq_iff tjobs_def ttimers_def Let_def)

lemma net_of_upd_trans: "transs s t = Some ts \<Longrightarrow> net_of (upd_trans t f s) = net_set t (f ts) (net_of s)"
  by (simp add: net_of_def net_set_def upd_trans_def tp_def fun_eq_iff tjobs_def ttimers_def)

lemma net_of_upd_sshop: "sshops s q = Some so \<Longrightarrow> net_of (upd_sshop q f s) = (net_of s)\<lparr>nQ := (sshops s)(q \<mapsto> f so)\<rparr>"
  by (simp add: net_of_def upd_sshop_def tp_def fun_eq_iff tjobs_def ttimers_def)

lemma net_of_sshops: "net_of (s\<lparr>sshops := Q\<rparr>) = (net_of s)\<lparr>nQ := Q\<rparr>"
  by (simp add: net_of_def tp_def fun_eq_iff tjobs_def ttimers_def)

lemma net_of_take_job:
  "net_of (s\<lparr>jobs := remove1 j (jobs s)\<rparr>) = (if transport_job j then net_unjob j (net_of s) else net_of s)"
  by (simp add: net_of_def net_unjob_def tp_def fun_eq_iff tjobs_def ttimers_def filter_remove1 remove1_idem)

section \<open>Consistent states\<close>

definition good :: "trans_ptr set \<Rightarrow> 'sw cape \<Rightarrow> bool" where
  "good B s \<longleftrightarrow> net_ok B (net_of s) \<and> wired s"

lemma goodD: "good B s \<Longrightarrow> net_ok B (net_of s)" "good B s \<Longrightarrow> wired s"
  by (simp_all add: good_def)

lemma good_keeps:
  assumes "keeps shape f" and "wired s" and "okE (\<lambda>u. net_ok B (net_of u)) (f s)"
  shows "okE (good B) (f s)"
  using assms unfolding okE_def good_def by (metis keeps_D wired_shape)

lemma quiet_good: "good B s \<Longrightarrow> quiet s u \<Longrightarrow> good B u"
  by (auto simp: good_def intro: quiet_net_ok quiet_wired)

lemma quietly_good: "quietly f \<Longrightarrow> good B s \<Longrightarrow> okE (good B) (f s)"
  using quietly_okE [of f s s] quiet_good by (metis goodD(2) okE_mono quiet_refl)

lemma net_ok_release:
  assumes "net_ok B N" and "C \<subseteq> B"
  shows "net_ok C N"
  using assms unfolding net_ok_def execs_ok_def by blast

lemma good_release: "good B s \<Longrightarrow> C \<subseteq> B \<Longrightarrow> good C s"
  by (auto simp: good_def intro: net_ok_release)

section \<open>The queue\<close>

text \<open>No execution is pending for a transport that is not scheduled, or that is executing.\<close>

lemma no_exec:
  assumes "net_ok B N" and "nT N t = Some ts" and "\<not> ts_scheduled ts \<or> t \<in> B"
  shows "nQ N q = Some so \<Longrightarrow> so_transport so = t \<Longrightarrow> Assembly_ssh_exec q \<notin> set (nJ N)"
  using assms exec_first [OF assms(1), of q] by (metis option.inject)

lemma net_ok_schedule:
  assumes ok: "net_ok B N" and t: "nT N t = Some ts" "\<not> ts_scheduled ts" "t \<notin> B"
  shows "net_ok B (case ts_ssh_op_head ts of
     q # _ \<Rightarrow> net_job (Assembly_ssh_exec q) (net_set t (ts\<lparr>ts_scheduled := True\<rparr>) N)
   | [] \<Rightarrow> net_set t (ts\<lparr>ts_scheduled := False\<rparr>) N)"
proof -
  have set: "net_ok B (net_set t (ts\<lparr>ts_scheduled := sc\<rparr>) N)" for sc
  proof (rule net_ok_dequeue [OF ok t(1), where h = "ts_ssh_op_head ts" and sc = sc])
    show "ts\<lparr>ts_scheduled := sc\<rparr> = ts\<lparr>ts_ssh_op_head := ts_ssh_op_head ts, ts_scheduled := sc\<rparr>" by simp
    show "distinct (ts_ssh_op_head ts)" using queue_distinct [OF ok t(1)] .
  qed (use no_exec [OF ok t(1)] t(2,3) in auto)
  show ?thesis
  proof (cases "ts_ssh_op_head ts")
    case (Cons q qs)
    from queue_member [OF ok t(1), of q] Cons obtain so where so: "nQ N q = Some so" "so_transport so = t" by auto
    have "net_ok B (net_job (Assembly_ssh_exec q) (net_set t (ts\<lparr>ts_scheduled := True\<rparr>) N))"
    proof (rule net_ok_job [OF set])
      show "job_ok B (net_set t (ts\<lparr>ts_scheduled := True\<rparr>) N) (Assembly_ssh_exec q)"
        using so t Cons by (simp add: job_ok_def net_set_def)
      show "Assembly_ssh_exec q \<notin> set (nJ (net_set t (ts\<lparr>ts_scheduled := True\<rparr>) N))"
        using no_exec [OF ok t(1) _ so] t(2) by (simp add: net_set_def)
    qed simp
    then show ?thesis by (simp add: Cons)
  qed (simp add: set)
qed

lemma net_of_schedule:
  assumes "transport_schedule t s = Inr u" and "transs s t = Some ts"
  shows "net_of u = (case ts_ssh_op_head ts of
     q # _ \<Rightarrow> net_job (Assembly_ssh_exec q) (net_set t (ts\<lparr>ts_scheduled := True\<rparr>) (net_of s))
   | [] \<Rightarrow> net_set t (ts\<lparr>ts_scheduled := False\<rparr>) (net_of s))"
  using assms by (auto simp: transport_schedule_def trans_get_def net_of_upd_trans split: list.splits)

text \<open>The scheduling at the end of an execution.\<close>

lemma good_reschedule:
  assumes "net_ok {t} (net_of s)"
  shows "okE (\<lambda>u. net_ok {} (net_of u)) (transport_schedule t s)"
proof (rule okE_I)
  fix u assume u: "transport_schedule t s = Inr u"
  then obtain ts where ts: "transs s t = Some ts" by (auto simp: transport_schedule_def res_simps)
  let ?ts = "ts\<lparr>ts_scheduled := False\<rparr>"
  have off: "net_ok {} (net_set t ?ts (net_of s))"
  proof (rule net_ok_dequeue [OF net_ok_release [OF assms], where h = "ts_ssh_op_head ts" and sc = False])
    show "nT (net_of s) t = Some ts" using ts by simp
    show "?ts = ts\<lparr>ts_ssh_op_head := ts_ssh_op_head ts, ts_scheduled := False\<rparr>" by simp
    show "distinct (ts_ssh_op_head ts)" using queue_distinct [OF assms, of t ts] ts by simp
  qed (use no_exec [OF assms, of t ts] ts in auto)
  have "net_of u = (case ts_ssh_op_head ?ts of
     q # _ \<Rightarrow> net_job (Assembly_ssh_exec q) (net_set t (?ts\<lparr>ts_scheduled := True\<rparr>) (net_set t ?ts (net_of s)))
   | [] \<Rightarrow> net_set t (?ts\<lparr>ts_scheduled := False\<rparr>) (net_set t ?ts (net_of s)))"
    unfolding net_of_schedule [OF u ts] by (simp add: net_set_def split: list.splits)
  with net_ok_schedule [OF off, of t ?ts] show "net_ok {} (net_of u)" by (simp add: net_set_def)
qed

text \<open>A health check is queued when none is queued and none is going to be.\<close>

definition may_check :: "net \<Rightarrow> ssh_client \<Rightarrow> bool" where
  "may_check N client \<longleftrightarrow> (\<forall>a t ts. client = Healthcheck a \<longrightarrow> nP N a = Some t \<longrightarrow> nT N t = Some ts \<longrightarrow>
     (\<forall>tm \<in> set (nM N). tm_fn tm \<noteq> Assembly_healthcheck a) \<and> (\<forall>q \<in> set (ts_ssh_op_head ts). \<not> is_check N a q))"


lemma transport_execute_good:
  assumes good: "good B s" and a: "tp s (client_asm client) = p" and may: "may_check (net_of s) client"
  shows "okE (good B) (transport_execute p client ms cmd s)"
proof (rule good_keeps [OF shape.keeps_transport_execute goodD(2) [OF good]], rule okE_I)
  fix u assume u: "transport_execute p client ms cmd s = Inr u"
  let ?N = "net_of s"
  note ok = goodD(1) [OF good]
  from u obtain t ts where p: "p = Some t" and ts: "transs s t = Some ts"
    by (auto simp: transport_execute_def res_simps)
  show "net_ok B (net_of u)"
  proof (cases "session_up ts")
    case False
    with u p ts show ?thesis using ok by (simp add: transport_execute_def trans_get_def)
  next
    case True
    define q so where "q = next_sshop s" and "so = (new_ssh_op t client (snprintf COMMAND_MAX cmd))\<lparr>so_timer := Suc (next_handle s)\<rparr>"
    define ts' where "ts' = ts\<lparr>ts_ssh_op_head := ts_ssh_op_head ts @ [q]\<rparr>"
    define M where "M = ?N\<lparr>nT := (nT ?N)(t \<mapsto> ts'), nQ := (nQ ?N)(q \<mapsto> so), n_sshop := Suc q\<rparr>"
    have M: "net_ok B M"
      unfolding M_def ts'_def q_def net_of_sel(7) [symmetric]
    proof (rule net_ok_enqueue [OF ok])
      show "nT ?N t = Some ts" "session_up ts" using ts True by simp_all
      show "so_transport so = t" "nP ?N (client_asm (so_client so)) = Some t"
        using a p by (simp_all add: so_def new_ssh_op_def)
      show "(\<forall>tm \<in> set (nM ?N). tm_fn tm \<noteq> Assembly_healthcheck b) \<and> (\<forall>q \<in> set (ts_ssh_op_head ts). \<not> is_check ?N b q)"
        if "so_client so = Healthcheck b" for b
        using that may a p ts by (simp add: may_check_def so_def new_ssh_op_def)
    qed
    let ?K = "if ts_scheduled ts then M else (case ts_ssh_op_head ts' of
       x # _ \<Rightarrow> net_job (Assembly_ssh_exec x) (net_set t (ts'\<lparr>ts_scheduled := True\<rparr>) M)
     | [] \<Rightarrow> net_set t (ts'\<lparr>ts_scheduled := False\<rparr>) M)"
    have t: "nT M t = Some ts'" "ts_scheduled ts' = ts_scheduled ts" by (simp_all add: M_def ts'_def)
    have "t \<notin> B" if "\<not> ts_scheduled ts" using that busy_scheduled [OF ok, of t ts] ts by auto
    then have K: "net_ok B ?K" using M net_ok_schedule [OF M t(1)] t(2) by simp
    have Kq: "nQ ?K q = Some so" "\<exists>us. nT ?K t = Some us \<and> q \<in> set (ts_ssh_op_head us)" "n_handle ?K = next_handle s"
      by (cases "ts_ssh_op_head ts"; simp add: M_def net_job_def net_set_def ts'_def)+
    then have "net_ok B (net_arm (Ssh_timeout q) (ms * QB_TIME_NS_IN_MSEC) ?K)"
      by (intro net_ok_arm [OF K]) (auto simp: timer_ok_def so_def new_ssh_op_def)
    moreover have "net_of u = net_arm (Ssh_timeout q) (ms * QB_TIME_NS_IN_MSEC) ?K"
      using u p ts True
      by (auto simp: transport_execute_def transport_schedule_def heap_defs loop_timer_add_def loop_job_add_def Let_def
          net_of_def net_arm_def M_def q_def so_def ts'_def tp_def fun_eq_iff tjobs_def ttimers_def net_job_def net_set_def
          split: list.splits if_splits)
    ultimately show ?thesis by simp
  qed
qed

section \<open>Handlers that only queue commands\<close>

lemma may_check_action [simp]: "may_check N (Resource_action ra)"
  by (simp add: may_check_def)

lemma resource_action_good:
  assumes "good B s"
  shows "okE (good B) (transport_resource_action E a r p s)"
  unfolding transport_resource_action_def
proof (intro okE_intros okE_bind_get [where m = "resource_command _ _"], goal_cases)
  case (1 x)
  show ?case
  proof (rule okE_bind [OF quietly_okE [OF quiet_ref goodD(2) [OF assms] quiet_refl]], intro okE_intros
      okE_bind_get [where m = "resource_command _ _"])
    fix u op cmd assume "quiet s u"
    with 1 have "tp u a = a_transport x" by (simp add: quiet_def tp_def)
    then show "okE (good B) (transport_execute (a_transport x) (Resource_action \<lparr>ra_assembly = a, ra_resource = r, ra_pe_op = p\<rparr>)
        SSH_TIMEOUT cmd u)"
      by (intro transport_execute_good [OF quiet_good [OF assms \<open>quiet s u\<close>]]) simp_all
  qed
qed

lemma monitor_execute_good: "good B s \<Longrightarrow> okE (good B) (resource_monitor_execute E p s)"
  unfolding resource_monitor_execute_def
  by (intro okE_intros okE_bind_get [where m = "op_target _ _"] quietly_good [OF quiet_action_completed] resource_action_good)

lemma good_upd [simp]:
  "good B s \<Longrightarrow> good B (upd_op p f s)" "good B s \<Longrightarrow> good B (upd_rsc r (\<lambda>x. x\<lparr>r_monitor_op := m\<rparr>) s)"
  "good B s \<Longrightarrow> good B (s\<lparr>ops := z, next_op := n\<rparr>)" "good B s \<Longrightarrow> good B (s\<lparr>graph_updated := g\<rparr>)"
  "good B s \<Longrightarrow> \<not> transport_job j \<Longrightarrow> good B (loop_job_add j s)"
  "good B s \<Longrightarrow> good B (s\<lparr>graphs := gs, working_set := w\<rparr>)"
  by (erule quiet_good; simp)+

lemma monitor_start_good: "good B s \<Longrightarrow> okE (good B) (recurring_monitor_start E p s)"
  unfolding recurring_monitor_start_def
  by (intro okE_intros okE_bind [where Q = "good B"] monitor_execute_good quietly_good [OF quiet_ref]
      quietly_good [OF quiet_completed] quietly_good [OF quiet_unref]; simp)

lemma execute_cb_good: "good B s \<Longrightarrow> okE (good B) (resource_execute_cb E p s)"
  unfolding resource_execute_cb_def
  by (intro okE_intros okE_bind_get [where m = "op_target _ _"] okE_bind [where Q = "good B"] monitor_execute_good
      monitor_start_good resource_action_good quietly_good [OF quiet_completed] quietly_good [OF quiet_unref]
      quietly_good [OF quiet_action_completed] quietly_good [OF quiet_monitor_stop] quietly_good [OF quiet_history_delete]; simp)

lemma graph_exec_good:
  assumes "good B s"
  shows "okE (\<lambda>(b, u). good B u) (graph_exec_fns E (resource_execute_cb E) g x s)"
proof (cases x)
  case (Pair k i)
  have "okE (\<lambda>(b, u). good B u) (exec_rsc_action E (resource_execute_cb E) g i s)"
    unfolding exec_rsc_action_def graph_confirm_def
    by (intro okE_intros okE_bind [where Q = "good B"] execute_cb_good; simp add: assms quiet_good [OF assms])
  then show ?thesis
    by (cases k) (use assms in \<open>auto simp: Pair exec_pseudo_action_def exec_crmd_action_def
        exec_stonith_action_def graph_confirm_def quiet_good [OF assms] intro!: okE_intros\<close>)
qed

lemma process_next_job_good: "good B s \<Longrightarrow> okE (good B) (process_next_job E (resource_execute_cb E) g s)"
  unfolding process_next_job_def
  by (intro okE_intros okE_bind [where Q = "good B"] okE_foldE okE_bind [OF graph_exec_good]; auto)

lemma process_job_quiet:
  assumes "process_job E s = Inr s'"
  shows "quiet s s'"
proof (cases "working_set s")
  case True
  with assms show ?thesis by (auto simp: process_job_def pe_is_busy_processing_def)
next
  case False
  with assms have "process E s = Inr s'" by (simp add: process_job_def pe_is_busy_processing_def)
  then obtain d rc u where d: "pe_process_state E d (cape_debug s) (s\<lparr>pe_doc := d\<rparr>) = Inr (rc, u)"
    and s': "s' = (if rc \<noteq> 0 then schedule_processing u else u)" by (rule processE)
  have "quiet s u"
    using d by (auto simp: pe_process_state_def Let_def assertE_def split: if_splits)
  then show ?thesis by (simp add: s')
qed

lemma process_job_good: "good B s \<Longrightarrow> okE (good B) (process_job E s)"
  by (rule okE_I) (blast intro: quiet_good process_job_quiet)

section \<open>A failed node\<close>

text \<open>While a transport is connected, no connection attempt is pending.\<close>

definition up :: "'sw cape \<Rightarrow> asm_ptr \<Rightarrow> bool" where
  "up s a \<longleftrightarrow> in_state (net_of s) a {SSH_SESSION_CONNECTED}"

lemma upI: "tp s a = Some t \<Longrightarrow> transs s t = Some ts \<Longrightarrow> session_up ts \<Longrightarrow> up s a"
  by (simp add: up_def in_state_def)

lemma upE:
  assumes "up s a"
  obtains t ts where "tp s a = Some t" and "transs s t = Some ts" and "session_up ts"
  using assms by (auto simp: up_def in_state_def)

lemma up_idle:
  assumes ok: "net_ok B N" and up: "in_state N a {SSH_SESSION_CONNECTED}"
  shows "idle N a"
proof -
  have "\<not> gone N a" "\<not> in_state N a {SSH_SESSION_CONNECTING}" "\<not> in_state N a handshake"
    using up by (auto simp: in_state_def gone_def handshake_def)
  then have "conn_of j \<noteq> Some a" if "j \<in> set (nJ N)" for j
    using that conn_stage(1-3) [OF ok, of a] by (cases j) auto
  moreover have "tm_fn tm \<noteq> Instance_state_poll a" if "tm \<in> set (nM N)" for tm
    using that \<open>\<not> gone N a\<close> conn_stage(4) [OF ok] by blast
  ultimately show ?thesis by (simp add: idle_def)
qed

text \<open>All commands of a transport are given up: their time-outs are deleted, and the pending execution.\<close>

definition given_up :: "trans_ssh \<Rightarrow> (timer \<Rightarrow> bool) \<Rightarrow> net \<Rightarrow> net" where
  "given_up ts P N = N\<lparr>nM := filter (\<lambda>tm. P tm \<and> (\<forall>q \<in> set (ts_ssh_op_head ts). \<forall>so. nQ N q = Some so \<longrightarrow> tm_handle tm \<noteq> so_timer so)) (nM N),
     nJ := (if ts_scheduled ts \<and> ts_ssh_op_head ts \<noteq> [] then remove1 (Assembly_ssh_exec (hd (ts_ssh_op_head ts))) (nJ N) else nJ N)\<rparr>"

lemma given_up_sel [simp]:
  "nT (given_up ts P N) = nT N" "nQ (given_up ts P N) = nQ N" "nP (given_up ts P N) = nP N"
  by (simp_all add: given_up_def)

lemma given_up_jobs: "set (nJ (given_up ts P N)) \<subseteq> set (nJ N)"
  using set_remove1_subset [of _ "nJ N"] by (simp add: given_up_def)

lemma given_up_timers: "tm \<in> set (nM (given_up ts P N)) \<Longrightarrow> tm \<in> set (nM N) \<and> P tm"
  by (simp add: given_up_def)

lemma given_up_ok:
  assumes ok: "net_ok B N" and t: "nT N t = Some ts" and sc: "t \<in> B \<Longrightarrow> sc"
  shows "net_ok B (net_set t (ts\<lparr>ts_ssh_op_head := [], ts_scheduled := sc\<rparr>) (given_up ts P N))"
proof -
  let ?N = "given_up ts P N"
  have d: "distinct (nJ N)" "distinct (map tm_handle (nM N))" using net_okD(1) [OF ok] unfolding fresh_ok_def by blast+
  have N: "net_ok B ?N"
    by (rule net_ok_fewer [OF ok]) (use d given_up_jobs [of ts P N] in \<open>auto simp: given_up_def distinct_map_filter\<close>)
  show ?thesis
  proof (rule net_ok_dequeue [OF N _ refl])
    show "nT ?N t = Some ts" using t by simp
    show "Assembly_ssh_exec q \<notin> set (nJ ?N)" if q: "nQ ?N q = Some so" "so_transport so = t" for q so
    proof
      assume pending: "Assembly_ssh_exec q \<in> set (nJ ?N)"
      then have "Assembly_ssh_exec q \<in> set (nJ N)" using given_up_jobs by blast
      from exec_first [OF ok this] obtain x us rest where "nQ N q = Some x" "so_transport x \<notin> B"
        "nT N (so_transport x) = Some us" "ts_ssh_op_head us = q # rest" "ts_scheduled us" .
      with q t pending d(1) show False by (simp add: given_up_def)
    qed
    show "q \<in> set []" if tm: "tm \<in> set (nM ?N)" "tm_fn tm = Ssh_timeout q" "q \<in> set (ts_ssh_op_head ts)" for q tm
    proof -
      from timeout_queued [OF N tm(1,2)] obtain x us where "nQ ?N q = Some x" "so_timer x = tm_handle tm"
        "nT ?N (so_transport x) = Some us" "q \<in> set (ts_ssh_op_head us)" .
      with tm show ?thesis by (auto simp: given_up_def)
    qed
  qed (use sc in auto)
qed

definition disconnected :: "asm_ptr \<Rightarrow> trans_ptr \<Rightarrow> trans_ssh \<Rightarrow> net \<Rightarrow> net" where
  "disconnected a t ts N =
     (let G = given_up ts (\<lambda>tm. tm_handle tm \<noteq> ts_healthcheck_timer ts \<and> tm_handle tm \<noteq> ts_keepalive_timer ts) N
      in G\<lparr>nT := (nT N)(t := None), nQ := (\<lambda>q. if q \<in> set (ts_ssh_op_head ts) then None else nQ N q),
           nJ := remove1 (Ssh_assembly_connect a) (nJ G)\<rparr>)"

lemma unscheduled:
  assumes "transport_unschedule t s = Inr v" and "transs s t = Some ts"
  shows "v = (if ts_scheduled ts then
      (let r = upd_trans t (\<lambda>ts. ts\<lparr>ts_scheduled := False\<rparr>) s
       in if ts_ssh_op_head ts = [] then r else loop_job_del (Assembly_ssh_exec (hd (ts_ssh_op_head ts))) r) else s)"
  using assms by (auto simp: transport_unschedule_def trans_get_def Let_def split: list.splits)

lemma net_of_disconnect:
  assumes u: "transport_disconnect a s = Inr u" and t: "tp s a = Some t" "transs s t = Some ts" "session_up ts"
  shows "net_of u = disconnected a t ts (net_of s)"
proof -
  let ?s1 = "loop_timer_del (ts_healthcheck_timer ts) s"
  from u t obtain v w where v: "transport_unschedule t ?s1 = Inr v" and w: "foldE ssh_op_delete (ts_ssh_op_head ts) v = Inr w"
    and u': "u = (loop_job_del (Ssh_assembly_connect a) (loop_timer_del (ts_keepalive_timer ts) w))
       \<lparr>transs := (transs w)(t := None)\<rparr>"
    by (auto simp: transport_disconnect_def disconnect_begin_def disconnect_end_def Let_def res_simps tp_def
        bind_eq_Some_conv loop_job_del_def loop_timer_del_def)
  have s1: "transs ?s1 t = Some ts" using t(2) by (simp add: loop_timer_del_def)
  show ?thesis
    unfolding u' ssh_op_delete_all [OF w] unscheduled [OF v s1]
    by (auto simp: disconnected_def given_up_def net_of_def upd_trans_def loop_job_del_def loop_timer_del_def Let_def tp_def
        fun_eq_iff tjobs_def ttimers_def filter_filter filter_remove1 intro!: filter_cong)
qed

lemma disconnected_ok:
  assumes ok: "net_ok B N" and t: "nP N a = Some t" "nT N t = Some ts" "session_up ts"
  shows "net_ok B (disconnected a t ts N) \<and> gone (disconnected a t ts N) a \<and> idle (disconnected a t ts N) a"
proof -
  define P where "P = (\<lambda>tm :: timer. tm_handle tm \<noteq> ts_healthcheck_timer ts \<and> tm_handle tm \<noteq> ts_keepalive_timer ts)"
  let ?G = "given_up ts P N" and ?D = "disconnected a t ts N" and ?ts = "ts\<lparr>ts_ssh_op_head := [], ts_scheduled := True\<rparr>"
  define N3 where "N3 = net_unjob (Ssh_assembly_connect a) (net_set t ?ts ?G)"
  define N4 where "N4 = N3\<lparr>nQ := (\<lambda>q. if q \<in> set (ts_ssh_op_head ts) then None else nQ N3 q)\<rparr>"
  have D: "?D = N4\<lparr>nT := (nT N4)(t := None)\<rparr>"
    by (rule net.equality) (simp_all add: N4_def N3_def P_def net_set_def net_unjob_def disconnected_def Let_def cong: if_cong)
  have N3: "net_ok B N3" unfolding N3_def by (rule net_ok_unjob [OF given_up_ok [OF ok t(2)]]) simp
  have sel: "nT N3 = (nT N)(t \<mapsto> ?ts)" "nP N3 = nP N" "nQ N3 = nQ N" "nM N3 = nM ?G" "set (nJ N3) \<subseteq> set (nJ N)"
    using given_up_jobs [of ts P N] set_remove1_subset [of "Ssh_assembly_connect a" "nJ ?G"]
    by (auto simp: N3_def net_set_def net_unjob_def)
  have N4: "net_ok B N4" unfolding N4_def
  proof (rule net_ok_free_commands [OF N3])
    fix u us q assume us: "nT N3 u = Some us" "q \<in> set (ts_ssh_op_head us)"
    then have "u \<noteq> t" "nT N u = Some us" by (auto simp: sel split: if_splits)
    with us(2) queue_member [OF ok] t(2) show "q \<notin> set (ts_ssh_op_head ts)" by (metis option.inject)
  qed
  have sel4: "nT N4 = (nT N)(t \<mapsto> ?ts)" "nP N4 = nP N" "nM N4 = nM ?G" "set (nJ N4) \<subseteq> set (nJ N)"
    by (simp_all add: N4_def sel)
  have one: "b = a" if "nP N b = Some t" for b
    using that t(1) net_okD(1) [OF ok] by (auto simp: fresh_ok_def)
  have "idle N a" by (rule up_idle [OF ok]) (use t in \<open>auto simp: in_state_def\<close>)
  then have idle: "idle N4 a" unfolding idle_def sel4(3) using sel4(4) given_up_timers by blast
  have "net_ok B ?D" unfolding D
  proof (rule net_ok_free_transport [OF N4])
    show "nT N4 t = Some ?ts" by (simp add: sel4)
    show "idle N4 b" if "nP N4 b = Some t" for b using that one [of b] idle by (simp add: sel4)
    show "tm_fn tm \<noteq> Ssh_keepalive_send t" if tm: "tm \<in> set (nM N4)" for tm
    proof
      assume "tm_fn tm = Ssh_keepalive_send t"
      with tm keepalive_known [OF ok, of tm t] obtain us where "nT N t = Some us" "ts_keepalive_timer us = tm_handle tm"
        using given_up_timers [of tm ts P N] unfolding sel4 by blast
      with tm t(2) given_up_timers [of tm ts P N] show False unfolding sel4 P_def by auto
    qed
    show "tm_fn tm \<noteq> Assembly_healthcheck b" if tm: "tm \<in> set (nM N4)" "nP N4 b = Some t" for tm b
    proof
      assume "tm_fn tm = Assembly_healthcheck b"
      with tm(1) check_known [OF ok, of tm b] obtain u us where "nP N b = Some u" "nT N u = Some us" "ts_healthcheck_timer us = tm_handle tm"
        using given_up_timers [of tm ts P N] unfolding sel4 by blast
      with tm t(2) given_up_timers [of tm ts P N] show False unfolding sel4 P_def by auto
    qed
  qed simp_all
  moreover have "gone ?D a" using t(1) by (simp add: gone_def disconnected_def Let_def)
  moreover have "idle ?D a" using idle by (simp add: D idle_def)
  ultimately show ?thesis by simp
qed

lemma quiet_gone:
  "quiet s u \<Longrightarrow> gone (net_of s) a \<Longrightarrow> gone (net_of u) a" "quiet s u \<Longrightarrow> idle (net_of s) a \<Longrightarrow> idle (net_of u) a"
  "quiet s u \<Longrightarrow> up s a \<Longrightarrow> up u a"
  by (auto simp: quiet_def gone_def idle_def up_def in_state_def)

lemma net_ok_attempt:
  assumes "net_ok B N" and "job_ok B N j" and "conn_of j = Some a" and "idle N a"
  shows "net_ok B (net_job j N)"
  by (rule net_ok_job [OF assms(1,2)]) (use assms(3,4) in \<open>auto simp: idle_def\<close>)

lemma instance_create_good:
  assumes good: "good B s" and a: "gone (net_of s) a" "idle (net_of s) a"
  shows "okE (good B) (instance_create E a s)"
proof -
  have "good B (loop_job_add (My_instance_state_get a) u)" if u: "quiet s u" for u
  proof -
    have "net_ok B (net_job (My_instance_state_get a) (net_of u))"
      by (rule net_ok_attempt [OF goodD(1) [OF quiet_good [OF good u]] _ _ quiet_gone(2) [OF u a(2)]])
        (simp_all add: job_ok_def quiet_gone(1) [OF u a(1)])
    then show ?thesis using wired_shape [OF shape.v_any_job goodD(2) [OF quiet_good [OF good u]]] by (simp add: good_def)
  qed
  then show ?thesis
    unfolding instance_create_def image_id_get_completion_def instance_create_completion_def
    by (intro okE_intros okE_bind [where Q = "quiet s"]; simp)
qed

lemma disconnect_good:
  assumes good: "good B s" and a: "up s a"
  shows "okE (\<lambda>u. good B u \<and> gone (net_of u) a \<and> idle (net_of u) a) (transport_disconnect a s)"
proof (rule okE_I)
  fix u assume u: "transport_disconnect a s = Inr u"
  from a obtain t ts where t: "tp s a = Some t" "transs s t = Some ts" "session_up ts" by (rule upE)
  have "wired u" using keeps_D [OF shape.keeps_disconnect u] goodD(2) [OF good] by (rule wired_shape)
  with disconnected_ok [OF goodD(1) [OF good]] t net_of_disconnect [OF u t]
  show "good B u \<and> gone (net_of u) a \<and> idle (net_of u) a" by (simp add: good_def)
qed

lemma node_restart_good:
  fixes s :: "'sw cape"
  assumes "good B s" and "up s a"
  shows "okE (good B) (node_recover_restart E a s)"
  unfolding node_recover_restart_def
proof (rule okE_bind [OF disconnect_good [OF assms]], elim conjE)
  fix u :: "'sw cape" assume u: "good B u" "gone (net_of u) a" "idle (net_of u) a"
  show "okE (good B) (bindE (node_op_history_clear E a u) (instance_create E a))"
    by (rule okE_bind [OF quietly_okE [OF quiet_history_clear goodD(2) [OF u(1)] quiet_refl]])
      (use u in \<open>blast intro: instance_create_good quiet_good quiet_gone\<close>)
qed

text \<open>
  What a change of state of a node does besides quiet writes is the restart; so a property of the states
  that a quiet handler and the restart establish is established by the change.
\<close>

lemma node_state_set_rule:
  assumes wired: "wired s" and quiet: "\<And>u. quiet s u \<Longrightarrow> P u" and restart: "\<And>u. quiet s u \<Longrightarrow> okE P (node_recover_restart E a u)"
  shows "okE P (node_state_set E a st s)"
proof -
  have call: "okE P (cape_call E f i u)"
    if "i = Some a" "f \<in> {Node_recover_restart, Node_recover_escalate}" "quiet s u" for f i u
    using that quiet [OF that(3)] restart [OF that(3)] by (auto simp: cape_call_def node_recover_escalate_def)
  have wired_rd: "rc_instance x = Some a \<and> restart x = Node_recover_restart \<and> escalate x = Node_recover_escalate"
    if "node_rd a u = Inr x" "quiet s u" for u x
    using that wired_node [OF quiet_wired [OF wired that(2)], of a]
    by (auto simp: node_rd_def asm_get_def bindE_eq_Inr derefE_eq_Inr node_wired_def rc_wired_def)
  have failed: "okE P (recover_failed (sw_lib E) (clock E) (clock' E) (node_rd a) (node_upd a) (cape_call E) u)"
    if u: "quiet s u" for u
    unfolding recover_failed_def
    by (intro okE_intros okE_bind_get [where m = "node_rd _ _"] call; simp add: u; auto dest: wired_rd [OF _ u])
  show ?thesis
    unfolding node_state_set_def recover_state_set_def
    by (intro okE_intros okE_bind_get [where m = "node_rd _ _"] okE_bind [where Q = "quiet s"]
        quietly_okE [OF quiet_changing] wired failed; simp add: quiet)
qed

text \<open>A node is declared failed through its connected transport.\<close>

lemma node_failed_good:
  assumes "good B s" and "up s a"
  shows "okE (good B) (node_state_set E a st s)"
  using assms by (intro node_state_set_rule goodD(2)) (blast intro: quiet_good quiet_gone node_restart_good)+

text \<open>The queues of the transports that are left are what they were.\<close>

definition calm :: "'sw cape \<Rightarrow> 'sw cape \<Rightarrow> bool" where
  "calm s u \<longleftrightarrow> (\<forall>t ts. transs u t = Some ts \<longrightarrow> (\<exists>ts'. transs s t = Some ts' \<and> ts_ssh_op_head ts = ts_ssh_op_head ts'))"

lemma calm_trans: "calm r s \<Longrightarrow> calm s u \<Longrightarrow> calm r u"
  unfolding calm_def by metis

lemma quiet_calm: "quiet s u \<Longrightarrow> calm s u"
  by (simp add: quiet_def calm_def)

lemma node_restart_calm:
  assumes "wired s"
  shows "okE (calm s) (node_recover_restart E a s)"
  unfolding node_recover_restart_def
proof (rule okE_bind_get)
  fix u assume u: "transport_disconnect a s = Inr u"
  have wired: "wired u" using keeps_D [OF shape.keeps_disconnect u] assms by (rule wired_shape)
  from u have "calm s u"
  proof (cases "tp s a")
    case None
    with u show ?thesis by (auto simp: transport_disconnect_def res_simps tp_def calm_def)
  next
    case (Some t)
    then obtain x where x: "asms s a = Some x" "a_transport x = Some t" by (auto simp: tp_def bind_eq_Some_conv)
    with u obtain ts where "transs s t = Some ts" by (auto simp: transport_disconnect_def res_simps)
    from transport_disconnect_frees [OF u x this] have "transs u = (transs s)(t := None)" by simp
    then show ?thesis by (auto simp: calm_def split: if_splits)
  qed
  moreover have "okE (calm v) (instance_create E a v)" for v :: "'a cape"
    unfolding instance_create_def image_id_get_completion_def instance_create_completion_def
    by (intro okE_intros okE_bind [where Q = "calm v"]; simp add: calm_def upd_asm_def loop_job_add_def)
  ultimately show "okE (calm s) (bindE (node_op_history_clear E a u) (instance_create E a))"
    by (intro okE_bind [OF quietly_okE [OF quiet_history_clear wired quiet_refl]])
      (metis calm_trans quiet_calm okE_mono)
qed

lemma node_failed_calm:
  assumes "wired s"
  shows "okE (calm s) (node_state_set E a st s)"
proof (rule node_state_set_rule [OF assms quiet_calm])
  fix u assume u: "quiet s u"
  show "okE (calm s) (node_recover_restart E a u)"
    by (rule okE_mono [OF node_restart_calm [OF quiet_wired [OF assms u]]]) (rule calm_trans [OF quiet_calm [OF u]])
qed

section \<open>Completions and time-outs\<close>

lemma quiet_transport_failed: "quietly (transport_failed t)"
  unfolding transport_failed_def by (rule quietly_I) (intro okE_intros; simp)

lemma failed_calm:
  assumes "wired s"
  shows "okE (calm s) (bindE (transport_failed t s) (node_state_set E a st))"
  by (rule okE_bind [OF quietly_okE [OF quiet_transport_failed assms quiet_refl]])
    (blast intro: okE_mono [OF node_failed_calm] quiet_wired [OF assms] calm_trans quiet_calm)

lemma failed_good:
  assumes "good B s" and "up s a"
  shows "okE (good B) (bindE (transport_failed t s) (node_state_set E a st))"
  by (rule okE_bind [OF quietly_okE [OF quiet_transport_failed goodD(2) [OF assms(1)] quiet_refl]])
    (use assms in \<open>blast intro: node_failed_good quiet_good quiet_gone\<close>)

lemma timeout_good:
  assumes "good B s" and "up s (client_asm client)"
  shows "okE (good B) (timeout_func E client s)"
  using assms
  by (cases client) (auto simp: timeout_func_def assembly_healthcheck_timeout_def assembly_healthcheck_failed_def
      resource_action_timeout_def intro!: okE_intros failed_good node_failed_good)

text \<open>The next health check is armed when the last one is over.\<close>

lemma net_ok_arm_check:
  assumes ok: "net_ok B N" and t: "nP N a = Some t" "nT N t = Some ts" "session_up ts" and may: "may_check N (Healthcheck a)"
  shows "net_ok B (net_set t (ts\<lparr>ts_healthcheck_timer := Suc (n_handle N)\<rparr>) (net_arm (Assembly_healthcheck a) n N))"
proof -
  let ?ts = "ts\<lparr>ts_healthcheck_timer := Suc (n_handle N)\<rparr>"
  have free: "(\<forall>tm \<in> set (nM N). tm_fn tm \<noteq> Assembly_healthcheck a) \<and> (\<forall>q \<in> set (ts_ssh_op_head ts). \<not> is_check N a q)"
    using may t by (auto simp: may_check_def)
  have one: "b = a" if "nP N b = Some t" for b
    using that t(1) net_okD(1) [OF ok] by (auto simp: fresh_ok_def)
  have "net_ok B (net_set t ?ts N)"
    by (rule net_ok_set [OF ok t(2)]) (use free one in auto)
  then have "net_ok B (net_arm (Assembly_healthcheck a) n (net_set t ?ts N))"
    by (rule net_ok_arm) (use t free in \<open>auto simp: timer_ok_def net_set_def is_check_def\<close>)
  moreover have "net_arm (Assembly_healthcheck a) n (net_set t ?ts N) = net_set t ?ts (net_arm (Assembly_healthcheck a) n N)"
    by (simp add: net_arm_def net_set_def)
  ultimately show ?thesis by simp
qed

lemma check_completion_good:
  assumes good: "good B s" and up: "up s a" and may: "may_check (net_of s) (Healthcheck a)"
  shows "okE (\<lambda>u. good B u \<and> calm s u) (assembly_healthcheck_completion E a rc s)"
proof -
  have arm: "good B (upd_trans t (\<lambda>ts. ts\<lparr>ts_healthcheck_timer := h\<rparr>) u) \<and> calm s (upd_trans t (\<lambda>ts. ts\<lparr>ts_healthcheck_timer := h\<rparr>) u)"
    if t: "tp s a = Some t" and u: "(h, u) = loop_timer_add (Assembly_healthcheck a) n s" and ts: "transs u t = Some ts" for t ts n h u
  proof -
    have s: "transs u = transs s" using u by (auto simp: loop_timer_add_def Let_def)
    from up t ts s have "session_up ts" by (auto elim!: upE)
    with net_ok_arm_check [OF goodD(1) [OF good] _ _ _ may, of t ts n] t ts s net_of_timer_add [OF _ u [symmetric]]
    have "net_ok B (net_of (upd_trans t (\<lambda>ts. ts\<lparr>ts_healthcheck_timer := h\<rparr>) u))"
      by (simp add: net_of_upd_trans)
    moreover have "wired (upd_trans t (\<lambda>ts. ts\<lparr>ts_healthcheck_timer := h\<rparr>) u)"
      by (rule wired_shape [OF _ goodD(2) [OF good]]) (use shape.v_timer_add [OF u] in simp)
    moreover have "calm s (upd_trans t (\<lambda>ts. ts\<lparr>ts_healthcheck_timer := h\<rparr>) u)"
      using ts s by (auto simp: calm_def upd_trans_def)
    ultimately show ?thesis by (simp add: good_def)
  qed
  have fail: "okE (\<lambda>u. good B u \<and> calm s u) (bindE (transport_failed t s) (node_state_set E a st))" for t st
    using failed_good [OF good up] failed_calm [OF goodD(2) [OF good]] by (simp add: okE_def)
  show ?thesis
    unfolding assembly_healthcheck_completion_def
    by (intro okE_intros fail arm; simp add: tp_def good quiet_calm)
qed

lemma completion_good:
  assumes "good B s" and "up s (client_asm client)" and "may_check (net_of s) client"
  shows "okE (\<lambda>u. good B u \<and> calm s u) (completion_func E client rc s)"
proof (cases client)
  case (Healthcheck a)
  with assms show ?thesis by (simp add: completion_func_def check_completion_good)
next
  case (Resource_action ra)
  with quietly_okE [OF quiet_action_completion goodD(2) [OF assms(1)] quiet_refl] show ?thesis
    by (auto simp: completion_func_def intro: okE_mono quiet_good [OF assms(1)] quiet_calm)
qed

section \<open>Executing a command\<close>

text \<open>The transport \<open>t\<close> is executing the command \<open>q\<close>.\<close>

definition executing :: "trans_ptr \<Rightarrow> sshop_ptr \<Rightarrow> 'sw cape \<Rightarrow> bool" where
  "executing t q s \<longleftrightarrow> good {t} s \<and> (\<exists>so ts rest. sshops s q = Some so \<and> so_transport so = t \<and> transs s t = Some ts \<and>
     ts_ssh_op_head ts = q # rest)"

lemma executingE:
  assumes "executing t q s"
  obtains so ts rest where "good {t} s" and "sshops s q = Some so" and "so_transport so = t" and "transs s t = Some ts"
    and "ts_ssh_op_head ts = q # rest"
  using assms by (auto simp: executing_def)

lemma begin_exec:
  assumes good: "good {} s" and j: "Assembly_ssh_exec q \<in> set (jobs s)"
  obtains t where "executing t q (s\<lparr>jobs := remove1 (Assembly_ssh_exec q) (jobs s)\<rparr>)"
proof -
  let ?N = "net_of s" and ?s = "s\<lparr>jobs := remove1 (Assembly_ssh_exec q) (jobs s)\<rparr>"
  note ok = goodD(1) [OF good]
  have N: "net_of ?s = net_unjob (Assembly_ssh_exec q) ?N" by (simp add: net_of_take_job)
  have "Assembly_ssh_exec q \<in> set (nJ ?N)" using j by (simp add: tjobs_def)
  from exec_first [OF ok this] obtain so ts rest where q: "nQ ?N q = Some so" "so_transport so \<notin> {}" "nT ?N (so_transport so) = Some ts"
    "ts_ssh_op_head ts = q # rest" "ts_scheduled ts" .
  have other: "so_transport x \<noteq> so_transport so" if r: "Assembly_ssh_exec r \<in> set (nJ (net_of ?s))" "nQ ?N r = Some x" for r x
  proof
    assume same: "so_transport x = so_transport so"
    have d: "distinct (nJ ?N)" using net_okD(1) [OF ok] unfolding fresh_ok_def by blast
    with r(1) have r': "Assembly_ssh_exec r \<in> set (nJ ?N)" "r \<noteq> q" unfolding N by (auto simp: net_unjob_def)
    from exec_first [OF ok r'(1)] obtain y us rest' where "nQ ?N r = Some y" "so_transport y \<notin> {}"
      "nT ?N (so_transport y) = Some us" "ts_ssh_op_head us = r # rest'" "ts_scheduled us" .
    with r(2) same q(3,4) r'(2) show False by simp
  qed
  have ok': "net_ok {} (net_of ?s)" unfolding N by (rule net_ok_unjob [OF ok])
  have "execs_ok {so_transport so} (net_of ?s)"
  proof (rule execs_okI)
    fix r assume r: "Assembly_ssh_exec r \<in> set (nJ (net_of ?s))"
    from exec_first [OF ok' r] obtain x us rest' where x: "nQ (net_of ?s) r = Some x" "so_transport x \<notin> {}"
      "nT (net_of ?s) (so_transport x) = Some us" "ts_ssh_op_head us = r # rest'" "ts_scheduled us" .
    with other [OF r] show "\<exists>so' ts rest. nQ (net_of ?s) r = Some so' \<and> so_transport so' \<notin> {so_transport so} \<and>
        nT (net_of ?s) (so_transport so') = Some ts \<and> ts_ssh_op_head ts = r # rest \<and> ts_scheduled ts" by auto
  qed (use q(3,5) in auto)
  with ok' have "net_ok {so_transport so} (net_of ?s)" by (simp add: net_ok_def)
  moreover have "wired ?s" by (rule wired_shape [OF _ goodD(2) [OF good]]) simp
  ultimately have "executing (so_transport so) q ?s" using q by (simp add: executing_def good_def)
  then show ?thesis by (rule that)
qed

text \<open>What the stages change of a command.\<close>

lemma executing_moved:
  assumes "executing t q s"
  shows "executing t q (upd_sshop q (moved h st x) s)"
proof -
  let ?s = "upd_sshop q (moved h st x) s"
  from assms obtain so ts rest where good: "good {t} s" and so: "sshops s q = Some so" "so_transport so = t"
    and ts: "transs s t = Some ts" "ts_ssh_op_head ts = q # rest" by (rule executingE)
  have "net_ok {t} (net_of ?s)"
    unfolding net_of_upd_sshop [OF so(1)] using net_ok_command [OF goodD(1) [OF good], of q so "moved h st x so"] so(1)
    by (simp add: moved_def)
  moreover have "wired ?s" by (rule wired_shape [OF _ goodD(2) [OF good]]) simp
  ultimately show ?thesis using so ts by (simp add: executing_def good_def upd_sshop_def moved_def)
qed

text \<open>The command leaves the queue, and no health check is queued any more if it was one.\<close>

lemma net_ok_finish:
  assumes ok: "net_ok {t} N" and so: "nQ N q = Some so" and ts: "nT N t = Some ts" "ts_ssh_op_head ts = q # rest"
  shows "net_ok {t} (net_set t (ts\<lparr>ts_ssh_op_head := rest\<rparr>) (net_disarm (so_timer so) N))"
proof -
  let ?N = "net_disarm (so_timer so) N"
  have N: "net_ok {t} ?N" by (rule net_ok_disarm [OF ok])
  have sched: "ts_scheduled ts" using busy_scheduled [OF ok, of t ts] ts by simp
  have d: "distinct (q # rest)" using queue_distinct [OF ok, of t ts] ts by simp
  show ?thesis
  proof (rule net_ok_dequeue [OF N, where h = rest and sc = "ts_scheduled ts"])
    show "nT ?N t = Some ts" using ts by (simp add: net_disarm_def)
    show "ts\<lparr>ts_ssh_op_head := rest\<rparr> = ts\<lparr>ts_ssh_op_head := rest, ts_scheduled := ts_scheduled ts\<rparr>" by simp
    show "distinct rest" using d by simp
    show "set rest \<subseteq> set (ts_ssh_op_head ts)" using ts by auto
    fix r tm assume tm: "tm \<in> set (nM ?N)" "tm_fn tm = Ssh_timeout r" "r \<in> set (ts_ssh_op_head ts)"
    from timeout_queued [OF N tm(1,2)] obtain x us where "nQ ?N r = Some x" "so_timer x = tm_handle tm"
      "nT ?N (so_transport x) = Some us" "r \<in> set (ts_ssh_op_head us)" .
    with tm so ts show "r \<in> set rest" by (auto simp: net_disarm_def)
  qed (use sched no_exec [OF N, of t ts] ts(1) in \<open>simp_all add: net_disarm_def\<close>)
qed

lemma finish_may_check:
  assumes ok: "net_ok B N" and so: "nQ N q = Some so" "so_transport so = t" and ts: "nT N t = Some ts" "ts_ssh_op_head ts = q # rest"
  shows "may_check (net_set t (ts\<lparr>ts_ssh_op_head := rest\<rparr>) (net_disarm h N)) (so_client so)" (is "may_check ?M _")
  unfolding may_check_def
proof (intro allI impI)
  fix a v vs assume a: "so_client so = Healthcheck a" and v: "nP ?M a = Some v" "nT ?M v = Some vs"
  have P: "nP N a = Some t" using queue_member [OF ok ts(1), of q] so a ts(2) by auto
  then have vs: "vs = ts\<lparr>ts_ssh_op_head := rest\<rparr>" using v by (simp add: net_set_def net_disarm_def)
  have check: "is_check N a q" using so(1) a by (simp add: is_check_def)
  have eq: "is_check ?M = is_check N" by (simp add: net_set_def net_disarm_def is_check_def fun_eq_iff)
  have "tm_fn tm \<noteq> Assembly_healthcheck a" if "tm \<in> set (nM N)" for tm
  proof
    assume "tm_fn tm = Assembly_healthcheck a"
    from check_known [OF ok that this] obtain w ws where "nP N a = Some w" "nT N w = Some ws"
      "ts_healthcheck_timer ws = tm_handle tm" "session_up ws" "\<forall>q \<in> set (ts_ssh_op_head ws). \<not> is_check N a q" .
    with check P ts show False by simp
  qed
  moreover have "\<not> is_check N a r" if "r \<in> set rest" for r
    using check_once [OF ok, of t ts r q a] that check ts queue_distinct [OF ok ts(1)] by auto
  ultimately show "(\<forall>tm \<in> set (nM ?M). tm_fn tm \<noteq> Assembly_healthcheck a) \<and> (\<forall>q \<in> set (ts_ssh_op_head vs). \<not> is_check ?M a q)"
    unfolding eq vs by (simp add: net_set_def net_disarm_def)
qed

lemma good_free_command:
  assumes good: "good B v" and out: "\<And>t ts. transs v t = Some ts \<Longrightarrow> q \<notin> set (ts_ssh_op_head ts)"
  shows "good B (v\<lparr>sshops := (sshops v)(q := None)\<rparr>)"
proof -
  have Q: "(sshops v)(q := None) = (\<lambda>r. if r \<in> {q} then None else nQ (net_of v) r)" by auto
  have "net_ok B (net_of (v\<lparr>sshops := (sshops v)(q := None)\<rparr>))"
    unfolding net_of_sshops Q by (rule net_ok_free_commands [OF goodD(1) [OF good]]) (use out in auto)
  moreover have "wired (v\<lparr>sshops := (sshops v)(q := None)\<rparr>)" by (rule wired_shape [OF _ goodD(2) [OF good]]) simp
  ultimately show ?thesis by (simp add: good_def)
qed

lemma ssh_op_complete_good:
  assumes "executing t q s"
  shows "okE (good {t}) (ssh_op_complete E q s)"
proof -
  from assms obtain so ts rest where good: "good {t} s" and so: "sshops s q = Some so" "so_transport so = t"
    and ts: "transs s t = Some ts" "ts_ssh_op_head ts = q # rest" by (rule executingE)
  note ok = goodD(1) [OF good]
  define u where "u = upd_trans t (\<lambda>ts. ts\<lparr>ts_ssh_op_head := remove1 q (ts_ssh_op_head ts)\<rparr>) (loop_timer_del (so_timer so) s)"
  let ?ts = "ts\<lparr>ts_ssh_op_head := rest\<rparr>"
  have transs: "transs (loop_timer_del (so_timer so) s) = transs s" by (simp add: loop_timer_del_def)
  have net_u: "net_of u = net_set t ?ts (net_disarm (so_timer so) (net_of s))"
    unfolding u_def by (subst net_of_upd_trans [of _ t ts]) (use ts in \<open>simp_all add: transs\<close>)
  have T: "transs u = (transs s)(t \<mapsto> ?ts)" using ts by (simp add: u_def upd_trans_def transs)
  have tp: "tp u = tp s" by (simp add: u_def tp_def upd_trans_def loop_timer_del_def fun_eq_iff)
  have "wired u" by (rule wired_shape [OF _ goodD(2) [OF good]]) (simp add: u_def)
  then have good_u: "good {t} u" using net_ok_finish [OF ok] so ts by (simp add: good_def net_u)
  have "tp s (client_asm (so_client so)) = Some t" "session_up ts"
    using queue_member [OF ok, of t ts q] queue_up [OF ok, of t ts q] so ts by auto
  then have "up u (client_asm (so_client so))" by (intro upI [of _ _ t ?ts]) (simp_all add: T tp)
  moreover have "may_check (net_of u) (so_client so)"
    unfolding net_u using finish_may_check [OF ok] so ts by simp
  ultimately have step: "okE (\<lambda>v. good {t} v \<and> calm u v)
      (if so_failed so then Inr u else completion_func E (so_client so) (so_ssh_rc so) u)"
    using good_u quiet_calm [OF quiet_refl, of u] by (simp add: completion_good)
  have out: "q \<notin> set (ts_ssh_op_head vs)" if "transs u v = Some vs" for v vs
  proof (cases "v = t")
    case True
    with that queue_distinct [OF ok, of t ts] ts show ?thesis by (auto simp: T)
  next
    case False
    with that have "nT (net_of s) v = Some vs" by (simp add: T)
    from queue_member [OF ok this, of q] False so show ?thesis by auto
  qed
  have "ssh_op_complete E q s = bindE (if so_failed so then Inr u else completion_func E (so_client so) (so_ssh_rc so) u)
      (\<lambda>v. Inr (v\<lparr>sshops := (sshops v)(q := None)\<rparr>))"
    using so by (simp add: ssh_op_complete_def sshop_get_def u_def Let_def)
  moreover have "okE (good {t}) \<dots>"
  proof (rule okE_bind [OF step], elim conjE)
    fix v assume v: "good {t} v" "calm u v"
    then have "q \<notin> set (ts_ssh_op_head vs)" if "transs v w = Some vs" for w vs
      using that out unfolding calm_def by metis
    with v(1) show "okE (good {t}) (Inr (v\<lparr>sshops := (sshops v)(q := None)\<rparr>))" by (simp add: good_free_command)
  qed
  ultimately show ?thesis by simp
qed

text \<open>A pending execution, run.\<close>

lemma ssh_exec_good:
  assumes good: "good {} s" and j: "Assembly_ssh_exec q \<in> set (jobs s)"
  shows "okE (good {}) (assembly_ssh_exec E q (s\<lparr>jobs := remove1 (Assembly_ssh_exec q) (jobs s)\<rparr>))"
    (is "okE _ (assembly_ssh_exec E q ?s)")
proof -
  from begin_exec [OF assms] obtain t where ex: "executing t q ?s" .
  then obtain so ts rest where s: "good {t} ?s" "sshops ?s q = Some so" "so_transport so = t" "transs ?s t = Some ts"
    "ts_ssh_op_head ts = q # rest" by (rule executingE)
  have "session_up ts" using queue_up [OF goodD(1) [OF s(1)], of t ts q] s by simp
  then have eq: "assembly_ssh_exec E q ?s = pipeline E t q (so_exec_state so) ?s"
    using ssh_exec_pipeline_lemma [OF s(2), of ts E] s by simp
  have again: "good {} (loop_job_add (Assembly_ssh_exec q) u)" if u: "executing t q u" for u :: "'a cape"
  proof -
    from u obtain so ts rest where u: "good {t} u" "sshops u q = Some so" "so_transport so = t" "transs u t = Some ts"
      "ts_ssh_op_head ts = q # rest" by (rule executingE)
    note ok = goodD(1) [OF u(1)]
    have "net_ok {} (net_job (Assembly_ssh_exec q) (net_of u))"
      by (rule net_ok_job [OF net_ok_release [OF ok]])
        (use u busy_scheduled [OF ok, of t ts] no_exec [OF ok, of t ts q so] in \<open>auto simp: job_ok_def\<close>)
    then show ?thesis using wired_shape [OF shape.v_any_job goodD(2) [OF u(1)]] by (simp add: good_def)
  qed
  have complete: "okE (good {}) (bindE (ssh_op_complete E q u) (transport_schedule t))" if "executing t q u" for u :: "'a cape"
    by (rule okE_bind [OF ssh_op_complete_good [OF that]])
      (blast intro: good_keeps [OF shape.keeps_schedule] goodD good_reschedule)
  have stuck: "good {} u" if "executing t q u" for u :: "'a cape"
    using that by (auto simp: executing_def intro: good_release)
  show ?thesis
    unfolding eq pipeline_def
    by (auto split: option.splits stage_result.splits simp: complete again stuck executing_moved [OF ex])
qed

end
