(* ===== verification/Ssh_Safety.thy ===== *)
theory Ssh_Safety
  imports Ssh_Handlers
begin

text \<open>
  The handlers that the event loop runs keep the net of the transports consistent, and so does loading a
  configuration: in every state that the engine reaches, whatever is pending for a transport refers to
  live objects.
\<close>

section \<open>Timers that fire\<close>

definition net_fire :: "timer \<Rightarrow> net \<Rightarrow> net" where
  "net_fire tm N = N\<lparr>nM := remove1 tm (nM N)\<rparr>"

lemma net_of_fire:
  "net_of (s\<lparr>timers := remove1 tm (timers s)\<rparr>) = (if transport_timer (tm_fn tm) then net_fire tm (net_of s) else net_of s)"
  by (simp add: net_of_def net_fire_def tp_def fun_eq_iff tjobs_def ttimers_def filter_remove1 remove1_idem)

lemma net_fire_sel [simp]:
  "nT (net_fire tm N) = nT N" "nQ (net_fire tm N) = nQ N" "nP (net_fire tm N) = nP N" "nJ (net_fire tm N) = nJ N"
  by (simp_all add: net_fire_def)

lemma fired_timers:
  assumes "net_ok B N" and "tm \<in> set (nM N)"
  shows "set (nM (net_fire tm N)) = set (nM N) - {tm}"
    and "tm' \<in> set (nM (net_fire tm N)) \<Longrightarrow> tm_handle tm' \<noteq> tm_handle tm"
proof -
  have d: "distinct (map tm_handle (nM N))" using net_okD(1) [OF assms(1)] unfolding fresh_ok_def by blast
  then show "set (nM (net_fire tm N)) = set (nM N) - {tm}" by (simp add: net_fire_def distinct_map)
  then show "tm_handle tm' \<noteq> tm_handle tm" if "tm' \<in> set (nM (net_fire tm N))"
    using that d assms(2) by (auto simp: distinct_map inj_on_def)
qed

lemma net_ok_fire:
  assumes "net_ok B N"
  shows "net_ok B (net_fire tm N)"
  by (rule net_ok_fewer [OF assms])
    (use net_okD(1) [OF assms] set_remove1_subset [of tm "nM N"]
     in \<open>auto simp: net_fire_def fresh_ok_def distinct_map intro: inj_on_subset\<close>)

text \<open>A time-out: every command of the transport is given up.\<close>

lemma timers_deleted:
  assumes "foldE (\<lambda>q s. bindE (sshop_get s q) (\<lambda>so. Inr (loop_timer_del (so_timer so) s))) qs s = Inr u"
  shows "u = s\<lparr>timers := filter (\<lambda>tm. \<forall>q \<in> set qs. \<forall>so. sshops s q = Some so \<longrightarrow> tm_handle tm \<noteq> so_timer so) (timers s)\<rparr>"
  using assms
proof (induction qs arbitrary: s)
  case (Cons q qs)
  then obtain so where so: "sshops s q = Some so" and
    rest: "foldE (\<lambda>q s. bindE (sshop_get s q) (\<lambda>so. Inr (loop_timer_del (so_timer so) s))) qs (loop_timer_del (so_timer so) s) = Inr u"
    by (auto simp: res_simps)
  from Cons.IH [OF rest] so show ?case by (auto simp: loop_timer_del_def filter_filter intro!: filter_cong)
qed simp

lemma ssh_timeout_good:
  assumes good: "good {} s" and so: "sshops s q = Some so" and ts: "transs s (so_transport so) = Some ts" "q \<in> set (ts_ssh_op_head ts)"
  shows "okE (good {}) (ssh_timeout E q s)"
proof -
  let ?t = "so_transport so" and ?del = "foldE (\<lambda>q s. bindE (sshop_get s q) (\<lambda>so. Inr (loop_timer_del (so_timer so) s)))"
  let ?ts = "ts\<lparr>ts_ssh_op_head := [], ts_scheduled := False\<rparr>"
  note ok = goodD(1) [OF good]
  have client: "tp s (client_asm (so_client so)) = Some ?t" "session_up ts"
    using queue_member [OF ok, of ?t ts q] queue_up [OF ok, of ?t ts q] so ts by auto
  have final: "okE (good {}) (timeout_func E (so_client so) (upd_trans ?t (\<lambda>ts. ts\<lparr>ts_ssh_op_head := []\<rparr>) w))"
    if v: "transport_unschedule ?t s = Inr v" and w: "?del (ts_ssh_op_head ts) v = Inr w" for v w
  proof (rule timeout_good)
    let ?u = "upd_trans ?t (\<lambda>ts. ts\<lparr>ts_ssh_op_head := []\<rparr>) w"
    note eqs = timers_deleted [OF w] unscheduled [OF v ts(1)]
    have "net_of ?u = net_set ?t ?ts (given_up ts (\<lambda>_. True) (net_of s))"
      unfolding eqs using ts(1)
      by (auto simp: given_up_def net_set_def net_of_def upd_trans_def loop_job_del_def Let_def tp_def fun_eq_iff tjobs_def
          ttimers_def filter_filter filter_remove1 intro!: filter_cong)
    moreover have "wired ?u"
      by (rule wired_shape [OF _ goodD(2) [OF good]])
        (use keeps_D [OF shape.keeps_unschedule v] in \<open>simp add: timers_deleted [OF w]\<close>)
    ultimately show "good {} ?u" using given_up_ok [OF ok, of ?t ts] ts(1) by (simp add: good_def)
    show "up ?u (client_asm (so_client so))"
      by (rule upI [of _ _ ?t ?ts]) (use client ts(1) in \<open>auto simp: eqs upd_trans_def loop_job_del_def tp_def Let_def\<close>)
  qed
  have head: "ts_ssh_op_head us = ts_ssh_op_head ts" if "transport_unschedule ?t s = Inr v" "transs v ?t = Some us" for v us
    using that ts(1) by (auto simp: unscheduled [OF that(1) ts(1)] upd_trans_def loop_job_del_def Let_def split: if_splits)
  show ?thesis
    unfolding ssh_timeout_def
  proof (intro okE_heap_get okE_let)
    fix x t assume "sshops s q = Some x" "t = so_transport x"
    then have "x = so" "t = ?t" using so by simp_all
    show "okE (good {}) (bindE (transport_unschedule t s) (\<lambda>s. bindE (trans_get s t) (\<lambda>ts. bindE (?del (ts_ssh_op_head ts) s)
        (\<lambda>s. timeout_func E (so_client x) (upd_trans t (\<lambda>ts. ts\<lparr>ts_ssh_op_head := []\<rparr>) s)))))"
      unfolding \<open>x = so\<close> \<open>t = ?t\<close>
    proof (rule okE_bind_get, rule okE_heap_get(4), rule okE_bind_get)
      fix v us w assume v: "transport_unschedule ?t s = Inr v" and us: "transs v ?t = Some us" and w: "?del (ts_ssh_op_head us) v = Inr w"
      show "okE (good {}) (timeout_func E (so_client so) (upd_trans ?t (\<lambda>ts. ts\<lparr>ts_ssh_op_head := []\<rparr>) w))"
        by (rule final [OF v w [unfolded head [OF v us]]])
    qed
  qed
qed

lemma quiet_may_check: "quiet s u \<Longrightarrow> may_check (net_of s) client \<Longrightarrow> may_check (net_of u) client"
  by (auto simp: quiet_def may_check_def is_check_def)

lemma healthcheck_good:
  assumes "good B s" and "may_check (net_of s) (Healthcheck a)"
  shows "okE (good B) (assembly_healthcheck a s)"
  unfolding assembly_healthcheck_def
  by (rule okE_heap_get(1)) (rule transport_execute_good; use assms in \<open>simp add: tp_def\<close>)

lemma net_ok_arm_keepalive:
  assumes ok: "net_ok B N" and t: "nT N t = Some ts" and none: "\<And>tm. tm \<in> set (nM N) \<Longrightarrow> tm_fn tm \<noteq> Ssh_keepalive_send t"
    and st: "st = ts_ssh_state ts \<or> (\<forall>a. nP N a = Some t \<longrightarrow> idle N a)" "st = SSH_SESSION_CONNECTED"
  shows "net_ok B (net_set t (ts\<lparr>ts_keepalive_timer := Suc (n_handle N), ts_ssh_state := st\<rparr>) (net_arm (Ssh_keepalive_send t) n N))"
proof -
  let ?ts = "ts\<lparr>ts_keepalive_timer := Suc (n_handle N), ts_ssh_state := st\<rparr>"
  have "net_ok B (net_set t ?ts N)"
    by (rule net_ok_set [OF ok t]) (use none st in auto)
  then have "net_ok B (net_arm (Ssh_keepalive_send t) n (net_set t ?ts N))"
    by (rule net_ok_arm) (use st in \<open>auto simp: timer_ok_def net_set_def\<close>)
  moreover have "net_arm (Ssh_keepalive_send t) n (net_set t ?ts N) = net_set t ?ts (net_arm (Ssh_keepalive_send t) n N)"
    by (simp add: net_arm_def net_set_def)
  ultimately show ?thesis by simp
qed

lemma keepalive_result:
  assumes "ssh_keepalive_send E t s = Inr u" and "transs s t = Some ts"
  shows "transs u = (transs s)(t \<mapsto> ts\<lparr>ts_keepalive_timer := Suc (next_handle s)\<rparr>)"
    "net_of u = net_set t (ts\<lparr>ts_keepalive_timer := Suc (next_handle s)\<rparr>)
       (net_arm (Ssh_keepalive_send t) (keepalive_seconds (ssh E) * 1000 * QB_TIME_NS_IN_MSEC) (net_of s))"
  using assms
  by (auto simp: ssh_keepalive_send_def trans_get_def loop_timer_add_def upd_trans_def Let_def net_of_def net_set_def net_arm_def
      tp_def fun_eq_iff tjobs_def ttimers_def)

text \<open>A keep-alive timer that fired is armed again.\<close>

lemma keepalive_good:
  assumes good: "good B s" and tm: "tm \<in> set (timers s)" "tm_fn tm = Ssh_keepalive_send t"
  shows "okE (good B) (ssh_keepalive_send E t (s\<lparr>timers := remove1 tm (timers s)\<rparr>))"
    (is "okE _ (ssh_keepalive_send E t ?s)")
proof (rule good_keeps [OF shape.keeps_keepalive], goal_cases)
  case 1
  show ?case by (rule wired_shape [OF _ goodD(2) [OF good]]) simp
next
  case 2
  note ok = goodD(1) [OF good]
  have tm': "tm \<in> set (nM (net_of s))" using tm by (simp add: ttimers_def)
  from keepalive_known [OF ok tm' tm(2)] obtain ts where ts: "nT (net_of s) t = Some ts" "ts_keepalive_timer ts = tm_handle tm"
    "session_up ts" .
  have N: "net_of ?s = net_fire tm (net_of s)" using tm by (simp add: net_of_fire)
  have ok': "net_ok B (net_of ?s)" unfolding N by (rule net_ok_fire [OF ok])
  have none: "tm_fn x \<noteq> Ssh_keepalive_send t" if x: "x \<in> set (nM (net_of ?s))" for x
  proof
    assume "tm_fn x = Ssh_keepalive_send t"
    from keepalive_known [OF ok' x this] obtain us where "nT (net_of ?s) t = Some us" "ts_keepalive_timer us = tm_handle x" "session_up us" .
    with ts fired_timers(2) [OF ok tm', of x] x show False by (simp add: N [symmetric])
  qed
  have s: "transs ?s t = Some ts" using ts(1) by simp
  show ?case
  proof (rule okE_I)
    fix u assume u: "ssh_keepalive_send E t ?s = Inr u"
    have "ts\<lparr>ts_keepalive_timer := h\<rparr> = ts\<lparr>ts_keepalive_timer := h, ts_ssh_state := SSH_SESSION_CONNECTED\<rparr>" for h
      using ts(3) by (cases ts) simp
    with keepalive_result(2) [OF u s] net_ok_arm_keepalive [OF ok' _ none, of ts SSH_SESSION_CONNECTED] s ts(3)
    show "net_ok B (net_of u)" by simp
  qed
qed

section \<open>Connecting\<close>

text \<open>The session of a node is being set up, by the handler that is running.\<close>

definition handshaking :: "asm_ptr \<Rightarrow> trans_ptr \<Rightarrow> 'sw cape \<Rightarrow> bool" where
  "handshaking a t s \<longleftrightarrow> good {} s \<and> idle (net_of s) a \<and> tp s a = Some t \<and>
     (\<exists>ts. transs s t = Some ts \<and> ts_ssh_state ts \<in> handshake)"

lemma handshakingE:
  assumes "handshaking a t s"
  obtains ts where "good {} s" and "idle (net_of s) a" and "tp s a = Some t" and "transs s t = Some ts"
    and "ts_ssh_state ts \<in> handshake"
  using assms by (auto simp: handshaking_def)

lemma owner: "net_ok B N \<Longrightarrow> nP N a = Some t \<Longrightarrow> nP N b = Some t \<Longrightarrow> b = a"
  unfolding net_ok_def fresh_ok_def by blast

lemma owner_idle: "net_ok B N \<Longrightarrow> nP N a = Some t \<Longrightarrow> idle N a \<Longrightarrow> \<forall>b. nP N b = Some t \<longrightarrow> idle N b"
  using owner by blast

lemma handshaking_upd:
  assumes "handshaking a t s" and f: "\<And>ts. ts_ssh_op_head (f ts) = ts_ssh_op_head ts \<and> ts_scheduled (f ts) = ts_scheduled ts \<and>
      ts_keepalive_timer (f ts) = ts_keepalive_timer ts \<and> ts_healthcheck_timer (f ts) = ts_healthcheck_timer ts"
    and st: "\<And>ts. ts_ssh_state ts \<in> handshake \<Longrightarrow> ts_ssh_state (f ts) \<in> handshake"
  shows "handshaking a t (upd_trans t f s)"
proof -
  from assms(1) obtain ts where s: "good {} s" "idle (net_of s) a" "tp s a = Some t" "transs s t = Some ts"
    "ts_ssh_state ts \<in> handshake" by (rule handshakingE)
  have N: "net_of (upd_trans t f s) = net_set t (f ts) (net_of s)" by (rule net_of_upd_trans [OF s(4)])
  have "net_ok {} (net_set t (f ts) (net_of s))"
    by (rule net_ok_set [OF goodD(1) [OF s(1)], where ts = ts])
      (use s f [of ts] owner_idle [OF goodD(1) [OF s(1)] _ s(2), of t] in \<open>auto simp: handshake_def\<close>)
  moreover have "wired (upd_trans t f s)" by (rule wired_shape [OF _ goodD(2) [OF s(1)]]) simp
  ultimately show ?thesis
    using s st [of ts] unfolding handshaking_def good_def N by (simp add: upd_trans_def tp_def idle_def net_set_def)
qed

lemma handshaking_state: "handshaking a t s \<Longrightarrow> st \<in> handshake \<Longrightarrow> handshaking a t (ssh_state_set t st s)"
  unfolding ssh_state_set_def by (rule handshaking_upd) auto

lemma handshaking_repeat:
  assumes "handshaking a t s"
  shows "okE (good {}) (connect_repeat_schedule a s)"
proof -
  from assms obtain ts where s: "good {} s" "idle (net_of s) a" "tp s a = Some t" "transs s t = Some ts"
    "ts_ssh_state ts \<in> handshake" by (rule handshakingE)
  have "net_ok {} (net_job (Ssh_assembly_connect a) (net_of s))"
    by (rule net_ok_attempt [OF goodD(1) [OF s(1)] _ _ s(2)]) (use s in \<open>simp_all add: job_ok_def in_state_def\<close>)
  then show ?thesis
    using wired_shape [OF shape.v_any_job goodD(2) [OF s(1)]] by (simp add: connect_repeat_schedule_def good_def)
qed

lemma session_keepalive_good:
  assumes "handshaking a t s"
  shows "okE (good {}) (session_keepalive_config E a t s)"
  unfolding session_keepalive_config_def
proof (rule okE_bind_get)
  fix u assume u: "ssh_keepalive_send E t s = Inr u"
  let ?v = "ssh_state_set t SSH_SESSION_CONNECTED u"
  from assms obtain ts where s: "good {} s" "idle (net_of s) a" "tp s a = Some t" "transs s t = Some ts"
    "ts_ssh_state ts \<in> handshake" by (rule handshakingE)
  note ok = goodD(1) [OF s(1)]
  have down: "\<not> session_up ts" using s(5) by (auto simp: handshake_def)
  have none: "tm_fn x \<noteq> Ssh_keepalive_send t" "tm_fn x \<noteq> Assembly_healthcheck a" if x: "x \<in> set (nM (net_of s))" for x
  proof -
    show "tm_fn x \<noteq> Ssh_keepalive_send t"
      by (rule notI, erule keepalive_known [OF ok x]) (use down s(4) in simp)
    show "tm_fn x \<noteq> Assembly_healthcheck a"
      by (rule notI, erule check_known [OF ok x]) (use down s(3,4) in simp)
  qed
  define ts' where "ts' = ts\<lparr>ts_keepalive_timer := Suc (next_handle s), ts_ssh_state := SSH_SESSION_CONNECTED\<rparr>"
  have net: "net_of ?v = net_set t ts' (net_arm (Ssh_keepalive_send t) (keepalive_seconds (ssh E) * 1000 * QB_TIME_NS_IN_MSEC) (net_of s))"
    unfolding ssh_state_set_def using net_of_upd_trans [of u t] keepalive_result [OF u s(4)] by (simp add: net_set_def ts'_def)
  have "net_ok {} (net_of ?v)"
    unfolding net ts'_def net_of_sel(8) [symmetric]
    by (rule net_ok_arm_keepalive [OF ok _ none(1)]) (use s(4) owner_idle [OF ok _ s(2), of t] s(3) in simp_all)
  moreover have "wired ?v"
    by (rule wired_shape [OF _ goodD(2) [OF s(1)]]) (use keeps_D [OF shape.keeps_keepalive u] in \<open>simp add: ssh_state_set_def\<close>)
  ultimately have good: "good {} ?v" by (simp add: good_def)
  have "ts_ssh_op_head ts = []" using queue_up [OF ok, of t ts] down s(4) by (cases "ts_ssh_op_head ts") auto
  then have "may_check (net_of ?v) (Healthcheck a)"
    unfolding net may_check_def using none(2) s(3) by (auto simp: net_set_def net_arm_def ts'_def)
  with good show "okE (good {}) (session_connected E a ?v)"
    unfolding session_connected_def
    by (intro okE_bind [OF quietly_okE [OF quiet_node_state_set goodD(2) [OF good] quiet_refl]] healthcheck_good)
      (auto intro: quiet_good quiet_may_check)
qed

lemma session_good:
  assumes "handshaking a t s"
  shows "okE (good {}) (session_userauth E a t s)" "okE (good {}) (session_startup E a t s)" "okE (good {}) (session_init E a t s)"
proof -
  have userauth: "okE (good {}) (session_userauth E a t u)" if "handshaking a t u" for u :: "'a cape"
    unfolding session_userauth_def
    by (intro okE_intros handshaking_repeat [OF that] session_keepalive_good handshaking_state that) (simp add: handshake_def)
  have startup: "okE (good {}) (session_startup E a t u)" if "handshaking a t u" for u :: "'a cape"
    unfolding session_startup_def
    by (intro okE_intros handshaking_repeat [OF that] userauth handshaking_state that)
      (use that in \<open>simp_all add: handshake_def handshaking_def\<close>)
  show "okE (good {}) (session_userauth E a t s)" "okE (good {}) (session_startup E a t s)"
    using userauth startup assms by blast+
  have "handshaking a t (upd_trans t (\<lambda>ts. ts\<lparr>ts_session := b\<rparr>) s)" for b
    by (rule handshaking_upd [OF assms]) auto
  then show "okE (good {}) (session_init E a t s)"
    unfolding session_init_def
    by (intro okE_let okE_if handshaking_repeat [where t = t] startup handshaking_state) (simp_all add: handshake_def)
qed

lemma assembly_connect_good:
  assumes "handshaking a t s"
  shows "okE (good {}) (ssh_assembly_connect E a s)"
proof -
  from assms obtain ts where s: "good {} s" "idle (net_of s) a" "tp s a = Some t" "transs s t = Some ts"
    "ts_ssh_state ts \<in> handshake" by (rule handshakingE)
  from s(3) obtain x where "asms s a = Some x" "a_transport x = Some t" by (auto simp: tp_def bind_eq_Some_conv)
  with s(4,5) session_good [OF assms] session_keepalive_good [OF assms] show ?thesis
    by (auto simp: ssh_assembly_connect_def asm_get_def trans_get_def handshake_def)
qed

lemma connect_execute_good:
  assumes good: "good {} s" and a: "idle (net_of s) a" "in_state (net_of s) a {SSH_SESSION_CONNECTING}"
  shows "okE (good {}) (connect_execute E a s)"
proof -
  note ok = goodD(1) [OF good]
  from a(2) obtain t ts where t: "tp s a = Some t" "transs s t = Some ts" "ts_ssh_state ts = SSH_SESSION_CONNECTING"
    by (auto simp: in_state_def)
  let ?u = "ssh_state_set t SSH_SESSION_INIT s"
  have N: "net_of ?u = net_set t (ts\<lparr>ts_ssh_state := SSH_SESSION_INIT\<rparr>) (net_of s)"
    unfolding ssh_state_set_def by (rule net_of_upd_trans [OF t(2)])
  have "net_ok {} (net_of ?u)" unfolding N
    by (rule net_ok_set [OF ok, where ts = ts]) (use t owner_idle [OF ok _ a(1), of t] in simp_all)
  then have "net_ok {} (net_job (Ssh_assembly_connect a) (net_of ?u))"
    by (rule net_ok_attempt [where a = a])
      (use a(1) t in \<open>auto simp: N net_set_def idle_def job_ok_def in_state_def handshake_def\<close>)
  moreover have "wired (loop_job_add (Ssh_assembly_connect a) ?u)"
    by (rule wired_shape [OF _ goodD(2) [OF good]]) (simp add: ssh_state_set_def)
  moreover have "net_ok {} (net_job (Connect_execute a) (net_of s))"
    by (rule net_ok_attempt [OF ok _ _ a(1)]) (use a(2) in \<open>simp_all add: job_ok_def\<close>)
  moreover have "wired (loop_job_add (Connect_execute a) s)"
    by (rule wired_shape [OF _ goodD(2) [OF good]]) simp
  moreover from t(1) obtain x where "asms s a = Some x" "a_transport x = Some t" by (auto simp: tp_def bind_eq_Some_conv)
  ultimately show ?thesis using t(2) by (simp add: connect_execute_def asm_get_def trans_get_def good_def)
qed

section \<open>Polling the cloud\<close>

lemma transport_connect_good:
  assumes good: "good {} s" and a: "gone (net_of s) a" "idle (net_of s) a"
  shows "okE (good {}) (transport_connect E a s)"
proof (rule good_keeps [OF shape.keeps_transport_connect goodD(2) [OF good]], rule okE_I)
  fix u assume u: "transport_connect E a s = Inr u"
  let ?N = "net_of s" and ?t = "next_trans s"
  from u obtain x address where x: "asms s a = Some x" "a_address x = Some address"
    by (auto simp: transport_connect_def res_simps Let_def assertE_def split: if_splits)
  define ts where "ts = \<lparr>ts_ssh_state = SSH_SESSION_CONNECTING, ts_keepalive_timer = 0, ts_session = False,
    ts_address = Some address, ts_ssh_op_head = [], ts_scheduled = False, ts_healthcheck_timer = 0\<rparr>"
  have ts: "ts_ssh_op_head ts = []" "ts_ssh_state ts = SSH_SESSION_CONNECTING" by (simp_all add: ts_def)
  let ?M = "?N\<lparr>nT := (nT ?N)(?t \<mapsto> ts), nP := (nP ?N)(a \<mapsto> ?t), n_trans := Suc ?t\<rparr>"
  have net: "net_of u = net_job (Connect_execute a) ?M"
    using u x by (auto simp: transport_connect_def asm_get_def Let_def assertE_def ts_def net_of_def net_job_def loop_job_add_def
        upd_asm_def tp_def fun_eq_iff tjobs_def ttimers_def split: if_splits)
  have "net_ok {} ?M" using net_ok_connect [OF goodD(1) [OF good] a ts] by simp
  then show "net_ok {} (net_of u)" unfolding net
    by (rule net_ok_attempt [where a = a]) (use a(2) ts(2) in \<open>simp_all add: idle_def job_ok_def in_state_def\<close>)
qed

lemma state_get_good:
  assumes good: "good {} s" and a: "gone (net_of s) a" "idle (net_of s) a"
  shows "okE (good {}) (my_instance_state_get E a s)"
proof -
  have poll: "good {} (snd (loop_timer_add (Instance_state_poll a) n u))" if u: "quiet s u" for n u
  proof -
    obtain h v where v: "loop_timer_add (Instance_state_poll a) n u = (h, v)" by fastforce
    have "net_ok {} (net_arm (Instance_state_poll a) n (net_of u))"
      by (rule net_ok_arm [OF goodD(1) [OF quiet_good [OF good u]]])
        (simp add: timer_ok_def quiet_gone(1) [OF u a(1)] quiet_gone(2) [OF u a(2)])
    moreover have "wired v"
      by (rule wired_shape [OF shape.v_timer_add [OF v [symmetric]] goodD(2) [OF quiet_good [OF good u]]])
    ultimately show ?thesis using net_of_timer_add [OF _ v] by (simp add: v good_def)
  qed
  have connect: "okE (good {}) (transport_connect E a u)" if "quiet s u" for u
    using that good a by (blast intro: transport_connect_good quiet_good quiet_gone)
  show ?thesis
    unfolding my_instance_state_get_def instance_state_completion_def
    by (intro okE_intros connect okE_bind [OF quietly_okE [OF quiet_node_state_set goodD(2) [OF good]]] poll; simp add: good)
qed

section \<open>The event loop\<close>

lemma attempt_once:
  assumes "net_ok B N"
  shows "j \<in> set (nJ N) \<Longrightarrow> k \<in> set (nJ N) \<Longrightarrow> conn_of j = Some a \<Longrightarrow> conn_of k = Some a \<Longrightarrow> j = k"
    and "tm \<in> set (nM N) \<Longrightarrow> tm' \<in> set (nM N) \<Longrightarrow> tm_fn tm = Instance_state_poll a \<Longrightarrow> tm_fn tm' = Instance_state_poll a \<Longrightarrow> tm = tm'"
    and "tm \<in> set (nM N) \<Longrightarrow> tm_fn tm = Instance_state_poll a \<Longrightarrow> j \<in> set (nJ N) \<Longrightarrow> conn_of j \<noteq> Some a"
  using net_okD(7) [OF assms] unfolding conns_ok_def by blast+

lemma taken_idle:
  assumes ok: "net_ok B N" and j: "j \<in> set (nJ N)" "conn_of j = Some a"
  shows "idle (net_unjob j N) a"
proof -
  have "distinct (nJ N)" using net_okD(1) [OF ok] unfolding fresh_ok_def by blast
  then have "set (nJ (net_unjob j N)) = set (nJ N) - {j}" "nM (net_unjob j N) = nM N" by (simp_all add: net_unjob_def)
  then show ?thesis unfolding idle_def using attempt_once(1) [OF ok _ j(1) _ j(2)] attempt_once(3) [OF ok _ _ j(1)] j(2) by auto
qed

lemma fired_idle:
  assumes ok: "net_ok B N" and tm: "tm \<in> set (nM N)" "tm_fn tm = Instance_state_poll a"
  shows "idle (net_fire tm N) a"
  unfolding idle_def fired_timers(1) [OF ok tm(1)]
  using attempt_once(2) [OF ok _ tm(1) _ tm(2)] attempt_once(3) [OF ok tm] by auto

lemma run_job_good:
  assumes good: "good {} s" and j: "j \<in> set (jobs s)"
  shows "okE (good {}) (run_job E j (s\<lparr>jobs := remove1 j (jobs s)\<rparr>))" (is "okE _ (run_job E j ?s)")
proof -
  note ok = goodD(1) [OF good]
  have N: "net_of ?s = (if transport_job j then net_unjob j (net_of s) else net_of s)" by (rule net_of_take_job)
  have wired: "wired ?s" by (rule wired_shape [OF _ goodD(2) [OF good]]) simp
  then have good': "good {} ?s" using ok net_ok_unjob [OF ok] by (simp add: good_def N)
  have j': "transport_job j \<Longrightarrow> j \<in> set (nJ (net_of s))" using j by (simp add: tjobs_def)
  have idle: "idle (net_of ?s) a" if a: "conn_of j = Some a" for a
  proof -
    have "transport_job j" using a by (cases j) simp_all
    with taken_idle [OF ok j' a] show ?thesis unfolding N by simp
  qed
  have same: "gone (net_of ?s) = gone (net_of s)" "in_state (net_of ?s) = in_state (net_of s)"
    by (simp_all add: N net_unjob_def gone_def in_state_def fun_eq_iff)
  show ?thesis
  proof (cases j)
    case (Assembly_ssh_exec q)
    with ssh_exec_good [OF good] j show ?thesis by (simp add: run_job_def)
  next
    case (My_instance_state_get a)
    have "gone (net_of ?s) a" unfolding same using conn_stage(1) [OF ok, of a] j' My_instance_state_get by simp
    moreover have "idle (net_of ?s) a" by (rule idle) (simp add: My_instance_state_get)
    ultimately have "okE (good {}) (my_instance_state_get E a ?s)" by (rule state_get_good [OF good'])
    then show ?thesis by (simp add: run_job_def My_instance_state_get)
  next
    case (Connect_execute a)
    have "idle (net_of ?s) a" by (rule idle) (simp add: Connect_execute)
    moreover have "in_state (net_of ?s) a {SSH_SESSION_CONNECTING}"
      unfolding same using conn_stage(2) [OF ok, of a] j' Connect_execute by simp
    ultimately have "okE (good {}) (connect_execute E a ?s)" by (rule connect_execute_good [OF good'])
    then show ?thesis by (simp add: run_job_def Connect_execute)
  next
    case (Ssh_assembly_connect a)
    have "in_state (net_of ?s) a handshake" unfolding same using conn_stage(3) [OF ok, of a] j' Ssh_assembly_connect by simp
    moreover have "idle (net_of ?s) a" by (rule idle) (simp add: Ssh_assembly_connect)
    ultimately obtain t where "handshaking a t ?s"
      using good' unfolding handshaking_def in_state_def by auto
    from assembly_connect_good [OF this] show ?thesis by (simp add: run_job_def Ssh_assembly_connect)
  qed (use good' in \<open>simp_all add: run_job_def process_job_good process_next_job_good\<close>)
qed

lemma fire_timer_good:
  assumes good: "good {} s" and tm: "tm \<in> set (timers s)"
  shows "okE (good {}) (fire_timer E (tm_fn tm) (s\<lparr>timers := remove1 tm (timers s)\<rparr>))" (is "okE _ (fire_timer E _ ?s)")
proof -
  note ok = goodD(1) [OF good]
  have N: "net_of ?s = (if transport_timer (tm_fn tm) then net_fire tm (net_of s) else net_of s)" by (rule net_of_fire)
  have "wired ?s" by (rule wired_shape [OF _ goodD(2) [OF good]]) simp
  then have good': "good {} ?s" using ok net_ok_fire [OF ok] by (simp add: good_def N)
  have tm': "transport_timer (tm_fn tm) \<Longrightarrow> tm \<in> set (nM (net_of s))" using tm by (simp add: ttimers_def)
  show ?thesis
  proof (cases "tm_fn tm")
    case (Instance_state_poll a)
    then have "idle (net_of ?s) a" "gone (net_of ?s) a"
      using fired_idle [OF ok, of tm a] conn_stage(4) [OF ok, of tm a] tm' by (simp_all add: N net_fire_def gone_def)
    with state_get_good [OF good'] Instance_state_poll show ?thesis by (simp add: fire_timer_def)
  next
    case (Ssh_timeout q)
    with tm' have "tm \<in> set (nM (net_of s))" by simp
    from timeout_queued [OF ok this Ssh_timeout] obtain so ts where "nQ (net_of s) q = Some so" "so_timer so = tm_handle tm"
      "nT (net_of s) (so_transport so) = Some ts" "q \<in> set (ts_ssh_op_head ts)" .
    with ssh_timeout_good [OF good', of q so ts] Ssh_timeout show ?thesis by (simp add: fire_timer_def)
  next
    case (Assembly_healthcheck a)
    with tm' have tm': "tm \<in> set (nM (net_of s))" by simp
    from check_known [OF ok this Assembly_healthcheck] obtain t ts where t: "nP (net_of s) a = Some t" "nT (net_of s) t = Some ts"
      "ts_healthcheck_timer ts = tm_handle tm" "session_up ts" "\<forall>q \<in> set (ts_ssh_op_head ts). \<not> is_check (net_of s) a q" .
    have "tm_fn x \<noteq> Assembly_healthcheck a" if x: "x \<in> set (nM (net_of ?s))" for x
    proof
      assume "tm_fn x = Assembly_healthcheck a"
      from check_known [OF goodD(1) [OF good'] x this] obtain v vs where "nP (net_of ?s) a = Some v" "nT (net_of ?s) v = Some vs"
        "ts_healthcheck_timer vs = tm_handle x" .
      with t fired_timers(2) [OF ok tm', of x] x Assembly_healthcheck show False by (simp add: N)
    qed
    then have "may_check (net_of ?s) (Healthcheck a)"
      using t by (auto simp: may_check_def is_check_def tp_def)
    with healthcheck_good [OF good'] Assembly_healthcheck show ?thesis by (simp add: fire_timer_def)
  qed (use good' monitor_execute_good keepalive_good [OF good tm] in \<open>auto simp: fire_timer_def\<close>)
qed

lemma step_good:
  assumes "cape_step s s'" and "good {} s"
  shows "good {} s'"
  using assms(1)
  by (rule cape_stepE) (use okE_D [OF run_job_good [OF assms(2)]] okE_D [OF fire_timer_good [OF assms(2)]] in blast)+

section \<open>The loaded configuration\<close>

text \<open>While the configuration is loaded, nothing is pending for nodes that do not exist yet.\<close>

definition load_ok :: "'sw cape \<Rightarrow> bool" where
  "load_ok s \<longleftrightarrow> wired s \<and> net_ok {} (net_of s) \<and> (\<forall>b \<ge> next_asm s. idle (net_of s) b) \<and> qb_map_ok (assembly_map s)"

definition net_view :: "'sw cape \<Rightarrow> net \<times> asm_ptr \<times> asm_ptr qb_map" where
  "net_view s = (net_of s, next_asm s, assembly_map s)"

interpretation nv: resource_view "net_view :: 'sw cape \<Rightarrow> _"
  by unfold_locales
    (auto simp: net_view_def net_of_def tp_def tjobs_def ttimers_def upd_asm_def fun_eq_iff split: Option.bind_splits)

lemma load_ok_view: "net_view s' = net_view s \<Longrightarrow> wired s' \<Longrightarrow> load_ok s \<Longrightarrow> load_ok s'"
  by (simp add: net_view_def load_ok_def)

lemma load_ok_cape_init: "load_ok (cape_init debug uuid)"
  using wired_cape_init [of debug uuid]
  by (simp add: load_ok_def net_ok_def net_ok_defs idle_def net_of_def tjobs_def ttimers_def tp_def cape_init_def)

lemma instance_create_idle:
  assumes "b \<noteq> a" and "idle (net_of s) b"
  shows "okE (\<lambda>u. idle (net_of u) b) (instance_create E a s)"
proof -
  have "idle (net_of (loop_job_add (My_instance_state_get a) u)) b" if "quiet s u" for u
    using quiet_gone(2) [OF that assms(2)] assms(1) by (simp add: idle_def)
  then show ?thesis
    unfolding instance_create_def image_id_get_completion_def instance_create_completion_def
    by (intro okE_intros okE_bind [where Q = "quiet s"]; simp)
qed

lemma assembly_create_load_ok:
  fixes s :: "'sw cape"
  assumes ok: "load_ok s"
  shows "okE load_ok (assembly_create E n s)"
proof (rule okE_I)
  fix u assume u: "assembly_create E n s = Inr u"
  note s = ok [unfolded load_ok_def]
  have wired_u: "wired u" using okE_D [OF assembly_create_wired u] s by blast
  let ?a = "next_asm s"
  from u obtain x name e v where x: "a_name x = name" "a_transport x = None" "a_resource_map x = []" "node_wired ?a x"
    and v: "instance_create E ?a (s\<lparr>asms := (asms s)(?a := Some x), next_asm := Suc ?a, errno := e\<rparr>) = Inr v"
    and w: "foldE (\<lambda>child_node v. if has_name ''services'' child_node then resources_create E (kids child_node) ?a v else Inr v)
      (kids n) (v\<lparr>assembly_map := qb_map_put name ?a (assembly_map v)\<rparr>) = Inr u"
    by (rule assembly_createE)
  let ?t = "s\<lparr>asms := (asms s)(?a := Some x), next_asm := Suc ?a, errno := e\<rparr>"
  have wired_t: "wired ?t" using wired_node_new [OF _ x(4,3)] s by blast
  have fresh: "asms s ?a = None" using wired_node [of s ?a] s by (cases "asms s ?a") auto
  have net_t: "net_of ?t = net_of s"
    using x(2) fresh by (auto simp: net_of_def tp_def tjobs_def ttimers_def fun_eq_iff)
  have "good {} ?t" using wired_t s by (simp add: good_def net_t)
  moreover have "gone (net_of ?t) ?a" using fresh by (simp add: net_t gone_def tp_def)
  moreover have "idle (net_of ?t) ?a" using s by (simp add: net_t)
  ultimately have good: "good {} v" using okE_D [OF instance_create_good v] by blast
  have shape: "shape v = shape ?t" using keeps_D [OF shape.keeps_instance_create v] .
  have idle: "idle (net_of v) b" if "b \<ge> Suc ?a" for b
    using okE_D [OF instance_create_idle v, of b] that s by (simp add: net_t)
  have "keeps net_view (foldE (\<lambda>child_node v. if has_name ''services'' child_node then resources_create E (kids child_node) ?a v
      else Inr v) (kids n))"
    by (intro keeps_foldE keeps_I okE_if okE_Inr_I keeps_okE [OF nv.keeps_resources_create]) simp_all
  from keeps_D [OF this w] have "net_view u = (net_of v, next_asm v, qb_map_put name ?a (assembly_map v))"
    by (simp add: net_view_def net_of_def tp_def tjobs_def ttimers_def fun_eq_iff)
  moreover have "next_asm v = Suc ?a" "assembly_map v = assembly_map s" using shape by (simp_all add: shape_def)
  moreover have "qb_map_ok (assembly_map s)" using s by blast
  ultimately show "load_ok u" using wired_u goodD(1) [OF good] idle by (simp add: load_ok_def net_view_def)
qed

lemma parse_and_load_good:
  assumes "load_ok s"
  shows "okE load_ok (parse_and_load E xslt config s)"
proof -
  have net: "net_view (s\<lparr>pe_doc := d, application_name := n, application_uuid := u\<rparr>) = net_view s" for d n u
    by (simp add: net_view_def net_of_def tp_def tjobs_def ttimers_def fun_eq_iff)
  have "wired (s\<lparr>pe_doc := d, application_name := n, application_uuid := u\<rparr>)" for d n u
    using assms by (simp add: load_ok_def wired_def)
  with load_ok_view [OF net _ assms] show ?thesis
    unfolding parse_and_load_def assemblies_create_def
    by (auto intro!: okE_intros okE_foldE okE_if assembly_create_load_ok)
qed

lemma reach_map_ok:
  assumes "parse_and_load E xslt config (cape_init debug uuid) = Inr s" and "cape_reach s s'"
  shows "qb_map_ok (assembly_map s')"
  using okE_D [OF parse_and_load_good [OF load_ok_cape_init] assms(1)] shape.reach_view [OF assms(2)]
  by (simp add: load_ok_def shape_def)

lemma reach_good:
  assumes "parse_and_load E xslt config (cape_init debug uuid) = Inr s" and "cape_reach s s'"
  shows "good {} s'"
  using assms(2)
proof (induction rule: rtranclp_induct)
  case base
  from okE_D [OF parse_and_load_good [OF load_ok_cape_init] assms(1)] show ?case by (simp add: load_ok_def good_def)
next
  case (step t u)
  then show ?case using step_good by blast
qed

lemma length_filter_once:
  assumes "distinct xs" and "\<And>x y. x \<in> set xs \<Longrightarrow> y \<in> set xs \<Longrightarrow> P x \<Longrightarrow> P y \<Longrightarrow> x = y"
  shows "length (filter P xs) \<le> 1"
proof -
  have "card {x \<in> set xs. P x} \<le> Suc 0" using assms(2) by (subst card_le_Suc0_iff_eq) auto
  with distinct_card [OF distinct_filter [OF assms(1)], of P] show ?thesis by simp
qed

section \<open>What is pending is live\<close>

text \<open>The live transport of a node.\<close>

definition live_trans :: "'sw cape \<Rightarrow> asm_ptr \<Rightarrow> trans_ssh option" where
  "live_trans s a = Option.bind (Option.bind (asms s a) a_transport) (transs s)"

text \<open>What a pending job, and an armed timer, of the transports needs.\<close>

fun job_live :: "'sw cape \<Rightarrow> job \<Rightarrow> bool" where
  "job_live s (Assembly_ssh_exec q) =
     (case sshops s q of None \<Rightarrow> False
      | Some so \<Rightarrow> (case transs s (so_transport so) of None \<Rightarrow> False
         | Some ts \<Rightarrow> session_up ts \<and> ts_scheduled ts \<and> (case ts_ssh_op_head ts of [] \<Rightarrow> False | p # _ \<Rightarrow> p = q)))"
| "job_live s (Ssh_assembly_connect a) =
     (case live_trans s a of None \<Rightarrow> False
      | Some ts \<Rightarrow> ts_ssh_state ts \<noteq> SSH_SESSION_CONNECTING \<and> ts_ssh_state ts \<noteq> SSH_SESSION_CONNECTED)"
| "job_live s (Connect_execute a) =
     (case live_trans s a of None \<Rightarrow> False | Some ts \<Rightarrow> ts_ssh_state ts = SSH_SESSION_CONNECTING)"
| "job_live s (My_instance_state_get a) = (live_trans s a = None)"
| "job_live s _ = True"

definition timer_live :: "'sw cape \<Rightarrow> timer \<Rightarrow> bool" where
  "timer_live s tm =
     (case tm_fn tm of
        Ssh_timeout q \<Rightarrow>
          (case sshops s q of None \<Rightarrow> False
           | Some so \<Rightarrow> so_timer so = tm_handle tm \<and>
               (case transs s (so_transport so) of None \<Rightarrow> False | Some ts \<Rightarrow> q \<in> set (ts_ssh_op_head ts)))
      | Ssh_keepalive_send t \<Rightarrow>
          (case transs s t of None \<Rightarrow> False | Some ts \<Rightarrow> session_up ts \<and> ts_keepalive_timer ts = tm_handle tm)
      | Assembly_healthcheck a \<Rightarrow>
          (case live_trans s a of None \<Rightarrow> False | Some ts \<Rightarrow> session_up ts \<and> ts_healthcheck_timer ts = tm_handle tm)
      | Instance_state_poll a \<Rightarrow> live_trans s a = None
      | Resource_monitor_execute p \<Rightarrow> True)"

text \<open>A queued command is live, belongs to its transport and is for the node of that transport.\<close>

definition queue_live :: "'sw cape \<Rightarrow> trans_ptr \<Rightarrow> trans_ssh \<Rightarrow> bool" where
  "queue_live s t ts \<longleftrightarrow> distinct (ts_ssh_op_head ts) \<and> (ts_ssh_op_head ts \<noteq> [] \<longrightarrow> session_up ts) \<and>
     list_all (\<lambda>q. case sshops s q of None \<Rightarrow> False
       | Some so \<Rightarrow> so_transport so = t \<and> Option.bind (asms s (client_asm (so_client so))) a_transport = Some t)
       (ts_ssh_op_head ts)"

lemma live_trans_net:
  "live_trans s a = None \<longleftrightarrow> gone (net_of s) a"
  "in_state (net_of s) a S \<longleftrightarrow> (\<exists>ts. live_trans s a = Some ts \<and> ts_ssh_state ts \<in> S)"
  by (cases "tp s a"; auto simp: live_trans_def gone_def in_state_def tp_def [symmetric])+

lemma net_job_live:
  assumes "net_ok B (net_of s)" and "j \<in> set (jobs s)"
  shows "job_live s j"
proof (cases j)
  case (Assembly_ssh_exec q)
  with assms(2) have "Assembly_ssh_exec q \<in> set (nJ (net_of s))" by (simp add: tjobs_def)
  from exec_first [OF assms(1) this] obtain so ts rest where q: "nQ (net_of s) q = Some so" "so_transport so \<notin> B"
    "nT (net_of s) (so_transport so) = Some ts" "ts_ssh_op_head ts = q # rest" "ts_scheduled ts" .
  with queue_up [OF assms(1) q(3), of q] Assembly_ssh_exec show ?thesis by simp
next
  case (My_instance_state_get a)
  with conn_stage(1) [OF assms(1), of a] assms(2) show ?thesis by (simp add: live_trans_net tjobs_def)
next
  case (Connect_execute a)
  with conn_stage(2) [OF assms(1), of a] assms(2) show ?thesis by (auto simp: live_trans_net tjobs_def)
next
  case (Ssh_assembly_connect a)
  with conn_stage(3) [OF assms(1), of a] assms(2) show ?thesis by (auto simp: live_trans_net tjobs_def handshake_def)
qed simp_all

lemma net_timer_live:
  assumes ok: "net_ok B (net_of s)" and tm: "tm \<in> set (timers s)"
  shows "timer_live s tm"
proof -
  have tm': "transport_timer (tm_fn tm) \<Longrightarrow> tm \<in> set (nM (net_of s))" using tm by (simp add: ttimers_def)
  show ?thesis
  proof (cases "tm_fn tm")
    case (Ssh_timeout q)
    show ?thesis
      by (rule timeout_queued [OF ok tm' Ssh_timeout]) (simp_all add: timer_live_def Ssh_timeout)
  next
    case (Ssh_keepalive_send t)
    show ?thesis
      by (rule keepalive_known [OF ok tm' Ssh_keepalive_send]) (simp_all add: timer_live_def Ssh_keepalive_send)
  next
    case (Assembly_healthcheck a)
    show ?thesis
      by (rule check_known [OF ok tm' Assembly_healthcheck]) (simp_all add: timer_live_def live_trans_def tp_def Assembly_healthcheck)
  next
    case (Instance_state_poll a)
    with conn_stage(4) [OF ok tm' Instance_state_poll] show ?thesis by (simp add: timer_live_def live_trans_net)
  qed (simp add: timer_live_def)
qed

lemma net_queue_live:
  assumes ok: "net_ok B (net_of s)" and t: "transs s t = Some ts"
  shows "queue_live s t ts"
proof -
  have "case sshops s q of None \<Rightarrow> False
      | Some so \<Rightarrow> so_transport so = t \<and> Option.bind (asms s (client_asm (so_client so))) a_transport = Some t"
    if "q \<in> set (ts_ssh_op_head ts)" for q
    by (rule queue_member [OF ok _ that, of t]) (use t in \<open>auto simp: tp_def\<close>)
  with queue_distinct [OF ok, of t ts] queue_up [OF ok, of t ts] t show ?thesis
    by (auto simp: queue_live_def list_all_iff) (metis list.set_intros(1) neq_Nil_conv)
qed

lemma ssh_events_live_lemma:
  assumes "parse_and_load E xslt config (cape_init debug uuid) = Inr s" and "cape_reach s s'"
  shows "(\<forall>j \<in> set (jobs s'). job_live s' j) \<and> (\<forall>tm \<in> set (timers s'). timer_live s' tm) \<and>
    (\<forall>t ts. transs s' t = Some ts \<longrightarrow> queue_live s' t ts)"
  using goodD(1) [OF reach_good [OF assms]] by (blast intro: net_job_live net_timer_live net_queue_live)

text \<open>
  C7. After any configuration was loaded, in every state the event loop reaches, whatever is pending for
  an ssh transport refers to live objects: the command of a pending execution is the first one of a
  connected, scheduled transport; connection attempts fit the state of the transport; a time-out is that
  of a queued command, and keep-alive and health-check timers are the ones their connected transport
  knows, so that disconnecting can delete them; every queue holds distinct live commands for the node
  of its transport.
\<close>

theorem ssh_events_live:
  assumes "parse_and_load E xslt config (cape_init debug uuid) = Inr s" and "cape_reach s s'"
  shows "(\<forall>j \<in> set (jobs s'). job_live s' j) \<and> (\<forall>tm \<in> set (timers s'). timer_live s' tm) \<and>
    (\<forall>t ts. transs s' t = Some ts \<longrightarrow> queue_live s' t ts)"
  using assms by (rule ssh_events_live_lemma)

theorem ssh_events_live_witness:
  "\<exists>s s'. demo_loaded = Inr s \<and> cape_step s s' \<and> jobs s' = [Connect_execute 0] \<and> job_live s' (Connect_execute 0)"
proof -
  obtain s s' where s: "demo_loaded = Inr s" "cape_step s s'" "jobs s' = [Connect_execute 0]"
    using demo_step by blast
  then show ?thesis
    using ssh_events_live [OF s(1) [unfolded demo_loaded_def] r_into_rtranclp [of cape_step, OF s(2)]] by auto
qed

lemma one_attempt:
  assumes ok: "net_ok B N"
  shows "length (filter (\<lambda>j. conn_of j = Some a) (nJ N)) + length (filter (\<lambda>tm. tm_fn tm = Instance_state_poll a) (nM N)) \<le> 1"
proof -
  have d: "distinct (nJ N)" "distinct (nM N)" using net_okD(1) [OF ok] unfolding fresh_ok_def by (auto simp: distinct_map)
  have jobs: "length (filter (\<lambda>j. conn_of j = Some a) (nJ N)) \<le> 1"
    using d(1) attempt_once(1) [OF ok] by (intro length_filter_once) blast+
  have timers: "length (filter (\<lambda>tm. tm_fn tm = Instance_state_poll a) (nM N)) \<le> 1"
    using d(2) attempt_once(2) [OF ok] by (intro length_filter_once) blast+
  show ?thesis
  proof (cases "\<exists>tm \<in> set (nM N). tm_fn tm = Instance_state_poll a")
    case True
    then have "filter (\<lambda>j. conn_of j = Some a) (nJ N) = []"
      using attempt_once(3) [OF ok] by (auto simp: filter_empty_conv)
    with timers show ?thesis by simp
  next
    case False
    then have "filter (\<lambda>tm. tm_fn tm = Instance_state_poll a) (nM N) = []" by (auto simp: filter_empty_conv)
    with jobs show ?thesis by simp
  qed
qed

text \<open>A job that executes a command of the transport \<open>t\<close>.\<close>

fun exec_on :: "(sshop_ptr \<Rightarrow> ssh_op option) \<Rightarrow> trans_ptr \<Rightarrow> job \<Rightarrow> bool" where
  "exec_on Q t (Assembly_ssh_exec q) = (case Q q of None \<Rightarrow> False | Some so \<Rightarrow> so_transport so = t)"
| "exec_on Q t _ = False"

lemma one_execution:
  assumes ok: "net_ok B N"
  shows "length (filter (exec_on (nQ N) t) (nJ N)) \<le> 1"
proof (rule length_filter_once)
  show "distinct (nJ N)" using net_okD(1) [OF ok] unfolding fresh_ok_def by blast
  fix j k assume j: "j \<in> set (nJ N)" "k \<in> set (nJ N)"
    and run: "exec_on (nQ N) t j" "exec_on (nQ N) t k"
  from run obtain p q x y where p: "j = Assembly_ssh_exec p" "nQ N p = Some x" "so_transport x = t"
    and q: "k = Assembly_ssh_exec q" "nQ N q = Some y" "so_transport y = t"
    by (cases j; cases k) (auto split: option.splits)
  have head: "\<exists>us rest. nT N (so_transport x) = Some us \<and> ts_ssh_op_head us = p # rest"
    if "Assembly_ssh_exec p \<in> set (nJ N)" "nQ N p = Some x" for p x
    by (rule exec_first [OF ok that(1)]) (use that(2) in simp)
  from head [of p x] j(1) p obtain us rest where "nT N t = Some us" "ts_ssh_op_head us = p # rest" by auto
  moreover from head [of q y] j(2) q obtain vs rest' where "nT N t = Some vs" "ts_ssh_op_head vs = q # rest'" by auto
  ultimately show "j = k" using p q by simp
qed

text \<open>
  C10. In every state the event loop reaches, a node has at most one connection attempt pending, whether a
  job or a timer that polls the cloud, a transport has at most one execution pending, and no transport
  belongs to two nodes.
\<close>

theorem ssh_one_attempt:
  assumes "parse_and_load E xslt config (cape_init debug uuid) = Inr s" and "cape_reach s s'"
  shows "length (filter (\<lambda>j. conn_of j = Some a) (jobs s')) +
      length (filter (\<lambda>tm. tm_fn tm = Instance_state_poll a) (timers s')) \<le> 1 \<and>
    length (filter (exec_on (sshops s') t) (jobs s')) \<le> 1 \<and>
    (asms s' a = Some x \<and> asms s' b = Some y \<and> a_transport x = Some t \<and> a_transport y = Some t \<longrightarrow> a = b)"
proof -
  note ok = goodD(1) [OF reach_good [OF assms]]
  have "filter (\<lambda>j. conn_of j = Some a) (jobs s') = filter (\<lambda>j. conn_of j = Some a) (tjobs s')"
    "filter (\<lambda>tm. tm_fn tm = Instance_state_poll a) (timers s') = filter (\<lambda>tm. tm_fn tm = Instance_state_poll a) (ttimers s')"
    "filter (exec_on (sshops s') t) (jobs s') = filter (exec_on (sshops s') t) (tjobs s')"
    by (auto simp: tjobs_def ttimers_def filter_filter intro!: filter_cong elim: conn_of.elims exec_on.elims)
  with one_attempt [OF ok, of a] one_execution [OF ok, of t] owner [OF ok, of b t a] show ?thesis by (simp add: tp_def)
qed

theorem ssh_one_attempt_witness:
  "\<exists>s s'. demo_loaded = Inr s \<and> cape_step s s' \<and> jobs s' = [Connect_execute 0] \<and>
     filter (\<lambda>tm. tm_fn tm = Instance_state_poll 0) (timers s') = []"
proof -
  obtain s s' where s: "demo_loaded = Inr s" "cape_step s s'" "jobs s' = [Connect_execute 0]"
    using demo_step by blast
  have "length (filter (\<lambda>j. conn_of j = Some 0) (jobs s')) + length (filter (\<lambda>tm. tm_fn tm = Instance_state_poll 0) (timers s')) \<le> 1"
    using ssh_one_attempt [OF s(1) [unfolded demo_loaded_def] r_into_rtranclp [of cape_step, OF s(2)]] by blast
  with s show ?thesis by auto
qed

end
