(* ===== verification/Cape_Exit.thy ===== *)
theory Cape_Exit
  imports Ssh_Safety
begin

text \<open>
  The end of the engine: \<^verbatim>\<open>cape_exit\<close> of \<^verbatim>\<open>cape.c\<close> disconnects every node that the map of nodes lists. A node
  that is being recovered has a transport pointer that was freed, and disconnecting it reads freed
  memory; in every other state the engine ends cleanly.
\<close>

section \<open>Disconnecting succeeds on live objects\<close>

lemma delete_all_succeeds:
  "distinct qs \<Longrightarrow> \<forall>q \<in> set qs. sshops s q \<noteq> None \<Longrightarrow> \<exists>u. foldE ssh_op_delete qs s = Inr u"
proof (induction qs arbitrary: s)
  case (Cons q qs)
  then obtain so where so: "sshops s q = Some so" by auto
  have "\<exists>u. foldE ssh_op_delete qs ((loop_timer_del (so_timer so) s)\<lparr>sshops := (sshops s)(q := None)\<rparr>) = Inr u"
    by (rule Cons.IH) (use Cons.prems in auto)
  then show ?case by (simp add: ssh_op_delete_eq(1) [OF so])
qed simp

lemma unschedule_succeeds: "transs s t = Some ts \<Longrightarrow> \<exists>u. transport_unschedule t s = Inr u \<and> sshops u = sshops s"
  by (auto simp: transport_unschedule_def trans_get_def upd_trans_def loop_job_del_def Let_def split: list.splits)

lemma disconnect_succeeds:
  assumes a: "asms s a = Some x" "a_transport x = Some t" "transs s t = Some ts" and live: "queue_live s t ts"
  shows "\<exists>u. transport_disconnect a s = Inr u"
proof -
  let ?s = "disconnect_begin a ts s"
  have s: "transs ?s = transs s" "sshops ?s = sshops s"
    by (simp_all add: disconnect_begin_def loop_timer_del_def loop_job_del_def Let_def)
  obtain v where v: "(if ts_ssh_state ts = SSH_SESSION_CONNECTED then transport_unschedule t ?s else Inr ?s) = Inr v" "sshops v = sshops s"
    using unschedule_succeeds [of ?s t ts] a(3) s by (cases "session_up ts") auto
  have "\<forall>q \<in> set (ts_ssh_op_head ts). sshops v q \<noteq> None"
    using live v(2) by (auto simp: queue_live_def list_all_iff split: option.splits)
  with live obtain w where "foldE ssh_op_delete (ts_ssh_op_head ts) v = Inr w"
    using delete_all_succeeds [of "ts_ssh_op_head ts" v] by (auto simp: queue_live_def)
  with a v(1) show ?thesis by (simp add: transport_disconnect_def asm_get_def trans_get_def Let_def)
qed

section \<open>The walk over the nodes\<close>

text \<open>The named node has a transport pointer, to a transport that was freed.\<close>

definition dangling :: "'sw cape \<Rightarrow> string \<Rightarrow> bool" where
  "dangling s k \<longleftrightarrow>
     (case qb_map_get (assembly_map s) k of None \<Rightarrow> False
      | Some a \<Rightarrow> (case Option.bind (asms s a) a_transport of None \<Rightarrow> False | Some t \<Rightarrow> transs s t = None))"

definition walk_ok :: "'sw cape \<Rightarrow> bool" where
  "walk_ok s \<longleftrightarrow> wired s \<and> (\<forall>a b t. tp s a = Some t \<longrightarrow> tp s b = Some t \<longrightarrow> a = b) \<and>
     (\<forall>t ts. transs s t = Some ts \<longrightarrow> queue_live s t ts)"

lemma walk_disconnect:
  assumes ok: "walk_ok s" and k: "qb_map_get (assembly_map s) k = Some a" "asms s a = Some x"
  shows "case transport_disconnect a s of
     Inl e \<Rightarrow> e = BadPtr \<and> dangling s k
   | Inr u \<Rightarrow> \<not> dangling s k \<and> walk_ok u \<and> assembly_map u = assembly_map s \<and> asms u = asms s \<and>
       (\<forall>l. l \<noteq> k \<longrightarrow> dangling u l = dangling s l) \<and>
       transs u = (case a_transport x of None \<Rightarrow> transs s | Some t \<Rightarrow> (transs s)(t := None))"
proof (cases "a_transport x")
  case None
  with ok k show ?thesis by (simp add: transport_disconnect_def asm_get_def dangling_def)
next
  case (Some t)
  show ?thesis
  proof (cases "transs s t")
    case None
    with Some k show ?thesis by (simp add: transport_disconnect_def asm_get_def trans_get_def dangling_def)
  next
    case ts: (Some ts)
    from ok ts have live: "queue_live s t ts" by (simp add: walk_ok_def)
    from disconnect_succeeds [OF k(2) Some ts live] obtain u where u: "transport_disconnect a s = Inr u" by blast
    from transport_disconnect_frees [OF u k(2) Some ts]
    have freed: "transs u = (transs s)(t := None)" "sshops u = (\<lambda>q. if q \<in> set (ts_ssh_op_head ts) then None else sshops s q)"
      "asms u = asms s" by (auto simp: trimmed_def)
    have shape: "shape u = shape s" using keeps_D [OF shape.keeps_disconnect u] .
    then have map: "assembly_map u = assembly_map s" by (simp add: shape_def)
    have tp: "tp u = tp s" by (simp add: tp_def fun_eq_iff freed(3))
    have "queue_live u v vs" if v: "transs u v = Some vs" for v vs
    proof -
      from v have v': "transs s v = Some vs" "v \<noteq> t" by (auto simp: freed(1) split: if_splits)
      with ok have vs: "queue_live s v vs" by (simp add: walk_ok_def)
      have "sshops u q = sshops s q" if "q \<in> set (ts_ssh_op_head vs)" for q
        using that vs live v'(2) unfolding queue_live_def list_all_iff freed(2) by (auto split: option.splits)
      with vs show ?thesis unfolding queue_live_def list_all_iff freed(3) by simp
    qed
    with ok have "walk_ok u" using wired_shape [OF shape] by (simp add: walk_ok_def tp)
    moreover have "dangling u l = dangling s l" if l: "l \<noteq> k" for l
    proof -
      have "tp s b \<noteq> Some t" if b: "qb_map_get (assembly_map s) l = Some b" for b
      proof
        assume "tp s b = Some t"
        moreover have "tp s a = Some t" using k(2) Some by (simp add: tp_def)
        ultimately have "a = b" using ok unfolding walk_ok_def by blast
        moreover have "wired s" using ok by (simp add: walk_ok_def)
        ultimately have "k = l" using wired_listed [of s k a] wired_listed [of s l b] k(1) b by auto
        with l show False by simp
      qed
      then show ?thesis by (auto simp: dangling_def map freed(1,3) tp_def split: option.splits)
    qed
    moreover have "\<not> dangling s k" using k Some ts by (simp add: dangling_def)
    ultimately show ?thesis using u map freed Some by simp
  qed
qed

definition disconnect_named :: "string \<Rightarrow> 'sw cape \<Rightarrow> 'sw cape res" where
  "disconnect_named k s = bindE (derefE NullDeref (qb_map_get (assembly_map s) k)) (\<lambda>a. transport_disconnect a s)"

lemma walk_nodes:
  assumes "walk_ok s" and "distinct ks" and "\<forall>k \<in> set ks. qb_map_get (assembly_map s) k \<noteq> None"
  shows "case foldE disconnect_named ks s of
     Inl e \<Rightarrow> e = BadPtr \<and> (\<exists>k \<in> set ks. dangling s k)
   | Inr u \<Rightarrow> (\<forall>k \<in> set ks. \<not> dangling s k \<and> (\<forall>a x t. qb_map_get (assembly_map s) k = Some a \<longrightarrow> asms s a = Some x \<longrightarrow>
       a_transport x = Some t \<longrightarrow> transs u t = None)) \<and> (\<forall>t. transs s t = None \<longrightarrow> transs u t = None)"
  using assms
proof (induction ks arbitrary: s)
  case (Cons k ks)
  from Cons.prems(3) obtain a where a: "qb_map_get (assembly_map s) k = Some a" by auto
  with Cons.prems(1) wired_listed [of s k a] obtain x where x: "asms s a = Some x" by (auto simp: walk_ok_def)
  have step: "disconnect_named k s = transport_disconnect a s" by (simp add: disconnect_named_def a)
  show ?case
  proof (cases "transport_disconnect a s")
    case (Inl e)
    with walk_disconnect [OF Cons.prems(1) a x] show ?thesis by (simp add: step)
  next
    case (Inr u)
    with walk_disconnect [OF Cons.prems(1) a x] have u: "\<not> dangling s k" "walk_ok u" "assembly_map u = assembly_map s" "asms u = asms s"
      "\<forall>l. l \<noteq> k \<longrightarrow> dangling u l = dangling s l"
      "transs u = (case a_transport x of None \<Rightarrow> transs s | Some t \<Rightarrow> (transs s)(t := None))" by simp_all
    have same: "dangling u l = dangling s l" if "l \<in> set ks" for l using u(5) Cons.prems(2) that by auto
    have none: "transs u t = None" if "transs s t = None \<or> a_transport x = Some t" for t
      using that by (auto simp: u(6) split: option.splits)
    from Cons.IH [OF u(2)] Cons.prems(2,3) u(3)
    have IH: "case foldE disconnect_named ks u of
       Inl e \<Rightarrow> e = BadPtr \<and> (\<exists>k \<in> set ks. dangling u k)
     | Inr w \<Rightarrow> (\<forall>k \<in> set ks. \<not> dangling u k \<and> (\<forall>a x t. qb_map_get (assembly_map u) k = Some a \<longrightarrow> asms u a = Some x \<longrightarrow>
         a_transport x = Some t \<longrightarrow> transs w t = None)) \<and> (\<forall>t. transs u t = None \<longrightarrow> transs w t = None)" by simp
    show ?thesis
    proof (cases "foldE disconnect_named ks u")
      case Inl': (Inl e)
      with IH same show ?thesis by (auto simp: step Inr)
    next
      case Inr': (Inr w)
      with IH u(1,3,4) same none a x show ?thesis by (auto simp: step Inr)
    qed
  qed
qed simp

lemma cape_exit_walk: "cape_exit E s = foldE disconnect_named (map_order E (qb_keys (assembly_map s))) s"
  by (simp add: cape_exit_def disconnect_named_def [abs_def])



end
