(* ===== verification/Ssh_Order.thy ===== *)
theory Ssh_Order
  imports Ssh_Safety
begin

text \<open>
  The order of commands. Between any two states of a run, the queue of a transport that is still there has
  lost commands at its front and got new ones at its end, and a command that is still there is for the same
  client, with the same command line. \<open>later r s\<close> says this of two states; every handler of the engine leads
  to a later state, and only the end of a command's execution needs to know that the command was the first.
\<close>

section \<open>Later states\<close>

definition lane :: "'sw cape \<Rightarrow> trans_ptr \<Rightarrow> sshop_ptr list option" where
  "lane s t = map_option ts_ssh_op_head (transs s t)"

definition core :: "'sw cape \<Rightarrow> sshop_ptr \<Rightarrow> (ssh_client \<times> string \<times> trans_ptr) option" where
  "core s q = map_option (\<lambda>so. (so_client so, so_command so, so_transport so)) (sshops s q)"

definition follows :: "sshop_ptr \<Rightarrow> sshop_ptr list \<Rightarrow> sshop_ptr list \<Rightarrow> bool" where
  "follows n qs qs' \<longleftrightarrow> (\<exists>k new. qs' = drop k qs @ new \<and> (\<forall>q \<in> set new. n \<le> q))"

definition later :: "'sw cape \<Rightarrow> 'sw cape \<Rightarrow> bool" where
  "later r s \<longleftrightarrow> shape s = shape r \<and> next_trans r \<le> next_trans s \<and> next_sshop r \<le> next_sshop s \<and>
     (\<forall>t qs'. t < next_trans r \<longrightarrow> lane s t = Some qs' \<longrightarrow>
        (\<exists>qs. lane r t = Some qs \<and> follows (next_sshop r) qs qs')) \<and>
     (\<forall>q c. q < next_sshop r \<longrightarrow> core s q = Some c \<longrightarrow> core r q = Some c)"

lemma follows_refl [simp]: "follows n qs qs"
  unfolding follows_def by (rule exI [of _ 0], rule exI [of _ "[]"]) simp

lemma follows_trans:
  assumes "follows n qs qs'" and "follows m qs' qs''" and "n \<le> m"
  shows "follows n qs qs''"
proof -
  from assms obtain j k a b where a: "qs' = drop j qs @ a" "\<forall>q \<in> set a. n \<le> q" and b: "qs'' = drop k qs' @ b" "\<forall>q \<in> set b. m \<le> q"
    by (auto simp: follows_def)
  have "qs'' = drop (k + j) qs @ drop (k - length (drop j qs)) a @ b" by (simp add: a(1) b(1))
  moreover have "\<forall>q \<in> set (drop (k - length (drop j qs)) a @ b). n \<le> q"
    using a(2) b(2) assms(3) by (auto dest!: in_set_dropD)
  ultimately show ?thesis unfolding follows_def by blast
qed

lemma follows_simps:
  "follows n qs []" "follows n (q # qs) qs" "n \<le> q \<Longrightarrow> follows n qs (qs @ [q])"
proof -
  show "follows n qs []" unfolding follows_def by (rule exI [of _ "length qs"], rule exI [of _ "[]"]) simp
  show "follows n (q # qs) qs" unfolding follows_def by (rule exI [of _ 1], rule exI [of _ "[]"]) simp
  show "follows n qs (qs @ [q])" if "n \<le> q"
    unfolding follows_def by (rule exI [of _ 0], rule exI [of _ "[q]"]) (use that in simp)
qed

lemma later_refl [simp]: "later s s"
  by (simp add: later_def)

lemma later_trans:
  assumes "later r s" and "later s u"
  shows "later r u"
  unfolding later_def
proof (intro conjI allI impI)
  show "shape u = shape r" "next_trans r \<le> next_trans u" "next_sshop r \<le> next_sshop u"
    using assms by (auto simp: later_def)
  fix t qs'' assume t: "t < next_trans r" "lane u t = Some qs''"
  with assms(2) obtain qs' where "lane s t = Some qs'" "follows (next_sshop s) qs' qs''"
    using assms(1) unfolding later_def by (meson less_le_trans)
  moreover from this(1) t(1) assms(1) obtain qs where "lane r t = Some qs" "follows (next_sshop r) qs qs'"
    unfolding later_def by blast
  ultimately show "\<exists>qs. lane r t = Some qs \<and> follows (next_sshop r) qs qs''"
    using assms(1) follows_trans unfolding later_def by blast
next
  fix q c assume "q < next_sshop r" "core u q = Some c"
  with assms show "core r q = Some c" unfolding later_def by (meson less_le_trans)
qed

text \<open>Steps that leave queues and commands alone.\<close>

definition lanes where
  "lanes s = (lane s, core s, next_trans s, next_sshop s)"

lemma later_same: "later r s \<Longrightarrow> lanes u = lanes s \<Longrightarrow> shape u = shape s \<Longrightarrow> later r u"
  by (simp add: later_def lanes_def)

lemma lanes_writes [simp]:
  "lanes (s\<lparr>ops := x1\<rparr>) = lanes s" "lanes (s\<lparr>jobs := x2\<rparr>) = lanes s" "lanes (s\<lparr>timers := x3\<rparr>) = lanes s"
  "lanes (s\<lparr>graph_updated := x4\<rparr>) = lanes s" "lanes (s\<lparr>working_set := x5\<rparr>) = lanes s" "lanes (s\<lparr>graphs := x6\<rparr>) = lanes s"
  "lanes (s\<lparr>next_op := x7\<rparr>) = lanes s" "lanes (s\<lparr>ssh_init_rc := x8\<rparr>) = lanes s"
  "lanes (s\<lparr>next_handle := x9\<rparr>) = lanes s"
  by (simp_all add: lanes_def lane_def core_def fun_eq_iff)

lemma lanes_objects [simp]:
  "lanes (upd_asm a f s) = lanes s" "lanes (upd_rsc r g s) = lanes s" "lanes (upd_op p h s) = lanes s"
  "lanes (upd_graph gp k s) = lanes s" "lanes (loop_job_add j s) = lanes s" "lanes (loop_job_del j s) = lanes s"
  "lanes (loop_timer_del th s) = lanes s" "lanes (snd (loop_timer_add tf n s)) = lanes s"
  by (simp_all add: lanes_def lane_def core_def fun_eq_iff upd_asm_def upd_rsc_def upd_op_def upd_graph_def
      loop_job_add_def loop_job_del_def loop_timer_del_def loop_timer_add_def Let_def)

lemma lanes_upd_trans: "(\<And>x. ts_ssh_op_head (f x) = ts_ssh_op_head x) \<Longrightarrow> lanes (upd_trans t f s) = lanes s"
  by (simp add: lanes_def lane_def core_def fun_eq_iff upd_trans_def option.map_comp comp_def)

lemma lanes_upd_sshop:
  "(\<And>x. so_client (f x) = so_client x \<and> so_command (f x) = so_command x \<and> so_transport (f x) = so_transport x) \<Longrightarrow>
   lanes (upd_sshop q f s) = lanes s"
  by (simp add: lanes_def lane_def core_def fun_eq_iff upd_sshop_def option.map_comp comp_def)

lemma quiet_later: "quiet s u \<Longrightarrow> later s u"
  unfolding quiet_def later_def lane_def core_def by (elim conjE) (auto intro: exI [where x = "ts_ssh_op_head _"])

lemma later_writes [simp]:
  assumes "later r s"
  shows "later r (loop_job_add j s)" "later r (loop_job_del j s)" "later r (loop_timer_del h s)"
    "later r (snd (loop_timer_add tf n s))" "later r (s\<lparr>jobs := x1\<rparr>)" "later r (s\<lparr>timers := x2\<rparr>)" "later r (s\<lparr>graph_updated := x3\<rparr>)"
    "later r (upd_op p f s)" "later r (upd_graph g k s)" "later r (upd_rsc q (\<lambda>x. x\<lparr>r_monitor_op := m\<rparr>) s)"
    "later r (s\<lparr>ops := x4, next_op := x5\<rparr>)" "later r (s\<lparr>graphs := x6, working_set := x7\<rparr>)"
  by (rule later_same [OF assms]; simp add: loop_job_del_def loop_timer_add_def Let_def)+

lemma later_upd_trans:
  "later r s \<Longrightarrow> (\<And>x. ts_ssh_op_head (f x) = ts_ssh_op_head x) \<Longrightarrow> later r (upd_trans t f s)"
  by (rule later_same [where s = s]) (simp_all add: lanes_upd_trans)

lemma later_ssh_state [simp]: "later r s \<Longrightarrow> later r (ssh_state_set t st s)"
  by (simp add: ssh_state_set_def later_upd_trans)

lemma later_timer_add: "(h, s') = loop_timer_add tf n s \<Longrightarrow> later r s \<Longrightarrow> later r s'"
  using later_writes(4) [of r s tf n] by (metis snd_conv)

section \<open>Orderly handlers\<close>

text \<open>A handler that leads from a wired state to a later one.\<close>

definition orderly :: "('sw cape \<Rightarrow> 'sw cape res) \<Rightarrow> bool" where
  "orderly f \<longleftrightarrow> (\<forall>r s. wired r \<longrightarrow> later r s \<longrightarrow> okE (later r) (f s))"

lemma later_wired: "wired r \<Longrightarrow> later r s \<Longrightarrow> wired s"
  by (auto simp: later_def intro: wired_shape)

lemma orderly_I: "(\<And>s. wired s \<Longrightarrow> okE (later s) (f s)) \<Longrightarrow> orderly f"
  unfolding orderly_def by (blast intro: okE_mono later_trans later_wired)

lemma orderly_okE: "orderly f \<Longrightarrow> wired r \<Longrightarrow> later r s \<Longrightarrow> okE (later r) (f s)"
  unfolding orderly_def by blast

lemma orderly_bind: "okE (later r) m \<Longrightarrow> (\<And>u. later r u \<Longrightarrow> okE (later r) (f u)) \<Longrightarrow> okE (later r) (bindE m f)"
  by (rule okE_bind)

lemma quietly_orderly: "quietly f \<Longrightarrow> orderly f"
  by (rule orderly_I) (blast intro: okE_mono quietly_okE quiet_later quiet_refl)

lemma orderly_foldE: "(\<And>x. x \<in> set xs \<Longrightarrow> orderly (f x)) \<Longrightarrow> orderly (foldE f xs)"
  by (auto simp: orderly_def intro!: okE_foldE)

text \<open>A handler all of whose writes leave queues and commands alone.\<close>

lemma lanes_orderly: "keeps lanes f \<Longrightarrow> keeps shape f \<Longrightarrow> orderly f"
  by (rule orderly_I, rule okE_I) (blast intro: later_same later_refl keeps_D)

section \<open>The four operations that change queues\<close>

lemma schedule_orderly: "orderly (transport_schedule t)"
proof (rule lanes_orderly [OF _ shape.keeps_schedule])
  show "keeps lanes (transport_schedule t)"
    unfolding transport_schedule_def by (rule keeps_I) (intro okE_intros; simp add: lanes_upd_trans)
qed

lemma lanes_unschedule: "keeps lanes (transport_unschedule t)"
  unfolding transport_unschedule_def by (rule keeps_I) (intro okE_intros; simp add: lanes_upd_trans)

text \<open>A new command at the end.\<close>

lemma execute_orderly: "orderly (transport_execute p client ms cmd)"
proof (rule orderly_I)
  fix s :: "'a cape" assume wired: "wired s"
  have new: "later s (upd_trans t (\<lambda>ts. ts\<lparr>ts_ssh_op_head := ts_ssh_op_head ts @ [next_sshop s]\<rparr>)
      (s\<lparr>sshops := (sshops s)(next_sshop s := Some so), next_sshop := Suc (next_sshop s)\<rparr>))" (is "later s ?u") for t so
  proof -
    have "\<exists>qs. lane s v = Some qs \<and> follows (next_sshop s) qs qs'" if "lane ?u v = Some qs'" for v qs'
      using that by (auto simp: lane_def upd_trans_def follows_simps split: if_splits)
    moreover have "core ?u q = core s q" if "q < next_sshop s" for q
      using that by (simp add: core_def upd_trans_def)
    moreover have "shape ?u = shape s" by simp
    moreover have "next_trans ?u = next_trans s" "next_sshop ?u = Suc (next_sshop s)" by (simp_all add: upd_trans_def)
    ultimately show ?thesis unfolding later_def by simp
  qed
  have timer: "later s (upd_sshop q (\<lambda>so. so\<lparr>so_timer := h\<rparr>) v)" if "(h, v) = loop_timer_add tf n u" "later s u" for q h v tf n u
    by (rule later_same [OF later_timer_add [OF that]]) (simp_all add: lanes_upd_sshop)
  show "okE (later s) (transport_execute p client ms cmd s)"
    unfolding transport_execute_def
    by (intro okE_intros orderly_bind orderly_okE [OF schedule_orderly] wired new timer) (simp_all add: new [simplified])
qed

text \<open>A new transport.\<close>

lemma connect_orderly: "orderly (transport_connect E a)"
proof (rule orderly_I, rule okE_I)
  fix s u :: "'a cape" assume "wired s" and u: "transport_connect E a s = Inr u"
  have "shape u = shape s" by (rule keeps_D [OF shape.keeps_transport_connect u])
  moreover from u have "sshops u = sshops s" "next_sshop u = next_sshop s" "next_trans u = Suc (next_trans s)"
      "t < next_trans s \<Longrightarrow> transs u t = transs s t" for t
    by (auto simp: transport_connect_def Let_def res_simps upd_asm_def loop_job_add_def split: if_splits)
  ultimately show "later s u" by (auto simp: later_def lane_def core_def)
qed

text \<open>A transport that is given up.\<close>

lemma disconnect_counters:
  assumes "transport_disconnect a s = Inr u"
  shows "next_trans u = next_trans s \<and> next_sshop u = next_sshop s"
proof -
  have del: "next_trans w = next_trans v \<and> next_sshop w = next_sshop v" if "foldE ssh_op_delete qs v = Inr w" for qs v w
    unfolding ssh_op_delete_all [OF that] by simp
  have unsched: "next_trans w = next_trans v \<and> next_sshop w = next_sshop v" if "transport_unschedule t v = Inr w" for t v w
    using that by (auto simp: transport_unschedule_def res_simps upd_trans_def loop_job_del_def Let_def split: if_splits list.splits)
  have ends: "next_trans (disconnect_begin a ts v) = next_trans v \<and> next_sshop (disconnect_begin a ts v) = next_sshop v"
    "next_trans (disconnect_end a t ts v) = next_trans v \<and> next_sshop (disconnect_end a t ts v) = next_sshop v" for ts t v
    by (simp_all add: disconnect_begin_def disconnect_end_def loop_timer_del_def loop_job_del_def Let_def)
  from assms show ?thesis
    by (auto simp: transport_disconnect_def res_simps Let_def ends split: option.splits if_splits dest!: del unsched)
qed

lemma disconnect_orderly: "orderly (transport_disconnect a)"
proof (rule orderly_I, rule okE_I)
  fix s u :: "'a cape" assume "wired s" and u: "transport_disconnect a s = Inr u"
  have shape: "shape u = shape s" by (rule keeps_D [OF shape.keeps_disconnect u])
  show "later s u"
  proof (cases "tp s a")
    case None
    with u show ?thesis by (auto simp: transport_disconnect_def res_simps tp_def)
  next
    case (Some t)
    then obtain x where x: "asms s a = Some x" "a_transport x = Some t" by (auto simp: tp_def bind_eq_Some_conv)
    with u obtain ts where ts: "transs s t = Some ts" by (auto simp: transport_disconnect_def res_simps)
    from transport_disconnect_frees [OF u x ts] shape disconnect_counters [OF u] show ?thesis
      by (auto simp: later_def lane_def core_def split: if_splits)
  qed
qed

section \<open>The handlers of the engine\<close>

lemma instance_create_orderly: "orderly (instance_create E a)"
proof (rule orderly_I)
  fix s :: "'a cape" assume "wired s"
  have "later s (loop_job_add (My_instance_state_get a) u)" if "quiet s u" for u
    using quiet_later [OF that] by simp
  then show "okE (later s) (instance_create E a s)"
    unfolding instance_create_def image_id_get_completion_def instance_create_completion_def
    by (intro okE_intros okE_bind [where Q = "quiet s"]; simp)
qed

lemmas quiet_orderly = quietly_orderly [THEN orderly_okE]

lemma node_restart_orderly: "orderly (node_recover_restart E a)"
  unfolding node_recover_restart_def
  by (rule orderly_I) (intro orderly_bind orderly_okE [OF disconnect_orderly] quiet_orderly [OF quiet_history_clear]
      orderly_okE [OF instance_create_orderly]; simp)

lemma node_state_orderly: "orderly (node_state_set E a st)"
  by (rule orderly_I, rule node_state_set_rule)
    (auto intro: quiet_later orderly_okE [OF node_restart_orderly])

lemma resource_action_orderly: "orderly (transport_resource_action E a r p)"
  unfolding transport_resource_action_def
  by (rule orderly_I) (intro okE_intros orderly_bind quiet_orderly [OF quiet_ref] orderly_okE [OF execute_orderly]
      okE_bind_get [where m = "resource_command _ _"]; simp)

lemma monitor_execute_orderly: "orderly (resource_monitor_execute E p)"
  unfolding resource_monitor_execute_def
  by (rule orderly_I) (intro okE_intros okE_bind_get [where m = "op_target _ _"] quiet_orderly [OF quiet_action_completed]
      orderly_okE [OF resource_action_orderly]; simp)

lemma monitor_start_orderly: "orderly (recurring_monitor_start E p)"
  unfolding recurring_monitor_start_def
  by (rule orderly_I) (intro okE_intros orderly_bind orderly_okE [OF monitor_execute_orderly] quiet_orderly [OF quiet_ref]
      quiet_orderly [OF quiet_completed] quiet_orderly [OF quiet_unref]; simp)

lemma execute_cb_orderly: "orderly (resource_execute_cb E p)"
  unfolding resource_execute_cb_def
  by (rule orderly_I) (intro okE_intros okE_bind_get [where m = "op_target _ _"] orderly_bind orderly_okE [OF monitor_execute_orderly]
      orderly_okE [OF monitor_start_orderly] orderly_okE [OF resource_action_orderly] quiet_orderly [OF quiet_completed]
      quiet_orderly [OF quiet_unref] quiet_orderly [OF quiet_action_completed] quiet_orderly [OF quiet_monitor_stop]
      quiet_orderly [OF quiet_history_delete]; simp)

lemma graph_exec_orderly:
  assumes "wired r" and "later r s"
  shows "okE (\<lambda>(b, u). later r u) (graph_exec_fns E (resource_execute_cb E) g x s)"
proof (cases x)
  case (Pair k i)
  have "okE (\<lambda>(b, u). later r u) (exec_rsc_action E (resource_execute_cb E) g i s)"
    unfolding exec_rsc_action_def graph_confirm_def
    by (intro okE_intros okE_bind [where Q = "later r"] orderly_okE [OF execute_cb_orderly]; simp add: assms)
  then show ?thesis
    by (cases k) (use assms in \<open>auto simp: Pair exec_pseudo_action_def exec_crmd_action_def
        exec_stonith_action_def graph_confirm_def intro!: okE_intros\<close>)
qed

lemma process_next_job_orderly: "orderly (process_next_job E (resource_execute_cb E) g)"
  unfolding process_next_job_def
  by (rule orderly_I) (intro okE_intros orderly_bind okE_foldE okE_bind [OF graph_exec_orderly]; auto)

lemma healthcheck_orderly: "orderly (assembly_healthcheck a)"
  unfolding assembly_healthcheck_def by (rule orderly_I) (intro okE_intros orderly_okE [OF execute_orderly]; simp)

lemma failed_orderly: "wired r \<Longrightarrow> later r s \<Longrightarrow> okE (later r) (bindE (transport_failed t s) (node_state_set E a st))"
  by (intro orderly_bind quiet_orderly [OF quiet_transport_failed] orderly_okE [OF node_state_orderly])

lemma timeout_func_orderly: "orderly (timeout_func E client)"
  by (rule orderly_I, cases client) (auto simp: timeout_func_def assembly_healthcheck_timeout_def assembly_healthcheck_failed_def
      resource_action_timeout_def intro!: okE_intros failed_orderly orderly_okE [OF node_state_orderly])

lemma completion_func_orderly: "orderly (completion_func E client rc)"
proof (cases client)
  case (Healthcheck a)
  have arm: "later s (upd_trans t (\<lambda>ts. ts\<lparr>ts_healthcheck_timer := h\<rparr>) u)"
    if "(h, u) = loop_timer_add (Assembly_healthcheck a) n s" for t h n and s u :: "'a cape"
    by (rule later_upd_trans [OF later_timer_add [OF that]]) simp_all
  then have "orderly (assembly_healthcheck_completion E a rc)" for rc
    unfolding assembly_healthcheck_completion_def
    by (intro orderly_I) (intro okE_intros failed_orderly; simp)
  then show ?thesis unfolding orderly_def by (simp add: completion_func_def Healthcheck)
next
  case (Resource_action ra)
  then show ?thesis using quietly_orderly [OF quiet_action_completion] unfolding orderly_def by (simp add: completion_func_def)
qed

lemma keepalive_orderly: "orderly (ssh_keepalive_send E t)"
proof (rule orderly_I)
  fix s :: "'a cape"
  have arm: "later s (upd_trans t (\<lambda>ts. ts\<lparr>ts_keepalive_timer := h\<rparr>) u)"
    if "(h, u) = loop_timer_add (Ssh_keepalive_send t) n s" for h n u
    by (rule later_upd_trans [OF later_timer_add [OF that]]) simp_all
  then show "okE (later s) (ssh_keepalive_send E t s)"
    unfolding ssh_keepalive_send_def by (intro okE_intros; simp)
qed

lemma session_connected_orderly: "orderly (session_connected E a)"
  unfolding session_connected_def
  by (rule orderly_I) (intro orderly_bind orderly_okE [OF node_state_orderly] orderly_okE [OF healthcheck_orderly]; simp)

lemma session_keepalive_orderly: "orderly (session_keepalive_config E a t)"
  unfolding session_keepalive_config_def
  by (rule orderly_I) (intro orderly_bind orderly_okE [OF keepalive_orderly] orderly_okE [OF session_connected_orderly]; simp)

lemma session_userauth_orderly: "orderly (session_userauth E a t)"
  unfolding session_userauth_def connect_repeat_schedule_def
  by (rule orderly_I) (intro okE_intros orderly_okE [OF session_keepalive_orderly]; simp)

lemma session_startup_orderly: "orderly (session_startup E a t)"
  unfolding session_startup_def connect_repeat_schedule_def
  by (rule orderly_I) (intro okE_intros orderly_okE [OF session_userauth_orderly]; simp)

lemma session_init_orderly: "orderly (session_init E a t)"
  unfolding session_init_def connect_repeat_schedule_def Let_def
  by (rule orderly_I) (intro okE_intros orderly_okE [OF session_startup_orderly]; simp add: later_upd_trans)

lemma assembly_connect_orderly: "orderly (ssh_assembly_connect E a)"
  unfolding ssh_assembly_connect_def
proof (rule orderly_I, intro okE_intros, goal_cases)
  case (1 s x t ts)
  then show ?case
    by (auto split: ssh_state.splits intro: later_refl orderly_okE [OF session_init_orderly] orderly_okE [OF session_startup_orderly]
        orderly_okE [OF session_userauth_orderly] orderly_okE [OF session_keepalive_orderly]
        orderly_okE [OF session_connected_orderly])
qed

lemma connect_execute_orderly: "orderly (connect_execute E a)"
  unfolding connect_execute_def by (rule orderly_I) (intro okE_intros; simp)

lemma state_get_orderly: "orderly (my_instance_state_get E a)"
proof (rule orderly_I)
  fix s :: "'a cape" assume wired: "wired s"
  have "later s (upd_asm a (\<lambda>x. x\<lparr>a_address := z\<rparr>) s)" for z by (rule later_same [OF later_refl]) simp_all
  then show "okE (later s) (my_instance_state_get E a s)"
    unfolding my_instance_state_get_def instance_state_completion_def
    by (intro okE_intros orderly_bind orderly_okE [OF connect_orderly wired] orderly_okE [OF node_state_orderly wired]; simp)
qed

lemma process_job_orderly: "orderly (process_job E)"
proof (rule orderly_I, rule okE_I)
  fix s u :: "'a cape" assume "process_job E s = Inr u"
  from process_job_quiet [OF this] show "later s u" by (rule quiet_later)
qed

section \<open>The commands that leave\<close>

text \<open>A command is freed.\<close>

lemma later_free [simp]: "later r s \<Longrightarrow> later r (s\<lparr>sshops := (sshops s)(q := None)\<rparr>)"
  by (auto simp: later_def lane_def core_def)

text \<open>A queue that loses what is in front.\<close>

lemma later_dequeue:
  assumes "\<And>ts. transs s t = Some ts \<Longrightarrow> follows (next_sshop s) (ts_ssh_op_head ts) (ts_ssh_op_head (f ts))"
  shows "later s (upd_trans t f s)"
proof -
  have "\<exists>qs. lane s v = Some qs \<and> follows (next_sshop s) qs qs'" if "lane (upd_trans t f s) v = Some qs'" for v qs'
    using that assms by (auto simp: lane_def upd_trans_def split: if_splits)
  moreover have "core (upd_trans t f s) = core s" "next_trans (upd_trans t f s) = next_trans s" "next_sshop (upd_trans t f s) = next_sshop s"
    by (simp_all add: core_def upd_trans_def fun_eq_iff)
  ultimately show ?thesis unfolding later_def by simp
qed

lemma ssh_timeout_orderly: "orderly (ssh_timeout E q)"
proof (rule orderly_I)
  fix s :: "'a cape" assume wired: "wired s"
  have empty: "later s (upd_trans t (\<lambda>ts. ts\<lparr>ts_ssh_op_head := []\<rparr>) v)" if "later s v" for t v
    by (rule later_trans [OF that later_dequeue]) (simp add: follows_simps)
  have unschedule: "okE (later s) (transport_unschedule t s)" for t
    by (rule okE_I) (blast intro: later_same [OF later_refl] keeps_D [OF lanes_unschedule] keeps_D [OF shape.keeps_unschedule])
  show "okE (later s) (ssh_timeout E q s)"
    unfolding ssh_timeout_def
    by (intro okE_heap_get okE_let orderly_bind unschedule okE_foldE orderly_okE [OF timeout_func_orderly wired] empty; simp)
qed

lemma ssh_op_complete_later:
  assumes ex: "executing t q s" and r: "later r s" "wired r"
  shows "okE (later r) (ssh_op_complete E q s)"
proof -
  from ex obtain so ts rest where so: "sshops s q = Some so" "so_transport so = t"
    and ts: "transs s t = Some ts" "ts_ssh_op_head ts = q # rest" by (rule executingE)
  let ?s = "loop_timer_del (so_timer so) s"
  let ?u = "upd_trans t (\<lambda>ts. ts\<lparr>ts_ssh_op_head := remove1 q (ts_ssh_op_head ts)\<rparr>) ?s"
  have "later ?s ?u" by (rule later_dequeue) (use ts in \<open>simp add: loop_timer_del_def follows_simps\<close>)
  with r(1) have u: "later r ?u" by (blast intro: later_trans later_writes)
  show ?thesis
    unfolding ssh_op_complete_def sshop_get_def so(1)
    by (simp add: so(2) Let_def, intro conjI impI orderly_bind orderly_okE [OF completion_func_orderly r(2)] u) (simp_all add: u)
qed

lemma ssh_exec_later:
  assumes good: "good {} s" and j: "Assembly_ssh_exec q \<in> set (jobs s)"
  shows "okE (later s) (assembly_ssh_exec E q (s\<lparr>jobs := remove1 (Assembly_ssh_exec q) (jobs s)\<rparr>))"
    (is "okE _ (assembly_ssh_exec E q ?s)")
proof -
  from begin_exec [OF assms] obtain t where ex: "executing t q ?s" .
  then obtain so ts rest where s: "good {t} ?s" "sshops ?s q = Some so" "so_transport so = t" "transs ?s t = Some ts"
    "ts_ssh_op_head ts = q # rest" by (rule executingE)
  have "session_up ts" using queue_up [OF goodD(1) [OF s(1)], of t ts q] s by simp
  then have eq: "assembly_ssh_exec E q ?s = pipeline E t q (so_exec_state so) ?s"
    using ssh_exec_pipeline_lemma [OF s(2), of ts E] s by simp
  have moved: "later s (upd_sshop q (moved h st x) ?s)" for h st x
    by (rule later_same [of s ?s]) (simp_all add: lanes_upd_sshop moved_def)
  have "okE (later s) (bindE (ssh_op_complete E q (upd_sshop q (moved h st x) ?s)) (transport_schedule t))" for h st x
    by (intro orderly_bind ssh_op_complete_later [OF executing_moved [OF ex]] moved orderly_okE [OF schedule_orderly] goodD(2) [OF good])
  then show ?thesis
    unfolding eq pipeline_def by (auto split: option.splits stage_result.splits simp: moved)
qed

section \<open>Steps\<close>

lemma run_job_later:
  assumes good: "good {} s" and j: "j \<in> set (jobs s)"
  shows "okE (later s) (run_job E j (s\<lparr>jobs := remove1 j (jobs s)\<rparr>))"
proof (cases j)
  case (Assembly_ssh_exec q)
  with ssh_exec_later [OF good] j show ?thesis by (simp add: run_job_def)
qed (use goodD(2) [OF good] in \<open>simp_all add: run_job_def orderly_okE [OF process_job_orderly] orderly_okE [OF process_next_job_orderly]
    orderly_okE [OF state_get_orderly] orderly_okE [OF connect_execute_orderly] orderly_okE [OF assembly_connect_orderly]\<close>)

lemma fire_timer_later:
  assumes "wired s"
  shows "okE (later s) (fire_timer E f (s\<lparr>timers := x\<rparr>))"
  using assms
  by (cases f) (simp_all add: fire_timer_def orderly_okE [OF state_get_orderly] orderly_okE [OF ssh_timeout_orderly]
      orderly_okE [OF keepalive_orderly] orderly_okE [OF healthcheck_orderly] orderly_okE [OF monitor_execute_orderly])

lemma step_later:
  assumes "cape_step s s'" and "good {} s"
  shows "later s s'"
  using assms(1)
  by (rule cape_stepE) (use okE_D [OF run_job_later [OF assms(2)]] okE_D [OF fire_timer_later [OF goodD(2) [OF assms(2)]]] in blast)+

lemma reach_later:
  assumes "good {} s" and "cape_reach s s'"
  shows "later s s'"
proof -
  from assms(2) have "later s s' \<and> good {} s'"
  proof (induction rule: rtranclp_induct)
    case (step t u)
    then show ?case using step_good step_later later_trans by blast
  qed (simp add: assms(1))
  then show ?thesis by simp
qed

section \<open>A concrete run\<close>

text \<open>The jobs of a list, run one after the other.\<close>

definition run_pending :: "'sw env \<Rightarrow> job \<Rightarrow> 'sw cape \<Rightarrow> 'sw cape res" where
  "run_pending E j s = bindE (assertE (j \<in> set (jobs s)) s) (\<lambda>s. run_job E j (s\<lparr>jobs := remove1 j (jobs s)\<rparr>))"

lemma run_pending_reach: "foldE (run_pending E) js s = Inr s' \<Longrightarrow> cape_reach s s'"
proof (induction js arbitrary: s)
  case (Cons j js)
  then obtain u where u: "run_pending E j s = Inr u" "foldE (run_pending E) js u = Inr s'" by (auto simp: res_simps)
  then have "cape_step s u" by (auto simp: run_pending_def assertE_def split: if_splits intro: step_job)
  from converse_rtranclp_into_rtranclp [of cape_step, OF this Cons.IH [OF u(2)]] show ?case .
qed simp

text \<open>The node of the example gets its address, its connection and its session, and a health check is queued.\<close>

definition demo_jobs :: "job list" where
  "demo_jobs = [My_instance_state_get 0, Connect_execute 0, Ssh_assembly_connect 0]"

lemmas session_eval = run_pending_def assertE_def run_job_def my_instance_state_get_def instance_state_completion_def
  transport_connect_def connect_execute_def ssh_assembly_connect_def session_init_def session_startup_def session_userauth_def
  session_keepalive_config_def ssh_keepalive_send_def session_connected_def ssh_state_set_def LIBSSH2_ERROR_EAGAIN_def
  node_state_set_def recover_state_set_def node_rd_def node_upd_def cape_changing_def node_state_change_event_def
  node_update_addr_info_def event_send_def schedule_processing_def assembly_healthcheck_def transport_execute_def
  transport_schedule_def qb_keys_def new_ssh_op_def

lemma demo_jobs_run:
  "\<exists>s u ts so x. demo_loaded = Inr s \<and> foldE (run_pending demo_env) demo_jobs s = Inr u \<and> transs u 0 = Some ts \<and>
     ts_ssh_op_head ts = [0] \<and> session_up ts \<and> sshops u 0 = Some so \<and> so_client so = Healthcheck 0 \<and> so_command so = ''uptime'' \<and>
     so_transport so = 0 \<and> so_exec_state so = SSH_CHANNEL_OPEN \<and> \<not> so_failed so \<and> Assembly_ssh_exec 0 \<in> set (jobs u) \<and>
     asms u 0 = Some x \<and> a_transport x = Some 0"
  by (simp add: demo_loaded_def demo_config_def demo_defs load_defs calloc_recover_def heap_defs ID_MAX_def
      loop_defs c_string_def snprintf_def ASSEMBLY_NAME_MAX_def RESOURCE_NAME_MAX_def COMMAND_MAX_def qb_map_get_def Let_def demo_jobs_def session_eval)

lemma demo_check_runs:
  fixes u :: "sw_list cape"
  assumes "transs u 0 = Some ts" and "ts_ssh_op_head ts = [0]" and "session_up ts" and "sshops u 0 = Some so" and "so_client so = Healthcheck 0"
    and "so_transport so = 0" and "so_exec_state so = SSH_CHANNEL_OPEN" and "\<not> so_failed so" and "Assembly_ssh_exec 0 \<in> set (jobs u)"
    and "asms u 0 = Some x" and "a_transport x = Some 0"
  shows "\<exists>v vs. run_pending demo_env (Assembly_ssh_exec 0) u = Inr v \<and> transs v 0 = Some vs \<and> ts_ssh_op_head vs = []"
  using assms
  by (simp add: run_pending_def assertE_def run_job_def demo_defs heap_defs loop_defs Let_def LIBSSH2_ERROR_EAGAIN_def assembly_ssh_exec_def
      channel_open_def channel_exec_def channel_send_eof_def channel_wait_eof_def channel_close_def channel_read_def channel_read_stderr_def
      channel_wait_closed_def channel_free_def exec_state_set_def ssh_op_complete_def completion_func_def
      assembly_healthcheck_completion_def transport_schedule_def)

section \<open>First in, first out\<close>

lemma fresh_command: "net_ok B (net_of s) \<Longrightarrow> next_sshop s \<le> q \<Longrightarrow> sshops s q = None"
  using net_okD(1) unfolding fresh_ok_def by (cases "sshops s q") fastforce+

lemma ssh_fifo_lemma:
  assumes good: "good {} s" and reach: "cape_reach s s'" and t: "transs s t = Some ts" "transs s' t = Some ts'"
  shows "\<exists>k new. ts_ssh_op_head ts' = drop k (ts_ssh_op_head ts) @ new \<and> (\<forall>q \<in> set new. sshops s q = None)"
    and "sshops s q = Some so \<Longrightarrow> sshops s' q = Some so' \<Longrightarrow>
      so_client so' = so_client so \<and> so_command so' = so_command so \<and> so_transport so' = so_transport so"
proof -
  note later = reach_later [OF good reach]
  have old: "t < next_trans s" "sshops s q = Some so \<Longrightarrow> q < next_sshop s"
    using net_okD(1) [OF goodD(1) [OF good]] t(1) unfolding fresh_ok_def by auto
  have "lane s t = Some (ts_ssh_op_head ts)" "lane s' t = Some (ts_ssh_op_head ts')" using t by (simp_all add: lane_def)
  with later old(1) have "follows (next_sshop s) (ts_ssh_op_head ts) (ts_ssh_op_head ts')"
    unfolding later_def by (metis option.inject)
  then show "\<exists>k new. ts_ssh_op_head ts' = drop k (ts_ssh_op_head ts) @ new \<and> (\<forall>q \<in> set new. sshops s q = None)"
    using fresh_command [OF goodD(1) [OF good]] unfolding follows_def by blast
  show "so_client so' = so_client so \<and> so_command so' = so_command so \<and> so_transport so' = so_transport so"
    if q: "sshops s q = Some so" "sshops s' q = Some so'"
  proof -
    have "core s' q = Some (so_client so', so_command so', so_transport so')" using q(2) by (simp add: core_def)
    with later old(2) [OF q(1)] have "core s q = Some (so_client so', so_command so', so_transport so')"
      unfolding later_def by blast
    then show ?thesis using q(1) by (simp add: core_def)
  qed
qed

text \<open>
  C11. Commands do not overtake each other. After any configuration was loaded, take any state the event loop
  reaches and any later one in which a transport of it is still there: the transport has lost commands
  only at the front of its queue, the commands that were queued meanwhile are new ones behind those
  that are left, and a command that is still there has the client, the command line and the transport
  it was given.
\<close>

theorem ssh_fifo:
  assumes "parse_and_load E xslt config (cape_init debug uuid) = Inr s0" and "cape_reach s0 s" and "cape_reach s s'"
    and "transs s t = Some ts" and "transs s' t = Some ts'"
  shows "(\<exists>k new. ts_ssh_op_head ts' = drop k (ts_ssh_op_head ts) @ new \<and> (\<forall>q \<in> set new. sshops s q = None)) \<and>
    (\<forall>q so so'. sshops s q = Some so \<and> sshops s' q = Some so' \<longrightarrow>
       so_client so' = so_client so \<and> so_command so' = so_command so \<and> so_transport so' = so_transport so)"
  using ssh_fifo_lemma [OF reach_good [OF assms(1,2)] assms(3-5)] by blast

theorem ssh_fifo_witness:
  "\<exists>s u v ts vs. demo_loaded = Inr s \<and> foldE (run_pending demo_env) demo_jobs s = Inr u \<and>
     run_pending demo_env (Assembly_ssh_exec 0) u = Inr v \<and> transs u 0 = Some ts \<and> ts_ssh_op_head ts = [0] \<and>
     transs v 0 = Some vs \<and> (\<exists>k new. ts_ssh_op_head vs = drop k [0] @ new \<and> (\<forall>q \<in> set new. sshops u q = None))"
proof -
  obtain s u ts so x where s: "demo_loaded = Inr s" "foldE (run_pending demo_env) demo_jobs s = Inr u"
    and u: "transs u 0 = Some ts" "ts_ssh_op_head ts = [0]" "session_up ts" "sshops u 0 = Some so" "so_client so = Healthcheck 0"
      "so_transport so = 0" "so_exec_state so = SSH_CHANNEL_OPEN" "\<not> so_failed so" "Assembly_ssh_exec 0 \<in> set (jobs u)"
      "asms u 0 = Some x" "a_transport x = Some 0"
    using demo_jobs_run by blast
  from demo_check_runs [OF u] obtain v vs where v: "run_pending demo_env (Assembly_ssh_exec 0) u = Inr v" "transs v 0 = Some vs" by blast
  have "cape_reach u v" using run_pending_reach [of demo_env "[Assembly_ssh_exec 0]" u v] v(1) by simp
  from ssh_fifo [OF s(1) [unfolded demo_loaded_def] run_pending_reach [OF s(2)] this u(1) v(2)]
  have "\<exists>k new. ts_ssh_op_head vs = drop k [0] @ new \<and> (\<forall>q \<in> set new. sshops u q = None)" unfolding u(2) by blast
  with s u(1,2) v show ?thesis by blast
qed

end
