(* ===== verification/Cape_Ops.thy ===== *)
theory Cape_Ops
  imports Ssh_Events
begin

text \<open>
  What the completion of an operation does: the state its resource ends in, the history entry it
  leaves, and when the operation itself is released.
\<close>

section \<open>The state of a resource after an operation\<close>

text \<open>The table of \<open>resource_state_set\<close>; other methods leave the state alone.\<close>

definition outcome_state :: "string \<Rightarrow> u32 \<Rightarrow> ocf_exitcode \<Rightarrow> recover_state \<Rightarrow> recover_state" where
  "outcome_state method interval ec old =
     (if method = ''monitor'' then
        (if ec = OCF_OK then RECOVER_STATE_RUNNING
         else if interval = 0 then RECOVER_STATE_STOPPED else RECOVER_STATE_FAILED)
      else if method = ''start'' \<or> method = ''stop'' then
        (if ec = OCF_OK then (if method = ''start'' then RECOVER_STATE_RUNNING else RECOVER_STATE_STOPPED)
         else if ec \<in> {OCF_INVALID_PARAM..OCF_NOT_CONFIGURED} then RECOVER_STATE_UNRECOVERABLE
         else RECOVER_STATE_UNKNOWN)
      else old)"

lemma hard_error_range: "pe_resource_is_hard_error ec \<longleftrightarrow> ec \<in> {OCF_INVALID_PARAM..OCF_NOT_CONFIGURED}"
  by (auto simp: pe_resource_is_hard_error_def)

lemma rsc_state_set_result:
  assumes "rsc_state_set E r st s = Inr s'" and "rsc_rd r s = Inr rec"
  shows "\<exists>w. rsc_rd r s' = Inr (rec\<lparr>rc_state := st, rc_sw := w\<rparr>)"
  using rsc.state_set_result [OF assms(1) [unfolded rsc_state_set_def]] assms(2) by auto

lemma resource_state_set_result:
  assumes "resource_state_set E (Some r) op ec s = Inr s'" and "rsc_rd r s = Inr rec"
  shows "\<exists>w. rsc_rd r s' =
    Inr (rec\<lparr>rc_state := outcome_state (op_method op) (op_interval op) ec (rc_state rec), rc_sw := w\<rparr>)"
proof -
  have same: "\<exists>w. rsc_rd r s = Inr (rec\<lparr>rc_state := rc_state rec, rc_sw := w\<rparr>)"
    using assms(2) by (auto intro: exI [of _ "rc_sw rec"])
  show ?thesis
    using assms(1) same rsc_state_set_result [OF _ assms(2)]
    by (auto simp: resource_state_set_def outcome_state_def hard_error_range split: if_splits)
qed

text \<open>Other recovery structs than the one that is set.\<close>

lemma keeps_other_rsc:
  assumes "r' \<noteq> r"
  shows "keeps (rsc_rd r') (rsc_state_set E r st)"
proof -
  have upd: "rsc_rd r' (rsc_upd r f s) = rsc_rd r' s" for f and s :: "'a cape"
    using assms by (simp add: rsc_rd_def rsc_upd_def heap_defs)
  show ?thesis
    unfolding rsc_state_set_def recover_state_set_def recover_failed_def
    by (rule keeps_I) (intro okE_intros okE_bind_get [where m = "rsc_rd r _"] keep_bind
        keeps_okE [OF rsc_view.keeps_changing] keeps_okE [OF rsc_view.keeps_call]; simp add: upd)
qed

lemma keeps_node_rsc: "keeps (node_rd a) (rsc_state_set E r st)"
proof -
  have upd: "node_rd a (rsc_upd r f s) = node_rd a s" for f and s :: "'a cape"
    by (simp add: node_rd_def rsc_upd_def heap_defs)
  show ?thesis
    unfolding rsc_state_set_def recover_state_set_def recover_failed_def
    by (rule keeps_I) (intro okE_intros okE_bind_get [where m = "rsc_rd r _"] keep_bind
        keeps_okE [OF node_view.keeps_changing] keeps_okE [OF node_view.keeps_call]; simp add: upd)
qed

text \<open>The stages of \<open>resource_action_completed\<close>.\<close>

definition op_executed :: "op_ptr \<Rightarrow> 'sw cape \<Rightarrow> 'sw cape" where
  "op_executed p = upd_op p (\<lambda>op. op\<lparr>op_times_executed := op_times_executed op + 1\<rparr>)"

definition target_met :: "pe_operation \<Rightarrow> ocf_exitcode \<Rightarrow> bool" where
  "target_met op ec \<longleftrightarrow> word_of_int ec = op_target_outcome op"

definition completed_record ::
  "'sw env \<Rightarrow> rsc_ptr option \<Rightarrow> op_ptr \<Rightarrow> pe_operation \<Rightarrow> ocf_exitcode \<Rightarrow> 'sw cape \<Rightarrow> 'sw cape res" where
  "completed_record E rp p op ec s =
     bindE (if strstr (op_rname op) (op_hostname op) then op_history_save E rp p ec s else Inr s) (\<lambda>s.
     if op_times_executed op + 1 \<le> 1 then pe_resource_completed E p (word_of_int ec) s else Inr s)"

definition completed_release :: "rsc_ptr option \<Rightarrow> op_ptr \<Rightarrow> pe_operation \<Rightarrow> ocf_exitcode \<Rightarrow> 'sw cape \<Rightarrow> 'sw cape res" where
  "completed_release rp p op ec s =
     (let s = (if target_met op ec then s else schedule_processing s) in
      if op_interval op > 0 \<and> target_met op ec then monitor_rearm rp p (op_interval op) s
      else pe_resource_unref p s)"

lemma action_completed_stages:
  assumes "ops s p = Some op" and "op_target op s = Inr (a, x, rp)"
  shows "resource_action_completed E p ec s =
    bindE (completed_record E rp p op ec (op_executed p s)) (\<lambda>s.
    bindE (resource_state_set E rp op ec s) (completed_release rp p op ec))"
  unfolding resource_action_completed_def completed_record_def completed_release_def [abs_def] bindE_assoc
  by (simp only: assms op_get_def derefE_simps bindE_simps Let_def op_executed_def target_met_def prod.case)

lemma action_completedE:
  assumes "resource_action_completed E p ec s = Inr s'" and "ops s p = Some op"
    and "op_target op s = Inr (a, x, rp)"
  obtains s1 s2 where "completed_record E rp p op ec (op_executed p s) = Inr s1"
    and "resource_state_set E rp op ec s1 = Inr s2" and "completed_release rp p op ec s2 = Inr s'"
  using assms(1) unfolding action_completed_stages [OF assms(2,3)] bindE_eq_Inr by blast

context op_view
begin

lemma v_op_executed [simp]: "V (op_executed p s) = V s"
  by (simp add: op_executed_def)

lemma keeps_completed_record: "keeps V (completed_record E rp p op ec)"
  unfolding completed_record_def
  by (rule keeps_I) (intro okE_intros keep_bind keeps_okE [OF keeps_history_save]
      keeps_okE [OF keeps_completed]; simp)

lemma keeps_completed_release: "keeps V (completed_release rp p op ec)"
  unfolding completed_release_def
  by (rule keeps_I) (intro okE_intros keeps_okE [OF keeps_monitor_rearm] keeps_okE [OF keeps_unref]; simp)

lemma completed_view:
  assumes "\<And>st. keeps V (rsc_state_set E r st)"
    and "resource_action_completed E p ec s = Inr s'"
    and "ops s p = Some op" and "op_target op s = Inr (a, x, Some r)"
  shows "V s' = V s"
proof -
  have rss: "keeps V (resource_state_set E (Some r) op ec)"
    unfolding resource_state_set_def
    by (rule keeps_I) (simp; intro conjI impI keeps_okE [OF assms(1)] refl)
  from assms(2-4) obtain s1 s2 where "completed_record E (Some r) p op ec (op_executed p s) = Inr s1"
    "resource_state_set E (Some r) op ec s1 = Inr s2" "completed_release (Some r) p op ec s2 = Inr s'"
    by (rule action_completedE)
  then show ?thesis
    using keeps_D [OF keeps_completed_record] keeps_D [OF rss] keeps_D [OF keeps_completed_release] by simp
qed

end

lemma action_completed_lemma:
  assumes "resource_action_completed E p ec s = Inr s'" and "ops s p = Some op"
    and "op_target op s = Inr (a, x, Some r)" and "rsc_rd r s = Inr rec"
  shows "(\<exists>w. rsc_rd r s' =
      Inr (rec\<lparr>rc_state := outcome_state (op_method op) (op_interval op) ec (rc_state rec), rc_sw := w\<rparr>)) \<and>
    (\<forall>r'. r' \<noteq> r \<longrightarrow> rsc_rd r' s' = rsc_rd r' s) \<and> (\<forall>b. node_rd b s' = node_rd b s)"
proof (intro conjI allI impI)
  let ?P = "\<lambda>u. \<exists>w. rsc_rd r u =
    Inr (rec\<lparr>rc_state := outcome_state (op_method op) (op_interval op) ec (rc_state rec), rc_sw := w\<rparr>)"
  from assms(1-3) obtain s1 s2 where s1: "completed_record E (Some r) p op ec (op_executed p s) = Inr s1"
    and s2: "resource_state_set E (Some r) op ec s1 = Inr s2"
    and s': "completed_release (Some r) p op ec s2 = Inr s'"
    by (rule action_completedE)
  have "rsc_rd r s1 = Inr rec"
    using keeps_D [OF rsc_view.keeps_completed_record s1] assms(4) by simp
  from resource_state_set_result [OF s2 this] show "?P s'"
    using keeps_D [OF rsc_view.keeps_completed_release s'] by simp
  show "rsc_rd r' s' = rsc_rd r' s" if "r' \<noteq> r" for r'
    by (rule rsc_view.completed_view [OF keeps_other_rsc [OF that] assms(1-3)])
  show "node_rd b s' = node_rd b s" for b
    by (rule node_view.completed_view [OF keeps_node_rsc assms(1-3)])
qed

text \<open>
  C5. When the operation \<open>op\<close> on a resource completes with an exit code, the resource ends in the
  state that the table gives for the method, the interval and the code, whatever the callbacks did on
  the way, with its limits and callbacks as they were; no other resource and no node changes its state.
\<close>

theorem action_completed_outcome:
  assumes "resource_action_completed E p ec s = Inr s'" and "ops s p = Some op"
    and "op_target op s = Inr (a, x, Some r)" and "rsc_rd r s = Inr rec"
  shows "(\<exists>w. rsc_rd r s' =
      Inr (rec\<lparr>rc_state := outcome_state (op_method op) (op_interval op) ec (rc_state rec), rc_sw := w\<rparr>)) \<and>
    (\<forall>r'. r' \<noteq> r \<longrightarrow> rsc_rd r' s' = rsc_rd r' s) \<and> (\<forall>b. node_rd b s' = node_rd b s)"
  using assms by (rule action_completed_lemma)

lemmas completion_eval = resource_action_completed_def op_target_def op_history_save_def
  history_entry_def pe_resource_completed_def resource_state_set_def rsc_state_set_def
  recover_state_set_def recover_failed_def rsc_rd_def rsc_upd_def cape_changing_def cape_call_def
  resource_state_change_event_def event_send_def schedule_processing_def pe_resource_unref_def

theorem action_completed_outcome_witness:
  "\<exists>s' w. resource_action_completed demo_env 0 OCF_NOT_INSTALLED demo_state = Inr s' \<and>
     rsc_rd 0 s' = Inr ((r_recover demo_rsc)\<lparr>rc_state := RECOVER_STATE_UNRECOVERABLE, rc_sw := w\<rparr>)"
proof -
  have "\<exists>s'. resource_action_completed demo_env 0 OCF_NOT_INSTALLED demo_state = Inr s'"
    by (simp add: completion_eval demo_state_defs demo_env_def heap_defs qb_map_get_def
        loop_job_add_def pe_resource_is_hard_error_def Let_def)
  then obtain s' where s': "resource_action_completed demo_env 0 OCF_NOT_INSTALLED demo_state = Inr s'" by blast
  have "ops demo_state 0 = Some demo_op" "op_target demo_op demo_state = Inr (0, demo_node, Some 0)"
    "rsc_rd 0 demo_state = Inr (r_recover demo_rsc)"
    by (simp_all add: demo_state_defs op_target_def rsc_rd_def heap_defs qb_map_get_def)
  from action_completed_outcome [OF s' this] s' show ?thesis
    by (auto simp: outcome_state_def demo_op_def)
qed

section \<open>Keys of the operation history\<close>

lemma show_d_chars: "c \<in> set (show_d w) \<Longrightarrow> c = CHR ''-'' \<or> is_digit c"
  by (auto simp: show_d_def show_int_def dest: show_nat_digits split: if_splits)

lemma underscore_not_digit [simp]: "\<not> is_digit CHR ''_''"
  by (simp add: is_digit_def)

lemma underscore_show_d: "CHR ''_'' \<notin> set (show_d w)"
  using show_d_chars [of "CHR ''_''" w] by auto

lemma length_show_nat: "n < 10 ^ k \<Longrightarrow> 0 < k \<Longrightarrow> length (show_nat n) \<le> k"
proof (induction k arbitrary: n)
  case (Suc k)
  show ?case
  proof (cases "n < 10")
    case False
    then have "0 < k" using Suc.prems by (cases k) auto
    moreover have "n div 10 < 10 ^ k" using Suc.prems by (simp add: less_mult_imp_div_less)
    ultimately show ?thesis using Suc.IH [of "n div 10"] False by (simp add: show_nat.simps [of n])
  qed (simp add: show_nat.simps [of n])
qed simp

lemma length_show_d: "length (show_d w) \<le> 11"
proof -
  have range: "- (2 ^ 31) \<le> sint w" "sint w < 2 ^ 31"
    using sint_range_size [of w] by (simp_all add: word_size)
  have "length (show_nat (nat (- sint w))) \<le> 10" if "sint w < 0"
    using range that by (intro length_show_nat) auto
  moreover have "length (show_nat (nat (sint w))) \<le> 10"
    using range by (intro length_show_nat) auto
  ultimately show ?thesis by (auto simp: show_d_def show_int_def)
qed

text \<open>A string is determined by what stands before and after its last separator.\<close>

lemma last_separator:
  assumes "xs @ c # ys = xs' @ c # ys'" and "c \<notin> set ys" and "c \<notin> set ys'"
  shows "xs = xs' \<and> ys = ys'"
proof -
  have after: "takeWhile (\<lambda>d. d \<noteq> c) (rev (us @ c # vs)) = rev vs"
    if "c \<notin> set vs" for us vs
    using that by (auto simp: takeWhile_append)
  have "rev ys = rev ys'"
    using after [OF assms(2), of xs] after [OF assms(3), of xs'] assms(1) by simp
  with assms(1) show ?thesis by simp
qed

text \<open>
  Operations have distinct keys in the history unless they agree in resource, method and interval,
  as long as the names keep to the limits of \<^verbatim>\<open>cape.h\<close> and the method contains no underscore: the
  buffer of the key never truncates, and the interval and the method can be read back from it.
\<close>

lemma history_key_inj:
  assumes "length rname \<le> RESOURCE_NAME_MAX" and "length method \<le> METHOD_NAME_MAX"
    and "length rname' \<le> RESOURCE_NAME_MAX" and "length method' \<le> METHOD_NAME_MAX"
    and "CHR ''_'' \<notin> set method" and "CHR ''_'' \<notin> set method'"
    and "history_key rname method interval = history_key rname' method' interval'"
  shows "rname = rname' \<and> method = method' \<and> interval = interval'"
proof -
  have fits: "history_key r m i = (r @ ''_'' @ m) @ CHR ''_'' # show_d i"
    if "length r \<le> RESOURCE_NAME_MAX" "length m \<le> METHOD_NAME_MAX" for r m i
    using that length_show_d [of i]
    by (simp add: history_key_def snprintf_fits RESOURCE_NAME_MAX_def METHOD_NAME_MAX_def OP_NAME_MAX_def)
  have "(rname @ CHR ''_'' # method) @ CHR ''_'' # show_d interval =
      (rname' @ CHR ''_'' # method') @ CHR ''_'' # show_d interval'"
    using assms(7) fits [OF assms(1,2)] fits [OF assms(3,4)] by simp
  from last_separator [OF this underscore_show_d underscore_show_d]
  have "rname @ CHR ''_'' # method = rname' @ CHR ''_'' # method'" "show_d interval = show_d interval'" by auto
  with last_separator [OF this(1) assms(5,6)] show ?thesis by (simp add: show_d_inj)
qed

section \<open>Entries of the operation history\<close>

lemma digest_read_frame [simp]:
  "digest_read (s\<lparr>op_history_map := m\<rparr>) d = digest_read s d"
  "digest_read (s\<lparr>call_order := c\<rparr>) d = digest_read s d"
  by (simp_all add: digest_read_def op_get_def split: digest.splits)

lemma digest_free_read:
  assumes "digest_free d s = Inr s'" and "digest_read s (Digest_of p) = Inr new"
    and "digest_read s d = Inr old" and "old \<noteq> new"
  shows "digest_read s' (Digest_of p) = Inr new \<and> op_history_map s' = op_history_map s \<and>
    call_order s' = call_order s \<and> ops s' p = ops s p"
  using assms
  by (cases d) (auto simp: digest_free_def digest_read_def heap_defs bindE_eq_Inr derefE_eq_Inr split: if_splits)

text \<open>The entry that a record starts from: a new one, or the old one with the operation's digest.\<close>

lemma history_entry_known:
  assumes entry: "history_entry r p op key s = Inr (oh, t)" and "ops s p = Some op" and d: "op_digest op = Some d"
  shows "digest_read t (oh_op_digest oh) = Inr d \<and> op_history_map t = op_history_map s \<and>
      call_order t = call_order s \<and>
      (case qb_map_get (op_history_map s) key of
         None \<Rightarrow> oh_resource oh = r \<and> oh_rsc_id oh = key
       | Some old \<Rightarrow> oh_resource oh = oh_resource old \<and> oh_rsc_id oh = oh_rsc_id old \<and>
           oh_rc oh = oh_rc old \<and> oh_last_rc_change oh = oh_last_rc_change old)"
proof -
  have own: "digest_read s (Digest_of p) = Inr d"
    using assms(2) d by (simp add: digest_read_def op_get_def)
  show ?thesis
  proof (cases "qb_map_get (op_history_map s) key")
    case None
    with entry d show ?thesis by (auto simp: history_entry_def new_history_def digest_read_def)
  next
    case (Some old)
    then obtain od where od: "digest_read s (oh_op_digest old) = Inr od"
      using entry d by (cases "digest_read s (oh_op_digest old)") (simp_all add: history_entry_def)
    show ?thesis
    proof (cases "od = d")
      case True
      with entry d Some od show ?thesis by (simp add: history_entry_def)
    next
      case False
      then obtain u where u: "digest_free (oh_op_digest old) s = Inr u" "t = u"
        "oh = old\<lparr>oh_op_digest := Digest_of p\<rparr>"
        using entry d Some od by (cases "digest_free (oh_op_digest old) s") (simp_all add: history_entry_def)
      with digest_free_read [OF u(1) own od False] Some show ?thesis by simp
    qed
  qed
qed



lemma history_save_op:
  assumes "op_history_save E r p ec s = Inr s'" and "ops s p = Some op"
  shows "ops s' p = Some op"
proof -
  have own: "digest_read s (Digest_of p) = derefE BadPtr (op_digest op)"
    using assms(2) by (simp add: digest_read_def op_get_def)
  let ?key = "history_key (op_rname op) (op_method op) (op_interval op)"
  obtain oh t where entry: "history_entry r p op ?key s = Inr (oh, t)" and s': "ops s' = ops t"
    using assms by (cases "history_entry r p op ?key s")
      (auto simp: op_history_save_def op_get_def Let_def split: prod.splits)
  obtain d where d: "op_digest op = Some d"
    using entry by (cases "op_digest op") (simp_all add: history_entry_def)
  show ?thesis
  proof (cases "t = s")
    case False
    then obtain old od where "qb_map_get (op_history_map s) ?key = Some old"
      and od: "digest_read s (oh_op_digest old) = Inr od" "od \<noteq> d" "digest_free (oh_op_digest old) s = Inr t"
      using entry d by (auto simp: history_entry_def bindE_eq_Inr split: option.splits if_splits)
    from digest_free_read [OF od(3) _ od(1,2)] own d show ?thesis by (simp add: s' assms(2))
  qed (simp add: s' assms(2))
qed

text \<open>
  C37. A recorded digest that differs is replaced by a pointer into the operation: once the operation is
  released, the entry is still in the history, but its digest is freed memory, which the next status
  document reads.
\<close>

theorem history_digest_dangles:
  assumes "op_history_save E r p ec s = Inr s'" and "ops s p = Some op" and "op_refcount op = 1"
    and "key = history_key (op_rname op) (op_method op) (op_interval op)"
    and "qb_map_get (op_history_map s) key = Some old" and "digest_read s (oh_op_digest old) = Inr od"
    and "op_digest op \<noteq> Some od"
  shows "\<exists>s'' oh. pe_resource_unref p s' = Inr s'' \<and> qb_map_get (op_history_map s'') key = Some oh \<and>
    digest_read s'' (oh_op_digest oh) = Inl BadPtr"
proof -
  obtain d where d: "op_digest op = Some d"
    using assms(1,2) by (cases "op_digest op") (simp_all add: op_history_save_def history_entry_def op_get_def Let_def)
  with assms(7) have "od \<noteq> d" by simp
  from assms(1,2,5,6) d this obtain u where "digest_free (oh_op_digest old) s = Inr u"
    by (cases "digest_free (oh_op_digest old) s")
      (simp_all add: op_history_save_def history_entry_def op_get_def Let_def assms(4))
  with assms(1,2,5,6) d \<open>od \<noteq> d\<close> obtain oh where
    oh: "qb_map_get (op_history_map s') key = Some oh" "oh_op_digest oh = Digest_of p"
    by (auto simp: op_history_save_def history_entry_def op_get_def Let_def assms(4))
  have "pe_resource_unref p s' = Inr (s'\<lparr>ops := (ops s')(p := None)\<rparr>)"
    using history_save_op [OF assms(1,2)] assms(3) d by (rule unref_last)
  with oh show ?thesis by (auto simp: digest_read_def op_get_def)
qed

definition demo_key :: string where
  "demo_key = history_key ''rsc_web_httpd'' ''start'' 0"

definition demo_history :: operation_history where
  "demo_history = new_history (Some 0) demo_key demo_op ''other''"

theorem history_digest_dangles_witness:
  "\<exists>s' s'' oh. op_history_save demo_env (Some 0) 0 OCF_OK
       (demo_state\<lparr>op_history_map := [(demo_key, demo_history)]\<rparr>) = Inr s' \<and>
     pe_resource_unref 0 s' = Inr s'' \<and> qb_map_get (op_history_map s'') demo_key = Some oh \<and>
     digest_read s'' (oh_op_digest oh) = Inl BadPtr"
proof -
  let ?s = "demo_state\<lparr>op_history_map := [(demo_key, demo_history)]\<rparr>"
  have key: "history_key (op_rname demo_op) (op_method demo_op) (op_interval demo_op) = demo_key"
    by (simp add: demo_key_def demo_op_def)
  have op: "ops ?s 0 = Some demo_op" "op_refcount demo_op = 1" "op_digest demo_op = Some ''digest''"
    by (simp_all add: demo_state_def cape_init_def demo_op_def)
  have old: "qb_map_get (op_history_map ?s) demo_key = Some demo_history"
    "digest_read ?s (oh_op_digest demo_history) = Inr ''other''"
    by (simp_all add: qb_map_get_def demo_history_def new_history_def digest_read_def)
  have "\<exists>s'. op_history_save demo_env (Some 0) 0 OCF_OK ?s = Inr s'"
    using op old by (simp add: op_history_save_def history_entry_def op_get_def key Let_def
        demo_history_def new_history_def digest_free_def)
  then obtain s' where s': "op_history_save demo_env (Some 0) 0 OCF_OK ?s = Inr s'" by blast
  show ?thesis
    using history_digest_dangles [OF s' op(1,2) key [symmetric] old] s' op(3) by auto
qed

section \<open>Clearing the history of a node\<close>

definition owner :: "'sw cape \<Rightarrow> rsc_ptr \<Rightarrow> asm_ptr option" where
  "owner s r = map_option r_assembly (rscs s r)"

definition entry_of :: "'sw cape \<Rightarrow> asm_ptr \<Rightarrow> string \<Rightarrow> bool" where
  "entry_of s a k \<longleftrightarrow>
     (case qb_map_get (op_history_map s) k of
        None \<Rightarrow> False
      | Some oh \<Rightarrow> (case oh_resource oh of None \<Rightarrow> False | Some r \<Rightarrow> owner s r = Some a))"

lemma entry_of_iff:
  "entry_of s a k \<longleftrightarrow>
     (\<exists>oh r. qb_map_get (op_history_map s) k = Some oh \<and> oh_resource oh = Some r \<and> owner s r = Some a)"
  by (simp add: entry_of_def split: option.splits)

interpretation owner: op_view "owner :: 'sw cape \<Rightarrow> _"
  by unfold_locales
    (auto simp: owner_def fun_eq_iff heap_defs loop_job_add_def loop_job_del_def option.map_comp comp_def)

lemma keeps_history_monitor_stop: "keeps op_history_map (recurring_monitor_stop p)"
  unfolding recurring_monitor_stop_def pe_resource_unref_def
  by (rule keeps_I) (intro okE_intros keep_bind; simp add: heap_defs loop_timer_del_def)

lemma keeps_history_digest_free: "keeps op_history_map (digest_free d)"
  unfolding digest_free_def by (rule keeps_I) (cases d; simp; intro okE_bind_get; simp add: heap_defs)

lemma history_drop_map: "okE (\<lambda>s'. op_history_map s' = qb_map_rm key (op_history_map s)) (history_drop r key oh s)"
  unfolding history_drop_def
  by (intro okE_intros okE_bind [where Q = "\<lambda>u. op_history_map u = op_history_map s"]
      keeps_okE [OF keeps_history_monitor_stop] keeps_okE [OF keeps_history_digest_free]; simp)

lemma clear_one:
  assumes "history_clear_one a x s = Inr u"
  shows "owner u = owner s \<and>
    op_history_map u = (if entry_of s a x then qb_map_rm x (op_history_map s) else op_history_map s)"
proof (cases "qb_map_get (op_history_map s) x")
  case (Some oh)
  with assms obtain r y where r: "oh_resource oh = Some r" "rscs s r = Some y"
    and u: "(if r_assembly y = a then history_drop r x oh s else Inr s) = Inr u"
    by (auto simp: history_clear_one_def bindE_eq_Inr derefE_eq_Inr rsc_get_def)
  have own: "entry_of s a x \<longleftrightarrow> r_assembly y = a"
    using Some r by (simp add: entry_of_def owner_def)
  show ?thesis
  proof (cases "r_assembly y = a")
    case True
    with u have "history_drop r x oh s = Inr u" by simp
    with True own okE_D [OF history_drop_map] keeps_D [OF owner.keeps_history_drop] show ?thesis by metis
  qed (use u own in simp)
qed (use assms in \<open>simp add: entry_of_def history_clear_one_def\<close>)

lemma clear_fold:
  "foldE (history_clear_one a) xs s = Inr s' \<Longrightarrow> qb_map_get (op_history_map s') k =
     (if k \<in> set xs \<and> entry_of s a k then None else qb_map_get (op_history_map s) k)"
proof (induction xs arbitrary: s)
  case (Cons x xs)
  from Cons.prems obtain u where u: "history_clear_one a x s = Inr u" "foldE (history_clear_one a) xs u = Inr s'"
    unfolding foldE.simps bindE_eq_Inr by blast
  note one = clear_one [OF u(1)]
  from one have "entry_of u a k \<longleftrightarrow> entry_of s a k \<and> k \<noteq> x"
    by (cases "entry_of s a x") (auto simp: entry_of_iff)
  moreover from one have "qb_map_get (op_history_map u) k =
      (if k = x \<and> entry_of s a x then None else qb_map_get (op_history_map s) k)" by simp
  ultimately show ?case using Cons.IH [OF u(2)] by auto
qed simp

text \<open>
  Clearing the history of a node removes the entries of the node's own resources and no other, in
  whatever order the iterator visits the keys, provided it visits all of them; the remaining entries
  are unchanged.
\<close>

lemma history_cleared:
  assumes "node_op_history_clear E a s = Inr s'"
    and "set (map_order E (qb_keys (op_history_map s))) = set (qb_keys (op_history_map s))"
  shows "qb_map_get (op_history_map s') k =
    (if entry_of s a k then None else qb_map_get (op_history_map s) k)"
proof -
  have "entry_of s a k \<Longrightarrow> k \<in> set (qb_keys (op_history_map s))"
    by (auto simp: entry_of_def set_qb_keys split: option.splits)
  with clear_fold [OF assms(1) [unfolded node_op_history_clear_def]] assms(2) show ?thesis by auto
qed

end
