(* ===== verification/Node_Recovery.thy ===== *)
theory Node_Recovery
  imports Ssh_Channel Cape_Ops
begin

text \<open>
  What the failure of a node sets off, from the report to the request for a new instance, and what the
  failure handlers of the ssh transport do with it.
\<close>

section \<open>Frames of the parts of a restart\<close>

definition wires :: "'sw cape \<Rightarrow> (trans_ptr \<Rightarrow> trans_ssh option) \<times> event list" where
  "wires s = (transs s, events s)"

lemma keeps_wires:
  "keeps wires (node_op_history_clear E a)" "keeps wires (instance_create E a)"
proof -
  have unref: "keeps wires (pe_resource_unref p)" for p
    unfolding pe_resource_unref_def by (rule keeps_I) (intro okE_intros; simp add: wires_def heap_defs)
  have stop: "keeps wires (recurring_monitor_stop p)" for p
    unfolding recurring_monitor_stop_def
    by (rule keeps_I) (intro okE_intros keep_bind keeps_okE [OF unref]; simp add: wires_def heap_defs loop_timer_del_def)
  have digest: "keeps wires (digest_free d)" for d
    unfolding digest_free_def by (rule keeps_I) (cases d; simp; intro okE_bind_get; simp add: wires_def heap_defs)
  have drop: "keeps wires (history_drop r key oh)" for r key oh
    unfolding history_drop_def
    by (rule keeps_I) (intro okE_intros keep_bind keeps_okE [OF stop] keeps_okE [OF digest]; simp add: wires_def)
  show "keeps wires (node_op_history_clear E a)"
    unfolding node_op_history_clear_def history_clear_one_def
    by (rule keeps_I) (intro keeps_okE [OF keeps_foldE] keeps_I okE_intros keeps_okE [OF drop]; simp add: wires_def)
  show "keeps wires (instance_create E a)"
    unfolding instance_create_def image_id_get_completion_def instance_create_completion_def
    by (rule keeps_I) (intro okE_intros keep_bind; simp add: wires_def heap_defs loop_job_add_def)
qed

lemma keeps_history_disconnect: "keeps op_history_map (transport_disconnect a)"
  unfolding transport_disconnect_def transport_unschedule_def ssh_op_delete_def disconnect_begin_def
    disconnect_end_def Let_def
  by (rule keeps_I) (intro okE_intros keep_bind okE_foldE; simp add: heap_defs loop_defs)

lemma keeps_history_instance: "keeps op_history_map (instance_create E a)"
  unfolding instance_create_def image_id_get_completion_def instance_create_completion_def
  by (rule keeps_I) (intro okE_intros keep_bind; simp add: heap_defs loop_job_add_def)

section \<open>The failure of a node\<close>

definition node_event :: "'sw cape \<Rightarrow> 'sw assembly \<Rightarrow> recover_state \<Rightarrow> event" where
  "node_event s x to = \<lparr>ev_app = application_name s, ev_node = a_name x, ev_resource = None,
     ev_state = state_str (rc_state (a_recover x)) to, ev_reason = ''bla''\<rparr>"

text \<open>The state in which the restart of a node begins.\<close>

definition failing :: "asm_ptr \<Rightarrow> 'sw assembly \<Rightarrow> 'sw cape \<Rightarrow> 'sw cape" where
  "failing a x s = node_upd a (\<lambda>r. r\<lparr>rc_state := RECOVER_STATE_FAILED\<rparr>)
     (schedule_processing (event_send (node_event s x RECOVER_STATE_FAILED) s))"

definition unlimited :: "'sw assembly \<Rightarrow> bool" where
  "unlimited x \<longleftrightarrow> num_failures (a_recover x) \<le> 0 \<or> failure_period (a_recover x) \<le> 0"

lemma node_failed_restarts:
  assumes "asms s a = Some x" and "node_wired a x" and "rc_state (a_recover x) \<noteq> RECOVER_STATE_FAILED"
    and "unlimited x"
  shows "node_state_set E a RECOVER_STATE_FAILED s = node_recover_restart E a (failing a x s)"
proof -
  let ?r = "a_recover x"
  have w: "rc_instance ?r = Some a" "state_changing ?r = Some Node_state_change_event"
    "restart ?r = Node_recover_restart"
    using assms(2) by (simp_all add: node_wired_def rc_wired_def)
  let ?s = "schedule_processing (event_send (node_event s x RECOVER_STATE_FAILED) s)"
  have rd: "node_rd a s = Inr ?r" using assms(1) by (simp add: node_rd_def asm_get_def)
  have notify: "cape_changing E Node_state_change_event (Some a) (rc_state ?r) RECOVER_STATE_FAILED s = Inr ?s"
    using assms(1) by (simp add: cape_changing_def node_state_change_event_def asm_get_def node_event_def)
  have rd': "node_rd a (failing a x s) = Inr (?r\<lparr>rc_state := RECOVER_STATE_FAILED\<rparr>)"
    unfolding failing_def
    by (rule node.rd_upd) (use rd in simp)
  have "recover_failed (sw_lib E) (clock E) (clock' E) (node_rd a) (node_upd a) (cape_call E) (failing a x s)
      = node_recover_restart E a (failing a x s)"
    using assms(4) w by (auto simp: recover_failed_def rd' unlimited_def cape_call_def)
  then show ?thesis
    using assms(3) by (simp add: node_state_set_def recover_state_set_def rd w notify failing_def)
qed

lemma failing_simps [simp]:
  "transs (failing a x s) = transs s" "op_history_map (failing a x s) = op_history_map s"
  "rscs (failing a x s) = rscs s" "jobs (failing a x s) = jobs s @ [Process_job]"
  "events (failing a x s) = events s @ [node_event s x RECOVER_STATE_FAILED]"
  "asms (failing a x s) a = map_option (\<lambda>x. x\<lparr>a_recover := (a_recover x)\<lparr>rc_state := RECOVER_STATE_FAILED\<rparr>\<rparr>) (asms s a)"
  by (simp_all add: failing_def node_upd_def upd_asm_def schedule_processing_def loop_job_add_def event_send_def)

lemma instance_create_job: "okE (\<lambda>s'. My_instance_state_get a \<in> set (jobs s')) (instance_create E a s)"
  unfolding instance_create_def
  by (intro okE_intros okE_bind_get; simp add: loop_job_add_def)

lemma restartE:
  assumes "node_recover_restart E a s = Inr s'"
  obtains s1 s2 where "transport_disconnect a s = Inr s1" and "node_op_history_clear E a s1 = Inr s2"
    and "instance_create E a s2 = Inr s'"
  using assms unfolding node_recover_restart_def bindE_eq_Inr by blast

lemma node_failed_parts:
  assumes "node_state_set E a RECOVER_STATE_FAILED s = Inr s'"
    and "asms s a = Some x" and "node_wired a x" and "rc_state (a_recover x) \<noteq> RECOVER_STATE_FAILED"
    and "unlimited x" and "a_transport x = Some t"
  obtains s1 s2 where "transport_disconnect a (failing a x s) = Inr s1"
    and "node_op_history_clear E a s1 = Inr s2" and "instance_create E a s2 = Inr s'"
    and "transs s' t = None" and "events s' = events s @ [node_event s x RECOVER_STATE_FAILED]"
proof -
  from assms(1) obtain s1 s2 where s1: "transport_disconnect a (failing a x s) = Inr s1"
    and s2: "node_op_history_clear E a s1 = Inr s2" and s': "instance_create E a s2 = Inr s'"
    unfolding node_failed_restarts [OF assms(2-5)] by (rule restartE)
  let ?x = "x\<lparr>a_recover := (a_recover x)\<lparr>rc_state := RECOVER_STATE_FAILED\<rparr>\<rparr>"
  have x: "asms (failing a x s) a = Some ?x" "a_transport ?x = Some t" using assms(2,6) by simp_all
  have "transs s t \<noteq> None"
    using s1 x by (cases "transs s t") (auto simp: transport_disconnect_def asm_get_def trans_get_def)
  then obtain ts where "transs (failing a x s) t = Some ts" by auto
  with transport_disconnect_frees [OF s1 x] have "transs s1 t = None"
    "events s1 = events s @ [node_event s x RECOVER_STATE_FAILED]" by (simp_all add: trimmed_def)
  then have "transs s' t = None" "events s' = events s @ [node_event s x RECOVER_STATE_FAILED]"
    using keeps_D [OF keeps_wires(1) s2] keeps_D [OF keeps_wires(2) s'] by (simp_all add: wires_def)
  with s1 s2 s' show ?thesis by (rule that)
qed



section \<open>A health check that fails\<close>



section \<open>A command that times out\<close>

text \<open>The part of the state on which the progress of a transition depends.\<close>

definition transition :: "'sw cape \<Rightarrow> (graph_ptr \<Rightarrow> crm_graph option) \<times> bool \<times> bool" where
  "transition s = (graphs s, graph_updated s, working_set s)"

interpretation tr: callback_view "transition :: 'sw cape \<Rightarrow> _"
  by unfold_locales (simp_all add: transition_def heap_defs loop_job_add_def loop_job_del_def)

lemma keeps_transition_node_set: "keeps transition (node_state_set E a st)"
proof (rule keeps_I)
  fix s :: "'a cape"
  show "okE (\<lambda>s'. transition s' = transition s) (node_state_set E a st s)"
  proof (cases "node_rd a s")
    case (Inr r)
    have "transition (node_upd a f u) = transition u" for f and u :: "'a cape"
      by (simp add: transition_def node_upd_def upd_asm_def)
    then show ?thesis
      unfolding node_state_set_def
      by (intro node.state_set_view [OF Inr] tr.keeps_changing tr.keeps_call)
  qed (simp add: node_state_set_def recover_state_set_def)
qed

lemma keeps_transition_timeout: "keeps transition (ssh_timeout E q)"
proof -
  have client: "keeps transition (timeout_func E client)" for client
    unfolding timeout_func_def assembly_healthcheck_timeout_def assembly_healthcheck_failed_def
      resource_action_timeout_def transport_failed_def
    by (rule keeps_I) (cases client; simp; intro okE_intros keep_bind
        keeps_okE [OF keeps_transition_node_set]; simp)
  show ?thesis
    unfolding ssh_timeout_def
    by (rule keeps_I) (intro okE_intros keep_bind keeps_okE [OF tr.keeps_unschedule]
        keeps_okE [OF keeps_foldE] keeps_I keeps_okE [OF client]; simp)
qed

text \<open>
  C36. A command that times out never reports to the transition that asked for it: the handler of the
  time-out leaves the graph as it was and does not mark it as updated. While the engine waits for that
  command, its job only queues itself again, and every request for a new calculation is put off.
\<close>

theorem timeout_leaves_transition_waiting:
  assumes "ssh_timeout E q s = Inr s'" and "working_set s" and "\<not> graph_updated s"
  shows "graphs s' = graphs s \<and>
    process_next_job E' run_fn g s' = Inr (loop_job_add (Process_next_job g) s') \<and>
    pe_process_state E' doc debug s' = Inr (- EEXIST, s')"
  using keeps_D [OF keeps_transition_timeout assms(1)] assms(2,3)
  by (simp add: transition_def process_next_job_def pe_process_state_def)

lemmas restart_eval = node_recover_restart_def node_upd_def event_send_def schedule_processing_def
  transport_disconnect_def transport_unschedule_def disconnect_begin_def disconnect_end_def
  node_op_history_clear_def instance_create_def image_id_get_completion_def instance_create_completion_def
  ID_MAX_def

theorem timeout_leaves_transition_waiting_witness:
  "\<exists>s'. ssh_timeout demo_env 0 (demo_state\<lparr>working_set := True,
       sshops := [0 \<mapsto> new_ssh_op 0 (Resource_action \<lparr>ra_assembly = 0, ra_resource = Some 0, ra_pe_op = 0\<rparr>) ''x'']\<rparr>)
       = Inr s' \<and>
     process_next_job demo_env (resource_execute_cb demo_env) 0 s' = Inr (loop_job_add (Process_next_job 0) s')"
proof -
  let ?s = "demo_state\<lparr>working_set := True,
       sshops := [0 \<mapsto> new_ssh_op 0 (Resource_action \<lparr>ra_assembly = 0, ra_resource = Some 0, ra_pe_op = 0\<rparr>) ''x'']\<rparr>"
  have x: "node_wired 0 demo_node" "rc_state (a_recover demo_node) \<noteq> RECOVER_STATE_FAILED"
    "unlimited demo_node"
    by (simp_all add: demo_state_defs node_wired_def rc_wired_def unlimited_def)
  let ?t = "upd_trans 0 (\<lambda>ts. ts\<lparr>ts_ssh_op_head := []\<rparr>) ?s"
  have "ssh_timeout demo_env 0 ?s = node_state_set demo_env 0 RECOVER_STATE_FAILED ?t"
    by (simp add: ssh_timeout_def sshop_get_def trans_get_def new_ssh_op_def transport_unschedule_def
        timeout_func_def resource_action_timeout_def demo_state_def demo_trans_def)
  also have "\<dots> = node_recover_restart demo_env 0 (failing 0 demo_node ?t)"
    by (rule node_failed_restarts [OF _ x]) (simp add: demo_state_def upd_trans_def)
  also have "\<exists>s'. \<dots> = Inr s'"
    by (simp add: restart_eval failing_def qb_keys_def heap_defs loop_defs demo_state_defs demo_defs Let_def)
  finally obtain s' where s': "ssh_timeout demo_env 0 ?s = Inr s'" by blast
  moreover have "working_set ?s" "\<not> graph_updated ?s" by (simp_all add: demo_state_defs)
  ultimately show ?thesis using timeout_leaves_transition_waiting by blast
qed

section \<open>Escalation of a node\<close>

text \<open>
  C28. A node whose failures exceed its limits is given up: the report is an event and a request for a
  calculation, the stopwatch of the node starts anew, and nothing else happens. The transport stays,
  no new instance is requested, and a node in the failed state only leaves it by a report of another
  state.
\<close>

theorem node_escalation_gives_up:
  assumes "asms s a = Some x" and "node_wired a x" and "rc_state (a_recover x) \<noteq> RECOVER_STATE_FAILED"
    and "num_failures (a_recover x) > 0" and "failure_period (a_recover x) > 0"
    and "rc_sw (a_recover x) = Some w"
    and "recover_escalating (sw_lib E) (clock E) (clock' E) (num_failures (a_recover x))
           (failure_period (a_recover x)) w = (True, w')"
  shows "node_state_set E a RECOVER_STATE_FAILED s =
    Inr (node_upd a (\<lambda>r. r\<lparr>rc_sw := Some w'\<rparr>) (failing a x s)) \<and>
    node_state_set E a RECOVER_STATE_FAILED (node_upd a (\<lambda>r. r\<lparr>rc_sw := Some w'\<rparr>) (failing a x s)) =
    Inr (node_upd a (\<lambda>r. r\<lparr>rc_sw := Some w'\<rparr>) (failing a x s))"
proof -
  let ?r = "a_recover x"
  let ?f = "failing a x s"
  have w: "rc_instance ?r = Some a" "state_changing ?r = Some Node_state_change_event"
    "escalate ?r = Node_recover_escalate"
    using assms(2) by (simp_all add: node_wired_def rc_wired_def)
  let ?s = "schedule_processing (event_send (node_event s x RECOVER_STATE_FAILED) s)"
  have rd: "node_rd a s = Inr ?r" using assms(1) by (simp add: node_rd_def asm_get_def)
  have notify: "cape_changing E Node_state_change_event (Some a) (rc_state ?r) RECOVER_STATE_FAILED s = Inr ?s"
    using assms(1) by (simp add: cape_changing_def node_state_change_event_def asm_get_def node_event_def)
  have rd': "node_rd a ?f = Inr (?r\<lparr>rc_state := RECOVER_STATE_FAILED\<rparr>)"
    unfolding failing_def by (rule node.rd_upd) (use rd in simp)
  have "recover_failed (sw_lib E) (clock E) (clock' E) (node_rd a) (node_upd a) (cape_call E) ?f
      = Inr (node_upd a (\<lambda>r. r\<lparr>rc_sw := Some w'\<rparr>) ?f)"
    using assms(4-7) w by (simp add: recover_failed_def rd' cape_call_def node_recover_escalate_def)
  then have 1: "node_state_set E a RECOVER_STATE_FAILED s = Inr (node_upd a (\<lambda>r. r\<lparr>rc_sw := Some w'\<rparr>) ?f)"
    using assms(3) by (simp add: node_state_set_def recover_state_set_def rd w notify failing_def)
  have "node_rd a (node_upd a (\<lambda>r. r\<lparr>rc_sw := Some w'\<rparr>) ?f) =
      Inr (?r\<lparr>rc_state := RECOVER_STATE_FAILED, rc_sw := Some w'\<rparr>)"
    using node.rd_upd [OF rd'] by simp
  then show ?thesis using 1 by (simp add: node_state_set_def recover_state_set_def)
qed

theorem node_escalation_gives_up_witness:
  "\<exists>s'. node_state_set demo_env 0 RECOVER_STATE_FAILED
     (demo_state\<lparr>asms := [0 \<mapsto> demo_node\<lparr>a_recover := (a_recover demo_node)\<lparr>num_failures := 1,
        failure_period := 60, rc_sw := Some (stopwatch_split_ctl sw_list_ops (stopwatch_create sw_list_ops 0) 1)\<rparr>\<rparr>]\<rparr>)
     = Inr s' \<and> jobs s' = [Process_job] \<and> transs s' 0 = Some demo_trans"
proof -
  let ?w = "stopwatch_split_ctl sw_list_ops (stopwatch_create sw_list_ops 0) 1"
  let ?x = "demo_node\<lparr>a_recover := (a_recover demo_node)\<lparr>num_failures := 1, failure_period := 60, rc_sw := Some ?w\<rparr>\<rparr>"
  let ?s = "demo_state\<lparr>asms := [0 \<mapsto> ?x]\<rparr>"
  have x: "node_wired 0 ?x" "rc_state (a_recover ?x) \<noteq> RECOVER_STATE_FAILED"
    by (simp_all add: demo_state_defs node_wired_def rc_wired_def)
  have "\<exists>w'. recover_escalating sw_list_ops 0 0 1 60 ?w = (True, w')"
    using float_le_secs_complete [of 60 0] by (simp add: recover_escalating_def sw_list_ops_def Let_def)
  then obtain w' where w': "recover_escalating sw_list_ops 0 0 1 60 ?w = (True, w')" by blast
  have "node_state_set demo_env 0 RECOVER_STATE_FAILED ?s =
      Inr (node_upd 0 (\<lambda>r. r\<lparr>rc_sw := Some w'\<rparr>) (failing 0 ?x ?s))"
    using node_escalation_gives_up [of ?s 0 ?x ?w demo_env w'] x w' by (simp add: demo_env_def)
  then show ?thesis
    by (simp add: node_upd_def upd_asm_def) (simp add: demo_state_def cape_init_def)
qed

end
