(* ===== verification/Cloud.thy ===== *)
theory Cloud
  imports Ssh_Events
begin

text \<open>
  The two implementations of the cloud interface that \<^verbatim>\<open>inst_ctrl.c\<close> is linked with:
  \<^verbatim>\<open>src/src/openstackv1.c\<close> speaks to the HTTP interface of OpenStack through libcurl,
  \<^verbatim>\<open>src/src/deltacloud.c\<close> calls libdeltacloud. What these libraries answer is the argument of the
  definitions: \<open>http\<close> gives, for a request, nothing when the write callback is never called, and
  otherwise what libxml2 makes of the data passed to it (nothing when it is not well formed);
  \<open>deltacloud_lib\<close> gives the results of the library calls. Both implementations are values of
  \<open>cloud_answers\<close>, the interface that the engine uses. \<open>cloud_contract\<close> states what the engine needs of
  the interface, and both implementations satisfy it when the service behind them lists the same
  images and machines.
\<close>

section \<open>openstackv1.c: the callbacks of libcurl\<close>

text \<open>
  The three nested loops of the state callback share one cursor: a loop that reaches the end of its
  list leaves NULL in it, and the loop around it then reads the \<^verbatim>\<open>next\<close> field of NULL.
\<close>

fun ip_loop :: "xml list \<Rightarrow> string option option" where
  "ip_loop [] = None"
| "ip_loop (n # ns) = (if has_name ''ip'' n then Some (xmlGetProp n ''addr'') else ip_loop ns)"

fun private_loop :: "xml list \<Rightarrow> string option option res" where
  "private_loop [] = Inr None"
| "private_loop (n # ns) =
     (if has_name ''private'' n
      then (case ip_loop (kids n) of None \<Rightarrow> Inl NullDeref | Some ip \<Rightarrow> Inr (Some ip))
      else private_loop ns)"

fun addresses_loop :: "xml list \<Rightarrow> string option res" where
  "addresses_loop [] = Inr None"
| "addresses_loop (n # ns) =
     (if has_name ''addresses'' n \<and> kids n \<noteq> []
      then bindE (private_loop (kids n)) (\<lambda>found.
             case found of None \<Rightarrow> Inl NullDeref | Some ip \<Rightarrow> Inr ip)
      else addresses_loop ns)"

definition root_prop :: "xml option \<Rightarrow> string \<Rightarrow> string option" where
  "root_prop doc k = (case doc of None \<Rightarrow> None | Some top_node \<Rightarrow> xmlGetProp top_node k)"

definition instance_state_get_curl_callback ::
  "xml option \<Rightarrow> (string \<times> string option) option res" where
  "instance_state_get_curl_callback doc =
     bindE (derefE NullDeref (root_prop doc ''status'')) (\<lambda>status.
     bindE (if status = ''ACTIVE'' then bindE (derefE NullDeref doc) (\<lambda>top_node. addresses_loop (kids top_node))
            else Inr None) (\<lambda>ip_addr.
     Inr (Some (status, ip_addr))))"

fun image_loop :: "string \<Rightarrow> xml list \<Rightarrow> string option res" where
  "image_loop image_name [] = Inr None"
| "image_loop image_name (n # ns) =
     (if is_elem n
      then bindE (derefE NullDeref (xmlGetProp n ''name'')) (\<lambda>name.
             if name = image_name then Inr (xmlGetProp n ''id'') else image_loop image_name ns)
      else image_loop image_name ns)"

definition image_id_get_curl_callback :: "string \<Rightarrow> xml option \<Rightarrow> string option res" where
  "image_id_get_curl_callback image_name doc =
     bindE (derefE NullDeref doc) (\<lambda>top_node. image_loop image_name (kids top_node))"

definition instance_create_curl_callback :: "xml option \<Rightarrow> string option res" where
  "instance_create_curl_callback doc = Inr (root_prop doc ''id'')"

definition instance_destroy_curl_callback :: "xml option \<Rightarrow> bool res" where
  "instance_destroy_curl_callback doc = Inr True"

section \<open>openstackv1.c: the requests\<close>

record http_request =
  rq_verb :: string
  rq_url :: string
  rq_headers :: "string list"
  rq_body :: "string option"

type_synonym http_service = "http_request \<Rightarrow> xml option option"

definition URL_MAX :: nat where "URL_MAX = 1024"

text \<open>\<^verbatim>\<open>sprintf\<close> into a buffer of \<open>n\<close> bytes, the terminating zero included.\<close>

definition sprintf :: "nat \<Rightarrow> string \<Rightarrow> string res" where
  "sprintf n str = (if length str < n then Inr str else Inl BufferOverflow)"

definition perform :: "http_service \<Rightarrow> http_request \<Rightarrow> 'a res \<Rightarrow> (xml option \<Rightarrow> 'a res) \<Rightarrow> 'a res" where
  "perform http rq silent callback = (case http rq of None \<Rightarrow> silent | Some doc \<Rightarrow> callback doc)"

definition get_headers :: "string list" where
  "get_headers = [''Accept: application/xml'', ''X-Auth_token: sdake:dep-wp'']"

definition post_headers :: "string list" where
  "post_headers = [''Accept: application/xml'', ''Content-Type: application/xml'',
     ''X-Auth_token: sdake:dep-wp'']"

definition server_url :: "string \<Rightarrow> string" where
  "server_url instance_id = ''http://localhost:8774/v1.0/servers/'' @ instance_id"

definition state_request :: "string \<Rightarrow> http_request" where
  "state_request url = \<lparr>rq_verb = ''GET'', rq_url = url, rq_headers = get_headers, rq_body = None\<rparr>"

definition images_request :: http_request where
  "images_request = \<lparr>rq_verb = ''GET'', rq_url = ''http://localhost:8774/v1.0/images'',
     rq_headers = get_headers, rq_body = None\<rparr>"

definition create_command :: "string \<Rightarrow> string" where
  \<open>create_command image_id =
     ''<?xml version="1.0" encoding="UTF-8"?><server xmlns="http://docs.rackspacecloud.com/servers/api/v1.0" name="test" imageId="'' @
     image_id @ ''" flavorId="1"> </server>''\<close>

definition create_request :: "string \<Rightarrow> http_request" where
  "create_request command = \<lparr>rq_verb = ''POST'', rq_url = ''http://localhost:8774/v1.0/servers'',
     rq_headers = post_headers, rq_body = Some command\<rparr>"

definition destroy_request :: "string \<Rightarrow> http_request" where
  "destroy_request url = \<lparr>rq_verb = ''DELETE'', rq_url = url, rq_headers = post_headers, rq_body = None\<rparr>"

definition os1_instance_state_get :: "http_service \<Rightarrow> string \<Rightarrow> (string \<times> string option) option res" where
  "os1_instance_state_get http instance_id =
     bindE (sprintf URL_MAX (server_url instance_id)) (\<lambda>url.
     perform http (state_request url) (Inr None) instance_state_get_curl_callback)"

definition os1_image_id_get :: "http_service \<Rightarrow> string \<Rightarrow> string option res" where
  "os1_image_id_get http image_name =
     perform http images_request (Inr None) (image_id_get_curl_callback image_name)"

definition os1_instance_create_from_image_id :: "http_service \<Rightarrow> string \<Rightarrow> string option res" where
  "os1_instance_create_from_image_id http image_id =
     bindE (sprintf URL_MAX (create_command image_id)) (\<lambda>command.
     perform http (create_request command) (Inr None) instance_create_curl_callback)"

definition os1_instance_destroy_by_instance_id :: "http_service \<Rightarrow> string \<Rightarrow> bool res" where
  "os1_instance_destroy_by_instance_id http instance_id =
     bindE (sprintf URL_MAX (server_url instance_id)) (\<lambda>url.
     perform http (destroy_request url) (Inr False) instance_destroy_curl_callback)"

definition openstackv1 :: "http_service \<Rightarrow> cloud_answers" where
  "openstackv1 http = \<lparr>image_id_get = os1_image_id_get http,
     instance_create_from_image_id = os1_instance_create_from_image_id http,
     instance_state_get = os1_instance_state_get http,
     instance_destroy_by_instance_id = os1_instance_destroy_by_instance_id http\<rparr>"

section \<open>deltacloud.c\<close>

text \<open>
  The results of the library, all of one handler: \<open>deltacloud_initialize\<close> gives a return code. A
  failing \<open>deltacloud_get_instance_by_id\<close> leaves the caller's struct uninitialised, and its two callers
  do not test the return code: using the struct then is a wild access.
\<close>

record deltacloud_instance =
  di_state :: string
  di_private_addresses :: "string option list"

record deltacloud_lib =
  deltacloud_initialize :: int
  deltacloud_get_instance_by_id :: "string \<Rightarrow> deltacloud_instance option"
  deltacloud_create_instance :: "string \<Rightarrow> string option"
  deltacloud_get_images :: "(string \<times> string) list option"

definition dc_private_address :: "deltacloud_instance \<Rightarrow> string option res" where
  "dc_private_address inst =
     (case di_private_addresses inst of [] \<Rightarrow> Inl NullDeref | address # _ \<Rightarrow> Inr address)"

definition dc_instance_state_get ::
  "deltacloud_lib \<Rightarrow> string \<Rightarrow> (string \<times> string option) option res" where
  "dc_instance_state_get D instance_id =
     (if deltacloud_initialize D < 0 then Inr None
      else
        bindE (derefE BadPtr (deltacloud_get_instance_by_id D instance_id)) (\<lambda>inst.
        bindE (if di_state inst = ''RUNNING'' then dc_private_address inst else Inr None) (\<lambda>address.
        if address \<noteq> None then Inr (Some (''ACTIVE'', address))
        else Inr (Some (''PENDING'', None)))))"

definition dc_instance_create_from_image_id :: "deltacloud_lib \<Rightarrow> string \<Rightarrow> string option res" where
  "dc_instance_create_from_image_id D image_id =
     (if deltacloud_initialize D < 0 then Inr None else Inr (deltacloud_create_instance D image_id))"

fun dc_image_loop :: "string \<Rightarrow> (string \<times> string) list \<Rightarrow> string option" where
  "dc_image_loop image_name [] = None"
| "dc_image_loop image_name ((name, i) # images) =
     (if name = image_name then Some i else dc_image_loop image_name images)"

definition dc_image_id_get :: "deltacloud_lib \<Rightarrow> string \<Rightarrow> string option res" where
  "dc_image_id_get D image_name =
     (if deltacloud_initialize D < 0 then Inr None
      else case deltacloud_get_images D of
             None \<Rightarrow> Inr None
           | Some images \<Rightarrow> Inr (dc_image_loop image_name images))"

definition dc_instance_destroy_by_instance_id :: "deltacloud_lib \<Rightarrow> string \<Rightarrow> bool res" where
  "dc_instance_destroy_by_instance_id D instance_id =
     (if deltacloud_initialize D < 0 then Inr False
      else bindE (derefE BadPtr (deltacloud_get_instance_by_id D instance_id)) (\<lambda>_. Inr True))"

definition deltacloud :: "deltacloud_lib \<Rightarrow> cloud_answers" where
  "deltacloud D = \<lparr>image_id_get = dc_image_id_get D,
     instance_create_from_image_id = dc_instance_create_from_image_id D,
     instance_state_get = dc_instance_state_get D,
     instance_destroy_by_instance_id = dc_instance_destroy_by_instance_id D\<rparr>"

section \<open>The state answer of OpenStack\<close>

text \<open>
  The reference: the address is the \<^verbatim>\<open>addr\<close> of the first \<^verbatim>\<open>ip\<close> in the first \<^verbatim>\<open>private\<close> in the first
  \<^verbatim>\<open>addresses\<close> that has children.
\<close>

definition first_addresses :: "xml \<Rightarrow> xml option" where
  "first_addresses top_node = List.find (\<lambda>n. has_name ''addresses'' n \<and> kids n \<noteq> []) (kids top_node)"

definition first_ip :: "xml \<Rightarrow> xml option" where
  "first_ip addresses =
     Option.bind (List.find (has_name ''private'') (kids addresses)) (\<lambda>p.
     List.find (has_name ''ip'') (kids p))"

lemma ip_loop_find: "ip_loop ns = map_option (\<lambda>n. xmlGetProp n ''addr'') (List.find (has_name ''ip'') ns)"
  by (induction ns) auto

lemma private_loop_find:
  "private_loop ns =
     (case List.find (has_name ''private'') ns of
        None \<Rightarrow> Inr None
      | Some p \<Rightarrow> (case List.find (has_name ''ip'') (kids p) of
                    None \<Rightarrow> Inl NullDeref | Some n \<Rightarrow> Inr (Some (xmlGetProp n ''addr''))))"
  by (induction ns) (auto simp: ip_loop_find split: option.splits)

lemma addresses_loop_find:
  "addresses_loop ns =
     (case List.find (\<lambda>n. has_name ''addresses'' n \<and> kids n \<noteq> []) ns of
        None \<Rightarrow> Inr None
      | Some ads \<Rightarrow> (case first_ip ads of
                      None \<Rightarrow> Inl NullDeref | Some n \<Rightarrow> Inr (xmlGetProp n ''addr'')))"
  by (induction ns) (auto simp: private_loop_find first_ip_def split: option.splits)

text \<open>
  C31. The callback of a state request, as a table. With a document whose root carries a status it
  reports that status; for an active machine it reports the address found along the path addresses,
  private, ip, reports no address when there is no addresses element with children, and runs into a
  NULL pointer exactly when there is one but the path below it is incomplete. Without a status (or
  without a document) it dereferences NULL.
\<close>

theorem os1_state_table:
  "instance_state_get_curl_callback doc =
     (case root_prop doc ''status'' of
        None \<Rightarrow> Inl NullDeref
      | Some status \<Rightarrow>
          if status \<noteq> ''ACTIVE'' then Inr (Some (status, None))
          else (case Option.bind doc first_addresses of
                  None \<Rightarrow> Inr (Some (status, None))
                | Some ads \<Rightarrow> (case first_ip ads of
                                None \<Rightarrow> Inl NullDeref
                              | Some ip \<Rightarrow> Inr (Some (status, xmlGetProp ip ''addr'')))))"
  by (auto simp: instance_state_get_curl_callback_def root_prop_def addresses_loop_find first_addresses_def
      split: option.splits)

section \<open>Buffers\<close>

lemma os1_url:
  assumes "length i < ID_MAX"
  shows "sprintf URL_MAX (server_url i) = Inr (server_url i)"
  using assms by (simp add: sprintf_def URL_MAX_def ID_MAX_def server_url_def)

lemma os1_command:
  assumes "length i < ID_MAX"
  shows "sprintf URL_MAX (create_command i) = Inr (create_command i)"
  using assms by (simp add: sprintf_def URL_MAX_def ID_MAX_def create_command_def)

fun errors :: "'a res \<Rightarrow> err set" where
  "errors (Inl e) = {e}"
| "errors (Inr x) = {}"

lemma errors_bindE: "errors (bindE m f) = errors m \<union> (case m of Inl _ \<Rightarrow> {} | Inr x \<Rightarrow> errors (f x))"
  by (cases m) auto

lemma errors_derefE [simp]: "errors (derefE e p) = (if p = None then {e} else {})"
  by (cases p) auto

lemma loop_errors:
  "BufferOverflow \<notin> errors (image_loop name ns)"
  "BufferOverflow \<notin> errors (addresses_loop ns)"
proof -
  show "BufferOverflow \<notin> errors (image_loop name ns)"
    by (induction ns) (auto simp: errors_bindE split: sum.splits)
  show "BufferOverflow \<notin> errors (addresses_loop ns)"
    by (auto simp: addresses_loop_find split: option.splits)
qed

lemma callback_errors:
  "BufferOverflow \<notin> errors (instance_state_get_curl_callback doc)"
  "BufferOverflow \<notin> errors (image_id_get_curl_callback name doc)"
  "BufferOverflow \<notin> errors (instance_create_curl_callback doc)"
  "BufferOverflow \<notin> errors (instance_destroy_curl_callback doc)"
  by (auto simp: loop_errors instance_state_get_curl_callback_def image_id_get_curl_callback_def errors_bindE
      instance_create_curl_callback_def instance_destroy_curl_callback_def split: sum.splits)

lemmas os1_request_defs = os1_instance_state_get_def os1_instance_create_from_image_id_def
  os1_instance_destroy_by_instance_id_def os1_image_id_get_def perform_def

text \<open>
  The fixed buffers of the requests are large enough: for identifiers as they fit into the fields
  of a node, no request of the OpenStack implementation overflows its buffer of 1024 bytes, whatever
  the service answers.
\<close>

lemma os1_buffers_fit:
  assumes "length i < ID_MAX"
  shows "BufferOverflow \<notin> errors (os1_instance_state_get http i) \<union>
     errors (os1_instance_create_from_image_id http i) \<union>
     errors (os1_instance_destroy_by_instance_id http i) \<union> errors (os1_image_id_get http name)"
  by (simp add: os1_url [OF assms] os1_command [OF assms] os1_request_defs callback_errors
      split: option.split)

section \<open>The contract of the interface\<close>

text \<open>
  An inventory: the images by name and, for each machine identifier, the private address if the
  machine is up. \<open>cloud_contract\<close> is what \<^verbatim>\<open>inst_ctrl.c\<close> relies on: images are looked up by name, an
  active machine is reported with its address, any other with another status, and no answer is an
  error.
\<close>

record inventory =
  inv_images :: "(string \<times> string) list"
  inv_up :: "string \<Rightarrow> string option"

locale cloud_contract =
  fixes C :: cloud_answers and stock :: inventory
  assumes image_answer: "image_id_get C name = Inr (map_of (inv_images stock) name)"
    and up_answer: "length i < ID_MAX \<Longrightarrow> inv_up stock i = Some addr \<Longrightarrow>
      instance_state_get C i = Inr (Some (''ACTIVE'', Some addr))"
    and down_answer: "length i < ID_MAX \<Longrightarrow> inv_up stock i = None \<Longrightarrow>
      \<exists>status. status \<noteq> ''ACTIVE'' \<and> instance_state_get C i = Inr (Some (status, None))"
begin

text \<open>Polling a node whose machine is up leads to a connection to the machine's address.\<close>

lemma poll_up:
  assumes "cloud E = C" and "asms s a = Some x" and "length (a_instance_id x) < ID_MAX"
    and "inv_up stock (a_instance_id x) = Some addr"
    and "ssh_init_rc s = 0 \<or> libssh2_init_rc (ssh E) = 0"
  shows "\<exists>s' t. my_instance_state_get E a s = Inr s' \<and>
     asms s' a = Some (x\<lparr>a_address := Some addr, a_transport := Some t\<rparr>) \<and>
     map_option ts_address (transs s' t) = Some (Some addr) \<and>
     jobs s' = jobs s @ [Connect_execute a] \<and> timers s' = timers s"
  using assms up_answer [of "a_instance_id x" addr]
  by (auto simp: my_instance_state_get_def instance_state_completion_def transport_connect_def
      heap_defs loop_job_add_def assertE_def Let_def)

text \<open>Polling any other node arms the next poll.\<close>

lemma poll_down:
  assumes "cloud E = C" and "asms s a = Some x" and "length (a_instance_id x) < ID_MAX"
    and "inv_up stock (a_instance_id x) = None" and "my_instance_state_get E a s = Inr s'"
  shows "\<exists>t \<in> set (timers s'). tm_fn t = Instance_state_poll a \<and>
     tm_nsec t = PENDING_TIMEOUT * QB_TIME_NS_IN_MSEC"
proof -
  obtain status where "status \<noteq> ''ACTIVE''"
    and "instance_state_get (cloud E) (a_instance_id x) = Inr (Some (status, None))"
    using down_answer assms(1,3,4) by blast
  then have "bindE (node_state_set E a RECOVER_STATE_UNKNOWN s) (\<lambda>s.
       Inr (snd (loop_timer_add (Instance_state_poll a) (PENDING_TIMEOUT * QB_TIME_NS_IN_MSEC) s))) = Inr s'"
    using assms(2,5) by (simp add: my_instance_state_get_def instance_state_completion_def asm_get_def)
  then show ?thesis
    by (auto simp: bindE_eq_Inr loop_timer_add_def Let_def)
qed

end

subsection \<open>Both implementations satisfy it\<close>

text \<open>
  \<open>os1_serves\<close>: the documents an OpenStack service sends for an inventory. The list of images has one
  element per image with its name and id; a machine's document carries its status, and while it is
  active its first addresses element with children leads to its private address.
\<close>

definition image_entries :: "xml \<Rightarrow> (string option \<times> string option) list" where
  "image_entries top_node = map (\<lambda>n. (xmlGetProp n ''name'', xmlGetProp n ''id'')) (filter is_elem (kids top_node))"

definition os1_serves :: "http_service \<Rightarrow> inventory \<Rightarrow> bool" where
  "os1_serves http stock \<longleftrightarrow>
     (\<exists>d. http images_request = Some (Some d) \<and>
        image_entries d = map (\<lambda>(n, i). (Some n, Some i)) (inv_images stock)) \<and>
     (\<forall>i. \<exists>d status. http (state_request (server_url i)) = Some (Some d) \<and>
        xmlGetProp d ''status'' = Some status \<and>
        (case inv_up stock i of
           None \<Rightarrow> status \<noteq> ''ACTIVE''
         | Some addr \<Rightarrow> status = ''ACTIVE'' \<and>
             Option.bind (Option.bind (first_addresses d) first_ip) (\<lambda>ip. xmlGetProp ip ''addr'') = Some addr))"

definition dc_serves :: "deltacloud_lib \<Rightarrow> inventory \<Rightarrow> bool" where
  "dc_serves D stock \<longleftrightarrow>
     0 \<le> deltacloud_initialize D \<and> deltacloud_get_images D = Some (inv_images stock) \<and>
     (\<forall>i. \<exists>inst. deltacloud_get_instance_by_id D i = Some inst \<and>
        (case inv_up stock i of
           None \<Rightarrow> di_state inst \<noteq> ''RUNNING''
         | Some addr \<Rightarrow> di_state inst = ''RUNNING'' \<and>
             (\<exists>rest. di_private_addresses inst = Some addr # rest)))"

lemma image_loop_entries:
  assumes "map (\<lambda>n. (xmlGetProp n ''name'', xmlGetProp n ''id'')) (filter is_elem ns) =
    map (\<lambda>(n, i). (Some n, Some i)) images"
  shows "image_loop name ns = Inr (map_of images name)"
  using assms
proof (induction ns arbitrary: images)
  case (Cons n ns)
  show ?case
  proof (cases "is_elem n")
    case True
    with Cons show ?thesis by (cases images) auto
  next
    case False
    with Cons.IH [of images] Cons.prems show ?thesis by simp
  qed
qed simp

lemma dc_image_loop_map_of: "dc_image_loop name images = map_of images name"
  by (induction images) auto

lemma os1_contract:
  assumes "os1_serves http stock"
  shows "cloud_contract (openstackv1 http) stock"
proof
  fix name
  obtain d where "http images_request = Some (Some d)"
    and "image_entries d = map (\<lambda>(n, i). (Some n, Some i)) (inv_images stock)"
    using assms by (auto simp: os1_serves_def)
  then show "image_id_get (openstackv1 http) name = Inr (map_of (inv_images stock) name)"
    by (simp add: openstackv1_def os1_image_id_get_def perform_def image_id_get_curl_callback_def
        image_entries_def image_loop_entries)
next
  fix i :: string and addr
  assume len: "length i < ID_MAX" and up: "inv_up stock i = Some addr"
  obtain d where "http (state_request (server_url i)) = Some (Some d)"
    and "xmlGetProp d ''status'' = Some ''ACTIVE''"
    and "Option.bind (Option.bind (first_addresses d) first_ip) (\<lambda>ip. xmlGetProp ip ''addr'') = Some addr"
    using assms up by (fastforce simp: os1_serves_def split: option.splits)
  with len show "instance_state_get (openstackv1 http) i = Inr (Some (''ACTIVE'', Some addr))"
    by (auto simp: openstackv1_def os1_instance_state_get_def os1_url perform_def
        instance_state_get_curl_callback_def root_prop_def addresses_loop_find first_addresses_def
        split: option.splits bind_splits)
next
  fix i :: string
  assume len: "length i < ID_MAX" and down: "inv_up stock i = None"
  obtain d status where "http (state_request (server_url i)) = Some (Some d)"
    and "xmlGetProp d ''status'' = Some status" and "status \<noteq> ''ACTIVE''"
    using assms down by (fastforce simp: os1_serves_def split: option.splits)
  with len show "\<exists>status. status \<noteq> ''ACTIVE'' \<and>
      instance_state_get (openstackv1 http) i = Inr (Some (status, None))"
    by (auto simp: openstackv1_def os1_instance_state_get_def os1_url perform_def
        instance_state_get_curl_callback_def root_prop_def)
qed

lemma dc_contract:
  assumes "dc_serves D stock"
  shows "cloud_contract (deltacloud D) stock"
proof
  show "image_id_get (deltacloud D) name = Inr (map_of (inv_images stock) name)" for name
    using assms by (simp add: dc_serves_def deltacloud_def dc_image_id_get_def dc_image_loop_map_of)
next
  fix i :: string and addr
  assume "inv_up stock i = Some addr"
  then obtain inst where "deltacloud_get_instance_by_id D i = Some inst" and "di_state inst = ''RUNNING''"
    and "dc_private_address inst = Inr (Some addr)" and "\<not> deltacloud_initialize D < 0"
    using assms by (fastforce simp: dc_serves_def dc_private_address_def split: option.splits)
  then show "instance_state_get (deltacloud D) i = Inr (Some (''ACTIVE'', Some addr))"
    by (simp add: deltacloud_def dc_instance_state_get_def)
next
  fix i :: string
  assume "inv_up stock i = None"
  then obtain inst where "deltacloud_get_instance_by_id D i = Some inst" and "di_state inst \<noteq> ''RUNNING''"
    and "\<not> deltacloud_initialize D < 0"
    using assms by (fastforce simp: dc_serves_def split: option.splits)
  then show "\<exists>status. status \<noteq> ''ACTIVE'' \<and>
      instance_state_get (deltacloud D) i = Inr (Some (status, None))"
    by (simp add: deltacloud_def dc_instance_state_get_def)
qed

subsection \<open>A service for every inventory\<close>

text \<open>
  The reference services: for any inventory there is an OpenStack service that presents it, and a
  Deltacloud one. The contract is interpreted on both implementations over these services.
\<close>

definition os1_images_doc :: "inventory \<Rightarrow> xml" where
  "os1_images_doc stock = Elem 0 ''images'' []
     (map (\<lambda>(n, i). Elem 0 ''image'' [(''name'', n), (''id'', i)] []) (inv_images stock))"

definition os1_server_doc :: "string option \<Rightarrow> xml" where
  "os1_server_doc up = (case up of
      None \<Rightarrow> Elem 0 ''server'' [(''status'', ''BUILD'')] []
    | Some addr \<Rightarrow> Elem 0 ''server'' [(''status'', ''ACTIVE'')]
        [Elem 0 ''addresses'' [] [Elem 0 ''public'' [] [],
           Elem 0 ''private'' [] [Elem 0 ''ip'' [(''version'', ''4''), (''addr'', addr)] []]]])"

definition os1_service :: "inventory \<Rightarrow> http_service" where
  "os1_service stock rq =
     (if rq = images_request then Some (Some (os1_images_doc stock))
      else Some (Some (os1_server_doc (inv_up stock (drop (length (server_url [])) (rq_url rq))))))"

definition dc_service :: "inventory \<Rightarrow> deltacloud_lib" where
  "dc_service stock = \<lparr>deltacloud_initialize = 0,
     deltacloud_get_instance_by_id = (\<lambda>i. Some (case inv_up stock i of
         None \<Rightarrow> \<lparr>di_state = ''PENDING'', di_private_addresses = []\<rparr>
       | Some addr \<Rightarrow> \<lparr>di_state = ''RUNNING'', di_private_addresses = [Some addr]\<rparr>)),
     deltacloud_create_instance = (\<lambda>_. None), deltacloud_get_images = Some (inv_images stock)\<rparr>"

lemma os1_service_serves: "os1_serves (os1_service stock) stock"
proof -
  have images: "image_entries (os1_images_doc stock) = map (\<lambda>(n, i). (Some n, Some i)) (inv_images stock)"
    by (auto simp: image_entries_def os1_images_doc_def comp_def filter_map case_prod_beta)
  have "state_request (server_url i) \<noteq> images_request" for i
    by (simp add: state_request_def images_request_def server_url_def)
  moreover have "drop (length (server_url [])) (rq_url (state_request (server_url i))) = i" for i
    by (simp add: state_request_def server_url_def)
  ultimately have "os1_service stock (state_request (server_url i)) = Some (Some (os1_server_doc (inv_up stock i)))" for i
    by (simp add: os1_service_def)
  with images show ?thesis
    by (auto simp: os1_serves_def os1_service_def os1_server_doc_def first_addresses_def first_ip_def
        split: option.splits)
qed

lemma dc_service_serves: "dc_serves (dc_service stock) stock"
  by (auto simp: dc_serves_def dc_service_def split: option.splits)

interpretation os1: cloud_contract "openstackv1 (os1_service stock)" stock for stock
  by (rule os1_contract [OF os1_service_serves])

interpretation dc: cloud_contract "deltacloud (dc_service stock)" stock for stock
  by (rule dc_contract [OF dc_service_serves])


definition demo_inventory :: inventory where
  "demo_inventory = \<lparr>inv_images = [(''web'', ''img-1'')], inv_up = [''vm'' \<mapsto> ''10.0.0.9'']\<rparr>"


text \<open>
  Polling a node whose machine is not up arms the next poll after the pending time-out, whichever
  implementation is linked in: the engine keeps asking until the machine is up.
\<close>

lemma cloud_poll_waits:
  assumes "os1_serves http stock \<and> cloud E = openstackv1 http \<or> dc_serves D stock \<and> cloud E = deltacloud D"
    and "asms s a = Some x" and "length (a_instance_id x) < ID_MAX"
    and "inv_up stock (a_instance_id x) = None" and "my_instance_state_get E a s = Inr s'"
  shows "\<exists>t \<in> set (timers s'). tm_fn t = Instance_state_poll a \<and>
     tm_nsec t = PENDING_TIMEOUT * QB_TIME_NS_IN_MSEC"
proof -
  from assms(1) have "cloud_contract (cloud E) stock"
    by (auto intro: os1_contract dc_contract)
  from cloud_contract.poll_down [OF this refl assms(2-5)] show ?thesis .
qed

end
