(* ===== verification/Init_Job.thy ===== *)
theory Init_Job
  imports Prelude
begin

text \<open>
  \<^verbatim>\<open>src/src/libinit.c\<close>: starting, reloading and stopping an instance of the engine through the init
  system of the host, over D-Bus; \<^verbatim>\<open>src/src/cpe_impl.cpp\<close> and the dispatcher of
  \<^verbatim>\<open>src/src/cpe_agent.cpp\<close>, which call it for the methods of the management agent.

  The answers of libdbus are an argument (\<open>dbus_answers\<close>). The state keeps the two static variables of
  the file, the messages handed to the bus, and the number of message objects that are alive. A
  \<^verbatim>\<open>DBusError\<close> that is freed before it was initialised is the error \<open>BadPtr\<close>, since
  \<^verbatim>\<open>dbus_error_free\<close> then frees what happens to be on the stack.
\<close>

section \<open>Data\<close>

datatype dbus_value = Dbus_string string | Dbus_array "string list" | Dbus_bool bool

record method_call =
  mc_destination :: string
  mc_path :: string
  mc_interface :: string
  mc_member :: string
  mc_args :: "dbus_value list"

datatype dbus_reply = Reply_received | Reply_no_memory | Reply_failed

record dbus_answers =
  message_new :: bool
  append_args :: bool
  open_container :: bool
  append_env :: bool
  close_container :: bool
  append_wait :: bool
  send_reply :: dbus_reply
  parse_reply :: bool

record init_state =
  init_use_systemd :: bool
  dbus_connection :: bool
  dbus_sent :: "method_call list"
  dbus_live :: nat

definition ENOMEM :: int where "ENOMEM = 12"
definition EIO :: int where "EIO = 5"
definition SERVICE_PATH_SIZE :: nat where "SERVICE_PATH_SIZE = 512"

section \<open>Set-up\<close>

text \<open>\<open>link\<close> is the target of \<^verbatim>\<open>/sbin/init\<close>, if it is a link; \<open>bus\<close> is whether the bus answers.\<close>

definition dbus_init :: "string option \<Rightarrow> bool \<Rightarrow> init_state \<Rightarrow> int \<times> init_state" where
  "dbus_init link bus s =
     (let systemd = (case link of None \<Rightarrow> False | Some name \<Rightarrow> strstr name ''systemd'');
          s = s\<lparr>init_use_systemd := systemd, dbus_connection := bus\<rparr>
      in (if bus then 0 else 1, s))"

section \<open>Jobs\<close>

definition message_alloc :: "init_state \<Rightarrow> init_state" where
  "message_alloc s = s\<lparr>dbus_live := dbus_live s + 1\<rparr>"

definition message_unref :: "init_state \<Rightarrow> init_state" where
  "message_unref s = s\<lparr>dbus_live := dbus_live s - 1\<rparr>"

text \<open>
  The label \<open>finish\<close>: free the error, then whichever of the message and its reply exist. \<open>initialised\<close>
  is whether \<^verbatim>\<open>dbus_error_init\<close> was called on the way.
\<close>

definition job_finish :: "bool \<Rightarrow> bool \<Rightarrow> bool \<Rightarrow> int \<Rightarrow> init_state \<Rightarrow> (int \<times> init_state) res" where
  "job_finish initialised m reply rc s =
     (if \<not> initialised then Inl BadPtr
      else
        let s = (if m then message_unref s else s);
            s = (if reply then message_unref s else s)
        in Inr (rc, s))"

definition systemd_init_job ::
  "dbus_answers \<Rightarrow> string \<Rightarrow> string \<Rightarrow> string \<Rightarrow> init_state \<Rightarrow> (int \<times> init_state) res" where
  "systemd_init_job D method name inst s =
     (let inst_name = snprintf SERVICE_PATH_SIZE (name @ ''@'' @ inst @ ''.service'');
          m = \<lparr>mc_destination = ''org.freedesktop.systemd1'', mc_path = ''/org/freedesktop/systemd1'',
               mc_interface = ''org.freedesktop.systemd1.Manager'', mc_member = method,
               mc_args = [Dbus_string inst_name, Dbus_string ''replace'']\<rparr> in
      if \<not> message_new D then job_finish False False False (- ENOMEM) s
      else
        let s = message_alloc s in
        if \<not> append_args D then job_finish False True False (- ENOMEM) s
        else
          let s = s\<lparr>dbus_sent := dbus_sent s @ [m]\<rparr> in
          if send_reply D \<noteq> Reply_received then job_finish True True False (- EIO) s
          else
            let s = message_alloc s in
            if \<not> parse_reply D then job_finish True True True (- EIO) s
            else job_finish True True True 0 s)"

definition upstart_init_job ::
  "dbus_answers \<Rightarrow> string \<Rightarrow> string \<Rightarrow> string \<Rightarrow> init_state \<Rightarrow> (int \<times> init_state) res" where
  "upstart_init_job D method service inst s =
     (let instance_env = snprintf SERVICE_PATH_SIZE (''INSTANCE='' @ inst);
          service_path = snprintf SERVICE_PATH_SIZE (''/com/ubuntu/Upstart/jobs/'' @ service);
          m = \<lparr>mc_destination = ''com.ubuntu.Upstart'', mc_path = service_path,
               mc_interface = ''com.ubuntu.Upstart0_6.Job'', mc_member = method,
               mc_args = [Dbus_array [instance_env], Dbus_bool True]\<rparr> in
      if \<not> message_new D then Inr (- ENOMEM, s)
      else
        let s = message_alloc s in
        if \<not> open_container D then job_finish False True False (- ENOMEM) s
        else if \<not> append_env D then job_finish False True False (- ENOMEM) s
        else if \<not> close_container D then job_finish False True False (- ENOMEM) s
        else if \<not> append_wait D then job_finish False True False (- ENOMEM) s
        else
          let s = s\<lparr>dbus_sent := dbus_sent s @ [m]\<rparr> in
          if send_reply D = Reply_no_memory then job_finish True True False (- ENOMEM) s
          else if send_reply D = Reply_failed then job_finish True True False (- 1) s
          else
            let s = message_alloc s in
            if method = ''Start'' \<and> \<not> parse_reply D then job_finish True True True (- EIO) s
            else job_finish True True True 0 s)"

definition init_job_start :: "dbus_answers \<Rightarrow> string \<Rightarrow> string \<Rightarrow> init_state \<Rightarrow> (int \<times> init_state) res" where
  "init_job_start D service inst s =
     (if init_use_systemd s then systemd_init_job D ''StartUnit'' service inst s
      else upstart_init_job D ''Start'' service inst s)"

definition init_job_reload :: "dbus_answers \<Rightarrow> string \<Rightarrow> string \<Rightarrow> init_state \<Rightarrow> (int \<times> init_state) res" where
  "init_job_reload D service inst s =
     (if init_use_systemd s then systemd_init_job D ''ReloadUnit'' service inst s
      else upstart_init_job D ''Reload'' service inst s)"

definition init_job_stop :: "dbus_answers \<Rightarrow> string \<Rightarrow> string \<Rightarrow> init_state \<Rightarrow> (int \<times> init_state) res" where
  "init_job_stop D service inst s =
     (if init_use_systemd s then systemd_init_job D ''StopUnit'' service inst s
      else upstart_init_job D ''Stop'' service inst s)"

section \<open>cpe\_impl.cpp and the dispatcher of cpe\_agent.cpp\<close>

text \<open>The return value is an unsigned 32-bit integer: the negated code, which is 0 for success.\<close>

definition dep_result :: "int \<Rightarrow> u32" where
  "dep_result rc = (if rc = 0 then 0 else word_of_int (- rc))"

definition dep_start :: "dbus_answers \<Rightarrow> string \<Rightarrow> string \<Rightarrow> init_state \<Rightarrow> (u32 \<times> init_state) res" where
  "dep_start D dep_uuid dep_monitor s =
     bindE (init_job_start D dep_monitor dep_uuid s) (\<lambda>(rc, s). Inr (dep_result rc, s))"

definition dep_reload :: "dbus_answers \<Rightarrow> string \<Rightarrow> string \<Rightarrow> init_state \<Rightarrow> (u32 \<times> init_state) res" where
  "dep_reload D dep_uuid dep_monitor s =
     bindE (init_job_reload D dep_monitor dep_uuid s) (\<lambda>(rc, s). Inr (dep_result rc, s))"

definition dep_stop :: "dbus_answers \<Rightarrow> string \<Rightarrow> string \<Rightarrow> init_state \<Rightarrow> (u32 \<times> init_state) res" where
  "dep_stop D dep_uuid dep_monitor s =
     bindE (init_job_stop D dep_monitor dep_uuid s) (\<lambda>(rc, s). Inr (dep_result rc, s))"

text \<open>
  An event of the agent session: a method call with its arguments (\<open>args\<close> is what the library's map
  gives for a name), or something else. The answer to a method is its return argument, if one was
  added, and whether success or an exception was sent.
\<close>

datatype agent_event = Agent_method string "string \<Rightarrow> string" | Agent_other

record method_answer =
  ma_rc :: "u32 option"
  ma_success :: bool

definition dispatch_dep ::
  "(string \<Rightarrow> string \<Rightarrow> init_state \<Rightarrow> (u32 \<times> init_state) res) \<Rightarrow> (string \<Rightarrow> string) \<Rightarrow> init_state \<Rightarrow>
   (u32 \<times> u32 option \<times> init_state) res" where
  "dispatch_dep dep args s =
     bindE (dep (args ''uuid'') (args ''monitor'') s) (\<lambda>(rc, s). Inr (rc, Some rc, s))"

definition event_dispatch ::
  "dbus_answers \<Rightarrow> agent_event \<Rightarrow> init_state \<Rightarrow> (method_answer option \<times> init_state) res" where
  "event_dispatch D ev s =
     (case ev of
        Agent_other \<Rightarrow> Inr (None, s)
      | Agent_method methodName args \<Rightarrow>
          bindE (if methodName = ''deployable_start'' then dispatch_dep (dep_start D) args s
                 else if methodName = ''deployable_stop'' then dispatch_dep (dep_stop D) args s
                 else if methodName = ''deployable_reload'' then dispatch_dep (dep_reload D) args s
                 else Inr (0, None, s)) (\<lambda>(rc, ret, s).
          Inr (Some \<lparr>ma_rc = ret, ma_success = (rc = 0)\<rparr>, s)))"

section \<open>Jobs that go through\<close>

lemmas job_defs = systemd_init_job_def upstart_init_job_def job_finish_def message_alloc_def
  message_unref_def Let_def

lemmas init_job_defs = init_job_start_def init_job_reload_def init_job_stop_def

text \<open>The three calls, with the members they use on the two init systems.\<close>

datatype init_verb = Start | Reload | Stop

fun verb_member :: "bool \<Rightarrow> init_verb \<Rightarrow> string" where
  "verb_member True Start = ''StartUnit''"
| "verb_member True Reload = ''ReloadUnit''"
| "verb_member True Stop = ''StopUnit''"
| "verb_member False Start = ''Start''"
| "verb_member False Reload = ''Reload''"
| "verb_member False Stop = ''Stop''"

fun init_job :: "init_verb \<Rightarrow> dbus_answers \<Rightarrow> string \<Rightarrow> string \<Rightarrow> init_state \<Rightarrow> (int \<times> init_state) res" where
  "init_job Start = init_job_start"
| "init_job Reload = init_job_reload"
| "init_job Stop = init_job_stop"

lemma init_job_unfold:
  "init_job v D service inst s =
     (if init_use_systemd s then systemd_init_job D (verb_member True v) service inst s
      else upstart_init_job D (verb_member False v) service inst s)"
  by (cases v) (simp_all add: init_job_defs)

definition job_message :: "bool \<Rightarrow> init_verb \<Rightarrow> string \<Rightarrow> string \<Rightarrow> method_call" where
  "job_message systemd v service inst =
     (if systemd
      then \<lparr>mc_destination = ''org.freedesktop.systemd1'', mc_path = ''/org/freedesktop/systemd1'',
            mc_interface = ''org.freedesktop.systemd1.Manager'', mc_member = verb_member True v,
            mc_args = [Dbus_string (service @ ''@'' @ inst @ ''.service''), Dbus_string ''replace'']\<rparr>
      else \<lparr>mc_destination = ''com.ubuntu.Upstart'', mc_path = ''/com/ubuntu/Upstart/jobs/'' @ service,
            mc_interface = ''com.ubuntu.Upstart0_6.Job'', mc_member = verb_member False v,
            mc_args = [Dbus_array [''INSTANCE='' @ inst], Dbus_bool True]\<rparr>)"

text \<open>Whether the library could build the message, on either init system.\<close>

definition message_built :: "bool \<Rightarrow> dbus_answers \<Rightarrow> bool" where
  "message_built systemd D \<longleftrightarrow> message_new D \<and>
     (if systemd then append_args D
      else open_container D \<and> append_env D \<and> close_container D \<and> append_wait D)"

definition job_rc :: "bool \<Rightarrow> init_verb \<Rightarrow> dbus_answers \<Rightarrow> int" where
  "job_rc systemd v D =
     (case send_reply D of
        Reply_no_memory \<Rightarrow> if systemd then - EIO else - ENOMEM
      | Reply_failed \<Rightarrow> if systemd then - EIO else - 1
      | Reply_received \<Rightarrow> if parse_reply D \<or> (\<not> systemd \<and> v \<noteq> Start) then 0 else - EIO)"

lemma verb_member_start [simp]: "verb_member False v = ''Start'' \<longleftrightarrow> v = Start"
  by (cases v) auto

text \<open>
  Once the message could be built, a job sends exactly one message, the one of the init system in use
  with the member for the request and the service instance in its arguments, returns 0 exactly when the
  reply arrived and, where it is read, could be read, and otherwise the error number of its case; every
  message object it allocated is released again.
\<close>

lemma job_outcome_lemma:
  assumes "message_built (init_use_systemd s) D" and "length service + length inst < 480"
  shows "init_job v D service inst s =
     Inr (job_rc (init_use_systemd s) v D,
          s\<lparr>dbus_sent := dbus_sent s @ [job_message (init_use_systemd s) v service inst]\<rparr>)"
proof -
  have "length service < 480" "length inst < 480" using assms(2) by simp_all
  with assms show ?thesis
    by (cases "send_reply D") (auto simp: init_job_unfold job_defs message_built_def job_rc_def job_message_def
        snprintf_fits SERVICE_PATH_SIZE_def)
qed

definition demo_dbus :: dbus_answers where
  "demo_dbus = \<lparr>message_new = True, append_args = True, open_container = True, append_env = True,
     close_container = True, append_wait = True, send_reply = Reply_received, parse_reply = True\<rparr>"

definition demo_init :: init_state where
  "demo_init = \<lparr>init_use_systemd = True, dbus_connection = True, dbus_sent = [], dbus_live = 0\<rparr>"

text \<open>
  Where the library runs out of memory while the arguments are put together, the job frees a
  D-Bus error that was never initialised, on both init systems; only a message that could not be
  allocated at all is handled on Upstart.
\<close>

lemma init_job_uninitialised_error:
  assumes "\<not> message_built (init_use_systemd s) D"
  shows "init_job v D service inst s =
     (if \<not> init_use_systemd s \<and> \<not> message_new D then Inr (- ENOMEM, s) else Inl BadPtr)"
  using assms by (cases "init_use_systemd s") (simp_all add: init_job_unfold job_defs message_built_def)

section \<open>The methods of the agent\<close>

fun verb_method :: "init_verb \<Rightarrow> string" where
  "verb_method Start = ''deployable_start''"
| "verb_method Reload = ''deployable_reload''"
| "verb_method Stop = ''deployable_stop''"

lemma job_rc_range: "job_rc systemd v D \<in> {0, - 1, - EIO, - ENOMEM}"
  by (simp add: job_rc_def split: dbus_reply.split)

lemma dep_result_zero: "rc \<in> {0, - 1, - EIO, - ENOMEM} \<Longrightarrow> dep_result rc = 0 \<longleftrightarrow> rc = 0"
  by (auto simp: dep_result_def EIO_def ENOMEM_def)

lemma verb_dispatch:
  "event_dispatch D (Agent_method (verb_method v) args) s =
     bindE (init_job v D (args ''monitor'') (args ''uuid'') s) (\<lambda>(rc, s).
       Inr (Some \<lparr>ma_rc = Some (dep_result rc), ma_success = (dep_result rc = 0)\<rparr>, s))"
  by (cases v) (simp_all add: event_dispatch_def dispatch_dep_def dep_start_def dep_reload_def dep_stop_def
      bindE_assoc case_prod_unfold)

text \<open>
  A deployable method of the agent runs the job of its name for the given monitor and deployable,
  answers success exactly when the job succeeded, and returns the positive error number otherwise.
\<close>

lemma agent_method_outcome:
  assumes "message_built (init_use_systemd s) D"
    and "length (args ''monitor'') + length (args ''uuid'') < 480"
  shows "let rc = job_rc (init_use_systemd s) v D in
     event_dispatch D (Agent_method (verb_method v) args) s =
       Inr (Some \<lparr>ma_rc = Some (word_of_int (- rc)), ma_success = (rc = 0)\<rparr>,
            s\<lparr>dbus_sent := dbus_sent s @
                [job_message (init_use_systemd s) v (args ''monitor'') (args ''uuid'')]\<rparr>)"
  using job_rc_range [of "init_use_systemd s" v D]
  by (simp add: verb_dispatch job_outcome_lemma [OF assms] dep_result_zero Let_def)
    (simp add: dep_result_def)

end
