(* ===== verification/Trans_Cim.thy ===== *)
theory Trans_Cim
  imports Cape_Ops
begin

text \<open>
  The alternative transport: \<^verbatim>\<open>src/src/cim_service.c\<close> (services of a node through a CIM broker) and
  \<^verbatim>\<open>src/src/trans_cim.c\<close> (the transport interface on top of it). The answers of the CIM client library
  are the argument \<open>cim_answers\<close>; \<^verbatim>\<open>malloc\<close> and \<^verbatim>\<open>qb_loop_job_add\<close> may fail and are part of it. The
  state adds to the state of the engine the library's environment, the connections that are open, and
  the jobs of this file. \<open>a_transport\<close> of a node is here the handle of a connection.
\<close>

section \<open>cim\_service.c\<close>

datatype cim_data = Cim_boolean bool | Cim_uint32 u32 | Cim_other

record cim_answers =
  cim_env_ok :: bool
  cim_connect :: "string option \<Rightarrow> bool"
  cim_path_ok :: bool
  cim_string_ok :: bool
  cim_get_property :: "string \<Rightarrow> string \<Rightarrow> cim_data option"
  cim_invoke :: "string \<Rightarrow> string \<Rightarrow> cim_data option"
  malloc_ok :: bool
  job_add_rc :: int

type_synonym cim_client = nat

datatype cim_func = Cim_service_started | Cim_service_start | Cim_service_stop

record cim_action =
  ca_transport :: "cim_client option"
  ca_service :: string
  ca_func :: cim_func
  ca_op :: op_ptr

record 'sw cim =
  engine :: "'sw cape"
  ce :: bool
  clients :: "cim_client set"
  next_client :: cim_client
  actions :: "cim_action list"

definition cim_service_connect :: "cim_answers \<Rightarrow> string option \<Rightarrow> 'sw cim \<Rightarrow> cim_client option \<times> 'sw cim" where
  "cim_service_connect A server s =
     (if \<not> ce s \<and> \<not> cim_env_ok A then (None, s)
      else
        let s = s\<lparr>ce := True\<rparr> in
        if cim_connect A server
        then (Some (next_client s), s\<lparr>clients := insert (next_client s) (clients s),
                                      next_client := Suc (next_client s)\<rparr>)
        else (None, s))"

text \<open>Using or releasing a connection that was released before is a wild access.\<close>

definition cim_client_get :: "'sw cim \<Rightarrow> cim_client \<Rightarrow> unit res" where
  "cim_client_get s c = (if c \<in> clients s then Inr () else Inl BadPtr)"

definition cim_service_disconnect :: "cim_client option \<Rightarrow> 'sw cim \<Rightarrow> 'sw cim res" where
  "cim_service_disconnect transport s =
     bindE (derefE AssertFail transport) (\<lambda>client.
     bindE (cim_client_get s client) (\<lambda>_.
     Inr (s\<lparr>clients := clients s - {client}\<rparr>)))"

text \<open>
  An error of \<open>newString\<close> is logged with a format that has a \<^verbatim>\<open>%s\<close> but no argument, which reads a wild
  pointer; an error of \<open>newObjectPath\<close> is not looked at, and the missing path is dereferenced.
\<close>

definition create_object_path :: "cim_answers \<Rightarrow> unit res" where
  "create_object_path A =
     (if \<not> cim_string_ok A then Inl BadPtr
      else if \<not> cim_path_ok A then Inl NullDeref else Inr ())"

definition service_get_property ::
  "cim_answers \<Rightarrow> cim_client \<Rightarrow> string \<Rightarrow> string \<Rightarrow> 'sw cim \<Rightarrow> cim_data option res" where
  "service_get_property A client service property s =
     bindE (create_object_path A) (\<lambda>_.
     bindE (cim_client_get s client) (\<lambda>_.
     Inr (cim_get_property A service property)))"

definition cim_service_started :: "cim_answers \<Rightarrow> cim_client option \<Rightarrow> string \<Rightarrow> 'sw cim \<Rightarrow> int res" where
  "cim_service_started A transport service s =
     bindE (derefE AssertFail transport) (\<lambda>client.
     bindE (service_get_property A client service ''Started'' s) (\<lambda>result.
     Inr (case result of
            Some (Cim_boolean b) \<Rightarrow> if b then 1 else 0
          | _ \<Rightarrow> -1)))"

definition service_set_enabled ::
  "cim_answers \<Rightarrow> cim_client \<Rightarrow> string \<Rightarrow> bool \<Rightarrow> 'sw cim \<Rightarrow> int res" where
  "service_set_enabled A client service enabled s =
     bindE (create_object_path A) (\<lambda>_.
     bindE (cim_client_get s client) (\<lambda>_.
     let method = (if enabled then ''StartService'' else ''StopService'') in
     Inr (case cim_invoke A service method of
            Some (Cim_uint32 v) \<Rightarrow> if v = 0 then 0 else -1
          | _ \<Rightarrow> -1)))"

definition cim_service_start :: "cim_answers \<Rightarrow> cim_client option \<Rightarrow> string \<Rightarrow> 'sw cim \<Rightarrow> int res" where
  "cim_service_start A transport service s =
     bindE (derefE AssertFail transport) (\<lambda>client. service_set_enabled A client service True s)"

definition cim_service_stop :: "cim_answers \<Rightarrow> cim_client option \<Rightarrow> string \<Rightarrow> 'sw cim \<Rightarrow> int res" where
  "cim_service_stop A transport service s =
     bindE (derefE AssertFail transport) (\<lambda>client. service_set_enabled A client service False s)"

section \<open>trans\_cim.c\<close>

definition cim_transport_connect :: "cim_answers \<Rightarrow> asm_ptr \<Rightarrow> 'sw cim \<Rightarrow> (cim_client option \<times> 'sw cim) res" where
  "cim_transport_connect A a s =
     bindE (asm_get (engine s) a) (\<lambda>assembly.
     if a_transport assembly = None then
       let (client, s) = cim_service_connect A (a_address assembly) s
       in Inr (client, s\<lparr>engine := upd_asm a (\<lambda>x. x\<lparr>a_transport := client\<rparr>) (engine s)\<rparr>)
     else Inr (a_transport assembly, s))"

definition cim_transport_disconnect :: "asm_ptr \<Rightarrow> 'sw cim \<Rightarrow> 'sw cim res" where
  "cim_transport_disconnect a s =
     bindE (asm_get (engine s) a) (\<lambda>assembly. cim_service_disconnect (a_transport assembly) s)"

definition action_func :: "cim_answers \<Rightarrow> cim_func \<Rightarrow> cim_client option \<Rightarrow> string \<Rightarrow> 'sw cim \<Rightarrow> int res" where
  "action_func A f =
     (case f of
        Cim_service_started \<Rightarrow> cim_service_started A
      | Cim_service_start \<Rightarrow> cim_service_start A
      | Cim_service_stop \<Rightarrow> cim_service_stop A)"

definition perform_action :: "'sw env \<Rightarrow> cim_answers \<Rightarrow> cim_action \<Rightarrow> 'sw cim \<Rightarrow> 'sw cim res" where
  "perform_action E A act s =
     bindE (action_func A (ca_func act) (ca_transport act) (ca_service act) s) (\<lambda>result.
     bindE (resource_action_completed E (ca_op act) result (engine s)) (\<lambda>e.
     bindE (pe_resource_unref (ca_op act) e) (\<lambda>e.
     Inr (s\<lparr>engine := e\<rparr>))))"

text \<open>
  \<open>node_failed\<close> is \<^verbatim>\<open>recover_state_set\<close> on the node with the failed state. Where the action could not be
  allocated, the code at the label \<^verbatim>\<open>done\<close> reads the operation from the missing action.
\<close>

definition cim_transport_resource_action ::
  "cim_answers \<Rightarrow> (asm_ptr \<Rightarrow> 'sw cape \<Rightarrow> 'sw cape res) \<Rightarrow> asm_ptr \<Rightarrow> op_ptr \<Rightarrow> 'sw cim \<Rightarrow> 'sw cim res" where
  "cim_transport_resource_action A node_failed a p s =
     bindE (pe_resource_ref p (engine s)) (\<lambda>e.
     if \<not> malloc_ok A then bindE (node_failed a e) (\<lambda>_. Inl NullDeref)
     else
       bindE (asm_get e a) (\<lambda>assembly.
       bindE (op_get e p) (\<lambda>op.
       bindE (assertE (op_rclass op = ''lsb'') ()) (\<lambda>_.
       bindE (derefE AssertFail
               (if op_method op = ''monitor'' then Some Cim_service_started
                else if op_method op = ''start'' then Some Cim_service_start
                else if op_method op = ''stop'' then Some Cim_service_stop else None)) (\<lambda>f.
       let act = \<lparr>ca_transport = a_transport assembly, ca_service = op_rtype op, ca_func = f, ca_op = p\<rparr> in
       if job_add_rc A = 0 then Inr (s\<lparr>engine := e, actions := actions s @ [act]\<rparr>)
       else
         bindE (node_failed a e) (\<lambda>e.
         bindE (pe_resource_unref p e) (\<lambda>e.
         Inr (s\<lparr>engine := e\<rparr>))))))))"

section \<open>The codes of the operations\<close>

lemmas cim_service_defs = cim_service_started_def cim_service_start_def cim_service_stop_def
  service_get_property_def service_set_enabled_def create_object_path_def cim_client_get_def action_func_def

definition cim_up :: "cim_answers \<Rightarrow> bool" where
  "cim_up A \<longleftrightarrow> cim_path_ok A \<and> cim_string_ok A"

text \<open>What the broker's answers mean for an operation; \<open>-1\<close> stands for every failure.\<close>

fun cim_code :: "cim_answers \<Rightarrow> cim_func \<Rightarrow> string \<Rightarrow> int" where
  "cim_code A Cim_service_started service =
     (case cim_get_property A service ''Started'' of
        Some (Cim_boolean b) \<Rightarrow> if b then 1 else 0 | _ \<Rightarrow> -1)"
| "cim_code A Cim_service_start service =
     (if cim_invoke A service ''StartService'' = Some (Cim_uint32 0) then 0 else -1)"
| "cim_code A Cim_service_stop service =
     (if cim_invoke A service ''StopService'' = Some (Cim_uint32 0) then 0 else -1)"

lemma action_func_code:
  assumes "cim_up A" and "c \<in> clients s"
  shows "action_func A f (Some c) service s = Inr (cim_code A f service)"
  using assms
  by (cases f) (auto simp: cim_service_defs cim_up_def Let_def split: option.splits cim_data.splits)

text \<open>
  C32. An action of the CIM transport over an open connection takes one reference to the operation and
  queues exactly one job for the requested method; running the job completes the operation with the
  code of the broker's answer and gives the reference back.
\<close>

theorem cim_action_runs:
  assumes "asms (engine s) a = Some x" and "a_transport x = Some c" and "c \<in> clients s"
    and "ops (engine s) p = Some op" and "op_rclass op = ''lsb''" and "cim_up A" and "malloc_ok A"
    and "job_add_rc A = 0"
    and "(op_method op, f) \<in> {(''monitor'', Cim_service_started), (''start'', Cim_service_start),
           (''stop'', Cim_service_stop)}"
  shows "\<exists>act s'. cim_transport_resource_action A node_failed a p s = Inr s' \<and>
     actions s' = actions s @ [act] \<and> engine s' = counted p (op_refcount op + 1) (engine s) \<and>
     perform_action E A act s' =
       bindE (resource_action_completed E p (cim_code A f (op_rtype op)) (engine s')) (\<lambda>e.
       bindE (pe_resource_unref p e) (\<lambda>e. Inr (s'\<lparr>engine := e\<rparr>)))"
proof -
  let ?act = "\<lparr>ca_transport = Some c, ca_service = op_rtype op, ca_func = f, ca_op = p\<rparr>"
  let ?s' = "s\<lparr>engine := counted p (op_refcount op + 1) (engine s), actions := actions s @ [?act]\<rparr>"
  have ref: "pe_resource_ref p (engine s) = Inr (counted p (op_refcount op + 1) (engine s))"
    using assms(4) by (simp add: pe_resource_ref_def op_get_def upd_op_def counted_def)
  have op': "ops (counted p (op_refcount op + 1) (engine s)) p = Some (op\<lparr>op_refcount := op_refcount op + 1\<rparr>)"
    using assms(4) by (simp add: counted_def upd_op_def)
  have asm': "asms (counted p (op_refcount op + 1) (engine s)) a = Some x"
    using assms(1) by (simp add: counted_def upd_op_def)
  have queue: "cim_transport_resource_action A node_failed a p s = Inr ?s'"
    using assms(2,4,5,7-9) by (auto simp: cim_transport_resource_action_def ref asm_get_def op_get_def asm' op'
        Let_def)
  have "perform_action E A ?act ?s' =
       bindE (resource_action_completed E p (cim_code A f (op_rtype op)) (engine ?s')) (\<lambda>e.
       bindE (pe_resource_unref p e) (\<lambda>e. Inr (?s'\<lparr>engine := e\<rparr>)))"
    using action_func_code [of A c ?s' f "op_rtype op"] assms(3,6) by (simp add: perform_action_def)
  with queue show ?thesis by (intro exI [of _ ?act] exI [of _ ?s']) simp
qed

definition demo_cim_answers :: cim_answers where
  "demo_cim_answers = \<lparr>cim_env_ok = True, cim_connect = (\<lambda>_. True), cim_path_ok = True, cim_string_ok = True,
     cim_get_property = (\<lambda>_ _. Some (Cim_boolean True)), cim_invoke = (\<lambda>_ _. Some (Cim_uint32 0)),
     malloc_ok = True, job_add_rc = 0\<rparr>"

definition demo_cim :: "sw_list cim" where
  "demo_cim = \<lparr>engine = demo_state, ce = True, clients = {0}, next_client = 1, actions = []\<rparr>"

theorem cim_action_runs_witness:
  "\<exists>act s'. cim_transport_resource_action demo_cim_answers (\<lambda>_. Inr) 0 0 demo_cim = Inr s' \<and>
     actions s' = [act] \<and> engine s' = counted 0 2 demo_state"
  using cim_action_runs [of demo_cim 0 demo_node 0 0 demo_op demo_cim_answers Cim_service_start "\<lambda>_. Inr" demo_env]
  by (auto simp: demo_cim_def demo_cim_answers_def cim_up_def demo_state_def demo_node_def demo_op_def cape_init_def)

section \<open>Two defects\<close>

text \<open>
  C39. The monitor reports the property of the broker as the exit code, 1 for a service that runs and 0
  for one that does not, where the engine takes 0 for running: after the monitor of a recurring
  operation a service that runs is failed, and a service that does not run is running.
\<close>

theorem cim_monitor_inverted:
  assumes "perform_action E A act s = Inr s'" and "ca_func act = Cim_service_started"
    and "cim_get_property A (ca_service act) ''Started'' = Some (Cim_boolean b)"
    and "ops (engine s) (ca_op act) = Some op" and "op_method op = ''monitor''" and "0 < op_interval op"
    and "op_target op (engine s) = Inr (a, x, Some r)" and "rsc_rd r (engine s) = Inr rec"
    and "ca_transport act = Some c" and "c \<in> clients s" and "cim_up A"
  shows "\<exists>rec'. rsc_rd r (engine s') = Inr rec' \<and>
     rc_state rec' = (if b then RECOVER_STATE_FAILED else RECOVER_STATE_RUNNING)"
proof -
  have code: "action_func A (ca_func act) (ca_transport act) (ca_service act) s = Inr (if b then 1 else 0)"
    using action_func_code [OF assms(11,10), of Cim_service_started] assms(2,3,9) by simp
  obtain e where e: "resource_action_completed E (ca_op act) (if b then 1 else 0) (engine s) = Inr e"
    and e': "pe_resource_unref (ca_op act) e = Inr (engine s')"
    using assms(1) unfolding perform_action_def code by (auto simp: bindE_eq_Inr)
  obtain w where w: "rsc_rd r e = Inr (rec\<lparr>rc_state := outcome_state (op_method op) (op_interval op)
      (if b then 1 else 0) (rc_state rec), rc_sw := w\<rparr>)"
    using action_completed_lemma [OF e assms(4,7,8)] by blast
  have "rsc_rd r (engine s') = rsc_rd r e"
    by (rule keeps_D [OF rsc_view.keeps_unref e'])
  with w assms(5,6) show ?thesis by (auto simp: outcome_state_def)
qed

text \<open>
  Disconnecting releases the connection but leaves the node pointing to it, so that connecting again
  keeps the released handle: every action after a reconnect uses a released connection.
\<close>

lemma cim_reconnect_stale:
  assumes "asms (engine s) a = Some x" and "a_transport x = Some c" and "c \<in> clients s" and "cim_up A"
  shows "\<exists>s1. cim_transport_disconnect a s = Inr s1 \<and>
     cim_transport_connect A a s1 = Inr (Some c, s1) \<and>
     (\<forall>f service. action_func A f (Some c) service s1 = Inl BadPtr)"
proof -
  let ?s1 = "s\<lparr>clients := clients s - {c}\<rparr>"
  have "cim_transport_disconnect a s = Inr ?s1"
    using assms by (simp add: cim_transport_disconnect_def cim_service_disconnect_def asm_get_def cim_client_get_def)
  moreover have "cim_transport_connect A a ?s1 = Inr (Some c, ?s1)"
    using assms by (simp add: cim_transport_connect_def asm_get_def)
  moreover have "action_func A f (Some c) service ?s1 = Inl BadPtr" for f service
    using assms(4) by (cases f) (simp_all add: cim_service_defs cim_up_def)
  ultimately show ?thesis by blast
qed

definition demo_cim_monitor :: "sw_list cim" where
  "demo_cim_monitor = demo_cim\<lparr>engine := upd_op 0 (\<lambda>op. op\<lparr>op_method := ''monitor'', op_interval := 5000,
     op_refcount := 2\<rparr>) demo_state\<rparr>"

theorem cim_monitor_inverted_witness:
  "\<exists>s' rec'. perform_action demo_env demo_cim_answers
       \<lparr>ca_transport = Some 0, ca_service = ''httpd'', ca_func = Cim_service_started, ca_op = 0\<rparr> demo_cim_monitor = Inr s' \<and>
     rsc_rd 0 (engine s') = Inr rec' \<and> rc_state rec' = RECOVER_STATE_FAILED"
proof -
  let ?act = "\<lparr>ca_transport = Some 0, ca_service = ''httpd'', ca_func = Cim_service_started, ca_op = 0\<rparr>"
  let ?op = "demo_op\<lparr>op_method := ''monitor'', op_interval := 5000, op_refcount := 2\<rparr>"
  have "\<exists>s'. perform_action demo_env demo_cim_answers ?act demo_cim_monitor = Inr s'"
    by (simp add: perform_action_def cim_service_defs demo_cim_answers_def demo_cim_monitor_def demo_cim_def
        completion_eval resource_recover_restart_def demo_state_defs demo_env_def heap_defs qb_map_get_def
        loop_job_add_def loop_timer_del_def pe_resource_is_hard_error_def Let_def)
  then obtain s' where s': "perform_action demo_env demo_cim_answers ?act demo_cim_monitor = Inr s'" ..
  have "\<exists>rec'. rsc_rd 0 (engine s') = Inr rec' \<and>
     rc_state rec' = (if True then RECOVER_STATE_FAILED else RECOVER_STATE_RUNNING)"
    by (rule cim_monitor_inverted [OF s', of _ ?op 0 demo_node 0 "r_recover demo_rsc" 0])
      (simp_all add: demo_cim_answers_def demo_cim_monitor_def demo_cim_def cim_up_def op_target_def rsc_rd_def
        heap_defs demo_state_defs qb_map_get_def)
  with s' show ?thesis by auto
qed

end
