(* ===== verification/Cape_Life.thy ===== *)
theory Cape_Life
  imports Cape_Ops
begin

text \<open>
  Who holds an operation and when it is released: one-shot operations, and recurring monitors from
  their first run to their stop.
\<close>

section \<open>What the callbacks of a resource touch\<close>

lemma keeps_ops_callbacks:
  "keeps ops (resource_state_change_event r from to)"
  "keeps ops (resource_recover_restart r)"
  "keeps ops (resource_recover_escalate E r)"
proof -
  show "keeps ops (resource_state_change_event r from to)"
    unfolding resource_state_change_event_def event_send_def by (rule keeps_I) (intro okE_intros; simp)
  show "keeps ops (resource_recover_restart r)"
    unfolding resource_recover_restart_def loop_timer_del_def by (rule keeps_I) (intro okE_intros; simp)
  show "keeps ops (resource_recover_escalate E r)"
    unfolding resource_recover_escalate_def instance_destroy_def instance_destroy_completion_def
      loop_timer_del_def
    by (rule keeps_I) (intro okE_intros; simp add: heap_defs)
qed

lemma rsc_set_ops:
  assumes "rscs s r = Some y" and "rsc_wired r y" and "rsc_state_set E r st s = Inr s'"
  shows "ops s' = ops s"
proof -
  have rd: "rsc_rd r s = Inr (r_recover y)" using assms(1) by (simp add: rsc_rd_def rsc_get_def)
  have upd: "ops (rsc_upd r f u) = ops u" for f and u :: "'a cape"
    by (simp add: rsc_upd_def upd_rsc_def)
  have "okE (\<lambda>s'. ops s' = ops s) (rsc_state_set E r st s)"
    unfolding rsc_state_set_def
    by (rule rsc.state_set_view [OF rd])
      (use assms(2) keeps_ops_callbacks in \<open>auto simp: rsc_wired_def rc_wired_def upd cape_changing_def [abs_def]
        cape_call_def [abs_def]\<close>)
  then show ?thesis using assms(3) by (rule okE_D)
qed

section \<open>Completion\<close>

lemma unref_result:
  "pe_resource_unref p s = Inr s' \<Longrightarrow> ops s p = Some op \<Longrightarrow>
   ops s' p = (if op_refcount op = 1 then None else Some (op\<lparr>op_refcount := op_refcount op - 1\<rparr>))"
  by (auto simp: pe_resource_unref_def heap_defs bindE_eq_Inr derefE_eq_Inr split: if_splits)

lemma completed_record_op:
  assumes "completed_record E rp p op' ec s = Inr s'" and "ops s p = Some op"
  shows "ops s' p = Some op"
proof -
  have "ops (graph_confirm E g i u) = ops u" for g i and u :: "'a cape"
    by (simp add: graph_confirm_def upd_graph_def)
  then have "ops t p = ops u p" if "pe_resource_completed E p c u = Inr t" for c and t u :: "'a cape"
    using that by (auto simp: pe_resource_completed_def bindE_eq_Inr Let_def upd_graph_def split: if_splits)
  then show ?thesis
    using assms history_save_op
    by (fastforce simp: completed_record_def bindE_eq_Inr split: if_splits)
qed

lemma resource_state_set_ops:
  assumes "rscs s r = Some y" and "rsc_wired r y" and "resource_state_set E (Some r) op ec s = Inr s'"
  shows "ops s' = ops s"
  using assms(3) rsc_set_ops [OF assms(1,2)] by (auto simp: resource_state_set_def split: if_splits)

text \<open>The operation just before the last stage of its completion.\<close>

lemma completed_op:
  assumes "resource_action_completed E p ec s = Inr s'" and "ops s p = Some op"
    and "op_target op s = Inr (a, x, Some r)" and "rscs s r = Some y" and "rsc_wired r y"
  obtains t where "ops t p = Some (op\<lparr>op_times_executed := op_times_executed op + 1\<rparr>)"
    and "completed_release (Some r) p op ec t = Inr s'" and "\<exists>z. rscs t r = Some z"
proof -
  let ?op = "op\<lparr>op_times_executed := op_times_executed op + 1\<rparr>"
  from assms(1-3) obtain s1 s2 where s1: "completed_record E (Some r) p op ec (op_executed p s) = Inr s1"
    and s2: "resource_state_set E (Some r) op ec s1 = Inr s2"
    and s': "completed_release (Some r) p op ec s2 = Inr s'"
    by (rule action_completedE)
  have "ops (op_executed p s) p = Some ?op" using assms(2) by (simp add: op_executed_def upd_op_def)
  from completed_record_op [OF s1 this] have op1: "ops s1 p = Some ?op" .
  have "rsc_rd r s1 = Inr (r_recover y)"
    using keeps_D [OF rsc_view.keeps_completed_record s1] assms(4)
    by (simp add: rsc_rd_def heap_defs op_executed_def)
  then obtain z where z: "rscs s1 r = Some z" "r_recover z = r_recover y"
    by (auto simp: rsc_rd_def rsc_get_def bindE_eq_Inr derefE_eq_Inr)
  then have "rsc_wired r z" using assms(5) by (simp add: rsc_wired_def)
  with resource_state_set_ops [OF z(1) _ s2] op1 have op2: "ops s2 p = Some ?op" by simp
  obtain w where "rsc_rd r s2 = Inr w"
    using resource_state_set_result [OF s2, of "r_recover z"] z(1) by (auto simp: rsc_rd_def rsc_get_def)
  then have "\<exists>z. rscs s2 r = Some z" by (auto simp: rsc_rd_def rsc_get_def bindE_eq_Inr derefE_eq_Inr)
  with op2 s' that show ?thesis by blast
qed

text \<open>Completion takes one reference of an operation that no monitor keeps.\<close>

lemma completed_one_shot:
  assumes "resource_action_completed E p ec s = Inr t" and "ops s p = Some op"
    and "op_refcount op = 2" and "op_interval op = 0 \<or> \<not> target_met op ec"
    and "op_target op s = Inr (a, x, Some r)" and "rscs s r = Some y" and "rsc_wired r y"
  shows "ops t p = Some (op\<lparr>op_times_executed := op_times_executed op + 1, op_refcount := 1\<rparr>)"
proof -
  from assms(1,2,5-7) obtain u where u: "ops u p = Some (op\<lparr>op_times_executed := op_times_executed op + 1\<rparr>)"
    and rel: "completed_release (Some r) p op ec u = Inr t"
    by (rule completed_op)
  show ?thesis
    using rel assms(3,4) u unref_result [of p _ t]
    by (auto simp: completed_release_def schedule_processing_def loop_job_add_def Let_def split: if_splits)
qed

text \<open>The code that a remote command's exit status is reported with.\<close>

definition reported :: "pe_operation \<Rightarrow> int \<Rightarrow> ocf_exitcode" where
  "reported op ssh_rc = (if op_rclass op = ''lsb'' then pe_resource_ocf_exitcode_get op ssh_rc else ssh_rc)"

lemma action_completionE:
  assumes "resource_action_completion E ra rc s = Inr s'" and "ops s (ra_pe_op ra) = Some op"
  obtains t where "resource_action_completed E (ra_pe_op ra) (reported op rc) s = Inr t"
    and "pe_resource_unref (ra_pe_op ra) t = Inr s'"
  using assms
  by (auto simp: resource_action_completion_def op_get_def reported_def Let_def bindE_eq_Inr)

text \<open>The command of the operation 0 on the node of the concrete state.\<close>

definition demo_ra :: ra_op where
  "demo_ra = \<lparr>ra_assembly = 0, ra_resource = Some 0, ra_pe_op = 0\<rparr>"

definition demo_with :: "pe_operation \<Rightarrow> sw_list cape" where
  "demo_with op = demo_state\<lparr>ops := [0 \<mapsto> op]\<rparr>"

definition demo_monitor :: pe_operation where
  "demo_monitor = demo_op\<lparr>op_method := ''monitor'', op_interval := 60000, op_refcount := 3\<rparr>"

lemma demo_with_simps [simp]:
  "ops (demo_with op) 0 = Some op" "rscs (demo_with op) 0 = Some demo_rsc" "rsc_wired 0 demo_rsc"
  "op_hostname op = ''web'' \<Longrightarrow> op_rname op = ''rsc_web_httpd'' \<Longrightarrow>
     op_target op (demo_with op) = Inr (0, demo_node, Some 0)"
  by (simp_all add: demo_with_def demo_state_defs rsc_wired_def rc_wired_def op_target_def asm_get_def
      qb_map_get_def)

lemma demo_completes:
  "\<exists>s'. resource_action_completion demo_env demo_ra 0 (demo_with (demo_op\<lparr>op_refcount := 2\<rparr>)) = Inr s'"
  "\<exists>s'. resource_action_completion demo_env demo_ra 0 (demo_with demo_monitor) = Inr s'"
  by (simp_all add: resource_action_completion_def completion_eval demo_with_def demo_ra_def demo_monitor_def
      demo_state_defs demo_env_def heap_defs qb_map_get_def loop_job_add_def monitor_rearm_def
      loop_timer_add_def pe_resource_ocf_exitcode_get_def Let_def)

text \<open>
  C20. A one-shot operation whose command was executed (one reference for the policy engine, one for the
  command), and likewise a recurring one that missed its target while no monitor holds it, is freed
  by the completion of the command.
\<close>

theorem one_shot_released:
  assumes "resource_action_completion E ra rc s = Inr s'" and "ops s (ra_pe_op ra) = Some op"
    and "op_refcount op = 2" and "op_interval op = 0 \<or> \<not> target_met op (reported op rc)"
    and "op_target op s = Inr (a, x, Some r)" and "rscs s r = Some y" and "rsc_wired r y"
  shows "ops s' (ra_pe_op ra) = None"
proof -
  from assms(1,2) obtain t where t: "resource_action_completed E (ra_pe_op ra) (reported op rc) s = Inr t"
    and s': "pe_resource_unref (ra_pe_op ra) t = Inr s'"
    by (rule action_completionE)
  from completed_one_shot [OF t assms(2-7)] unref_result [OF s'] show ?thesis by simp
qed

theorem one_shot_released_witness:
  "\<exists>s'. resource_action_completion demo_env demo_ra 0 (demo_with (demo_op\<lparr>op_refcount := 2\<rparr>)) = Inr s' \<and>
     ops s' 0 = None"
proof -
  obtain s' where s': "resource_action_completion demo_env demo_ra 0 (demo_with (demo_op\<lparr>op_refcount := 2\<rparr>)) = Inr s'"
    using demo_completes(1) by blast
  moreover have "ra_pe_op demo_ra = 0" by (simp add: demo_ra_def)
  ultimately show ?thesis
    using one_shot_released [OF s', of _ 0 demo_node 0 demo_rsc] by (simp add: demo_op_def)
qed

text \<open>
  C22. A recurring monitor that met its target keeps two references (the monitor's and the timer's)
  and is armed again: the resource's timer is a new one that runs the same operation after the interval.
\<close>

theorem recurring_monitor_rearmed:
  assumes "resource_action_completion E ra rc s = Inr s'" and "ops s (ra_pe_op ra) = Some op"
    and "op_refcount op = 3" and "op_interval op > 0" and "target_met op (reported op rc)"
    and "op_target op s = Inr (a, x, Some r)" and "rscs s r = Some y" and "rsc_wired r y"
  shows "\<exists>op' z. ops s' (ra_pe_op ra) = Some op' \<and> op_refcount op' = 2 \<and> rscs s' r = Some z \<and>
     last (timers s') = \<lparr>tm_handle = r_monitor_timer z, tm_fn = Resource_monitor_execute (ra_pe_op ra),
       tm_nsec = unat (op_interval op) * 1000000\<rparr> \<and>
     loop_timer_is_running (r_monitor_timer z) s'"
proof -
  let ?p = "ra_pe_op ra"
  let ?op = "op\<lparr>op_times_executed := op_times_executed op + 1\<rparr>"
  from assms(1,2) obtain t where t: "resource_action_completed E ?p (reported op rc) s = Inr t"
    and s': "pe_resource_unref ?p t = Inr s'"
    by (rule action_completionE)
  from t assms(2,6-8) obtain u z where u: "ops u ?p = Some ?op" "rscs u r = Some z"
    and rel: "completed_release (Some r) ?p op (reported op rc) u = Inr t"
    by (rule completed_op) blast
  have t: "t = upd_rsc r (\<lambda>x. x\<lparr>r_monitor_timer := Suc (next_handle u)\<rparr>)
      (snd (loop_timer_add (Resource_monitor_execute ?p) (unat (op_interval op) * 1000000) u))"
    using rel assms(4,5)
    by (simp add: completed_release_def monitor_rearm_def loop_timer_add_def QB_TIME_NS_IN_MSEC_def Let_def)
  then have op: "ops t ?p = Some ?op" using u(1) by (simp add: upd_rsc_def loop_timer_add_def)
  with s' assms(3) have "s' = counted ?p (op_refcount ?op - 1) t"
    using unref_counted [OF op] by simp
  then show ?thesis
    using op u(2) assms(3) t
    by (simp add: counted_def heap_defs loop_timer_add_def loop_timer_is_running_def Let_def)
qed

theorem recurring_monitor_rearmed_witness:
  "\<exists>s' z. resource_action_completion demo_env demo_ra 0 (demo_with demo_monitor) = Inr s' \<and>
     rscs s' 0 = Some z \<and> loop_timer_is_running (r_monitor_timer z) s' \<and>
     tm_nsec (last (timers s')) = 60000000000"
proof -
  obtain s' where s': "resource_action_completion demo_env demo_ra 0 (demo_with demo_monitor) = Inr s'"
    using demo_completes(2) by blast
  moreover have "ra_pe_op demo_ra = 0" by (simp add: demo_ra_def)
  moreover have "target_met demo_monitor (reported demo_monitor 0)"
    by (simp add: target_met_def reported_def demo_monitor_def demo_op_def pe_resource_ocf_exitcode_get_def)
  ultimately show ?thesis
    using recurring_monitor_rearmed [OF s', of demo_monitor 0 demo_node 0 demo_rsc]
    by (auto simp: demo_monitor_def demo_op_def)
qed

text \<open>
  Stopping a recurring monitor whose timer runs gives back both references: the operation is freed,
  its timer is cancelled and the resource forgets it.
\<close>

lemma recurring_monitor_stopped:
  assumes "ops s p = Some op" and "op_refcount op = 2" and "op_digest op = Some d"
    and "op_resource op = Some r" and "rscs s r = Some y"
    and "loop_timer_is_running (r_monitor_timer y) s"
  shows "\<exists>s' z. recurring_monitor_stop p s = Inr s' \<and> ops s' p = None \<and> rscs s' r = Some z \<and>
     r_monitor_op z = None \<and> \<not> loop_timer_is_running (r_monitor_timer z) s'"
proof -
  let ?s = "loop_timer_del (r_monitor_timer y) s"
  have op: "ops ?s p = Some op" using assms(1) by (simp add: loop_timer_del_def)
  from unref_counted [OF op] assms(2)
  have 1: "pe_resource_unref p ?s = Inr (counted p 1 ?s)" by simp
  let ?t = "upd_rsc r (\<lambda>x. x\<lparr>r_monitor_op := None\<rparr>) (counted p 1 ?s)"
  have "ops ?t p = Some (op\<lparr>op_refcount := 1\<rparr>)" using op by (simp add: upd_rsc_def)
  from unref_last [OF this] assms(3)
  have 2: "pe_resource_unref p ?t = Inr (?t\<lparr>ops := (ops ?t)(p := None)\<rparr>)" by simp
  have "recurring_monitor_stop p s = Inr (?t\<lparr>ops := (ops ?t)(p := None)\<rparr>)"
    by (simp add: recurring_monitor_stop_def op_get_def rsc_get_def assms(1,4,5,6) 1 2)
  then show ?thesis
    using assms(5) by (simp add: heap_defs counted_def loop_timer_del_def loop_timer_is_running_def)
qed

end
