(* ===== verification/Qmf.thy ===== *)
theory Qmf
  imports Cape_State "HOL-Library.AList"
begin

text \<open>
  The asynchronous method calls of the Matahari transport: \<^verbatim>\<open>src/src/qmf_job.h\<close> (a call that is under
  way), \<^verbatim>\<open>src/src/qmf_object.cpp\<close> with its header (a remote object that may be connected),
  \<^verbatim>\<open>src/src/qmf_agent.cpp\<close> (the calls outstanding at an agent) and \<^verbatim>\<open>src/src/qmf_multiplexer.cpp\<close> (the
  dispatch of the events of the session).

  Requests, objects and agents live in heaps, as in \<^verbatim>\<open>Cape_State.thy\<close>. The messaging library is the
  argument \<open>qmf_env\<close>: what a query of an agent returns, the schema of an object, and the correlator that
  the next call gets. \<open>\<^verbatim>\<open>std::map::operator[]\<close>\<close> inserts an empty entry where the key is missing, and so do
  the definitions. The handlers that a client registers are arguments too: \<open>R\<close> answers a request and works
  on the client's part of the state, \<open>N\<close> and \<open>V\<close> are told about a connection and about an event. An
  exception that leaves a handler ends the program, as a failed assertion does.
\<close>

section \<open>Data\<close>

type_synonym req_ptr = nat
type_synonym obj_ptr = nat
type_synonym agent_ptr = nat

datatype variant = V_void | V_str string | V_u32 u32 | V_map "string qb_map"

type_synonym variant_map = "variant qb_map"

datatype job_state = JOB_INIT | JOB_SCHEDULED | JOB_RUNNING | JOB_COMPLETED

datatype rpc_result = RPC_OK | RPC_TIMEOUT | RPC_NOT_CONNECTED | RPC_CANCELLED | RPC_EXCEPTION

record request =
  qr_ref_count :: u32
  qr_state :: job_state
  qr_obj :: obj_ptr
  qr_args :: variant_map
  qr_method :: string
  qr_user_data :: nat
  qr_timeout :: u32

text \<open>One object of an agent, as a query returns it.\<close>

record qmf_data =
  qd_schema :: string
  qd_addr :: string
  qd_properties :: "string qb_map"

record qmf_object =
  qo_connected :: bool
  qo_qmf_data :: "qmf_data option"
  qo_qa :: "agent_ptr option"
  qo_agent_name :: string
  qo_query :: string
  qo_prop_name :: string
  qo_prop_value :: string
  qo_pending_jobs :: "req_ptr list"
  qo_response_fn :: bool
  qo_event_fn :: bool
  qo_connection_fn :: bool

record qmf_agent =
  qa_name :: string
  qa_outstanding :: "(u32 \<times> req_ptr option) list"
  qa_objects :: "obj_ptr list"

record sent_call =
  sc_agent :: string
  sc_method :: string
  sc_args :: variant_map
  sc_addr :: string

record 'c qmf =
  reqs :: "req_ptr \<Rightarrow> request option"
  next_req :: req_ptr
  objs :: "obj_ptr \<Rightarrow> qmf_object option"
  agents :: "agent_ptr \<Rightarrow> qmf_agent option"
  next_agent :: agent_ptr
  mux_objects :: "obj_ptr list"
  mux_agents :: "agent_ptr option qb_map"
  call_timers :: "(req_ptr \<times> nat) list"
  pending_runs :: "obj_ptr list"
  sent_calls :: "sent_call list"
  responses :: "(req_ptr \<times> rpc_result) list"
  client :: 'c

record qmf_env =
  qe_query :: "string \<Rightarrow> string \<Rightarrow> qmf_data list"
  qe_schema :: "string \<Rightarrow> string \<Rightarrow> (string \<times> (string \<times> bool) list) list"
  qe_correlator :: u32

datatype console_type = CONSOLE_AGENT_ADD | CONSOLE_AGENT_DEL | CONSOLE_METHOD_RESPONSE | CONSOLE_EXCEPTION
  | CONSOLE_EVENT | CONSOLE_OTHER

text \<open>An event; \<open>ce_schema\<close> is the name of the schema of its first data item.\<close>

record console_event =
  ce_type :: console_type
  ce_agent :: string
  ce_correlator :: u32
  ce_arguments :: variant_map
  ce_data :: "variant_map list"
  ce_schema :: string

section \<open>Heap access\<close>

definition req_get :: "'c qmf \<Rightarrow> req_ptr \<Rightarrow> request res" where
  "req_get s r = derefE BadPtr (reqs s r)"

definition obj_get :: "'c qmf \<Rightarrow> obj_ptr \<Rightarrow> qmf_object res" where
  "obj_get s ob = derefE BadPtr (objs s ob)"

definition agent_get :: "'c qmf \<Rightarrow> agent_ptr \<Rightarrow> qmf_agent res" where
  "agent_get s qa = derefE BadPtr (agents s qa)"

definition upd_req :: "req_ptr \<Rightarrow> (request \<Rightarrow> request) \<Rightarrow> 'c qmf \<Rightarrow> 'c qmf" where
  "upd_req r f s = s\<lparr>reqs := (reqs s)(r := map_option f (reqs s r))\<rparr>"

definition upd_obj :: "obj_ptr \<Rightarrow> (qmf_object \<Rightarrow> qmf_object) \<Rightarrow> 'c qmf \<Rightarrow> 'c qmf" where
  "upd_obj ob f s = s\<lparr>objs := (objs s)(ob := map_option f (objs s ob))\<rparr>"

definition upd_agent :: "agent_ptr \<Rightarrow> (qmf_agent \<Rightarrow> qmf_agent) \<Rightarrow> 'c qmf \<Rightarrow> 'c qmf" where
  "upd_agent qa f s = s\<lparr>agents := (agents s)(qa := map_option f (agents s qa))\<rparr>"

section \<open>qmf\_job.h\<close>

definition request_ref :: "req_ptr \<Rightarrow> 'c qmf \<Rightarrow> 'c qmf res" where
  "request_ref r s =
     bindE (req_get s r) (\<lambda>_. Inr (upd_req r (\<lambda>q. q\<lparr>qr_ref_count := qr_ref_count q + 1\<rparr>) s))"

definition request_unref :: "req_ptr \<Rightarrow> 'c qmf \<Rightarrow> 'c qmf res" where
  "request_unref r s =
     bindE (req_get s r) (\<lambda>q.
     if qr_ref_count q - 1 = 0 then Inr (s\<lparr>reqs := (reqs s)(r := None)\<rparr>)
     else Inr (upd_req r (\<lambda>q. q\<lparr>qr_ref_count := qr_ref_count q - 1\<rparr>) s))"

section \<open>qmf\_object.h: the answer to a request\<close>

definition method_response ::
  "(nat \<Rightarrow> variant_map \<Rightarrow> rpc_result \<Rightarrow> 'c \<Rightarrow> 'c res) \<Rightarrow> req_ptr \<Rightarrow> variant_map \<Rightarrow> rpc_result \<Rightarrow> 'c qmf \<Rightarrow> 'c qmf res" where
  "method_response R r out_args rc s =
     bindE (req_get s r) (\<lambda>q.
     bindE (obj_get s (qr_obj q)) (\<lambda>ob.
     if \<not> qo_response_fn ob then Inl NullDeref
     else
       bindE (R (qr_user_data q) out_args rc (client s)) (\<lambda>c.
       Inr (upd_req r (\<lambda>q. q\<lparr>qr_state := JOB_COMPLETED\<rparr>) s
              \<lparr>client := c, responses := responses s @ [(r, rc)]\<rparr>))))"

section \<open>qmf\_agent.cpp: sending a call\<close>

text \<open>
  The input arguments that the schema of the object gives for the method; an argument that the caller
  did not supply is sent empty, and becomes an entry of the request's own map.
\<close>

definition schema_inputs :: "(string \<times> (string \<times> bool) list) list \<Rightarrow> string \<Rightarrow> string list" where
  "schema_inputs schema method =
     (case List.find (\<lambda>sm. fst sm = method) schema of
        None \<Rightarrow> []
      | Some sm \<Rightarrow> map fst (filter (\<lambda>sp. \<not> snd sp) (snd sm)))"

definition arg_value :: "variant_map \<Rightarrow> string \<Rightarrow> variant" where
  "arg_value args n = (case qb_map_get args n of None \<Rightarrow> V_void | Some v \<Rightarrow> v)"

definition call_method_async :: "qmf_env \<Rightarrow> agent_ptr \<Rightarrow> req_ptr \<Rightarrow> qmf_data \<Rightarrow> 'c qmf \<Rightarrow> 'c qmf res" where
  "call_method_async E qa r data s =
     bindE (agent_get s qa) (\<lambda>ag.
     bindE (req_get s r) (\<lambda>q.
     let inputs = schema_inputs (qe_schema E (qa_name ag) (qd_schema data)) (qr_method q);
         in_args = fold (\<lambda>n m. qb_map_put n (arg_value (qr_args q) n) m) inputs [];
         all_args = fold (\<lambda>n m. qb_map_put n (arg_value m n) m) inputs (qr_args q);
         s = upd_req r (\<lambda>q. q\<lparr>qr_args := all_args\<rparr>) s;
         s = s\<lparr>sent_calls := sent_calls s @ [\<lparr>sc_agent = qa_name ag, sc_method = qr_method q,
                 sc_args = in_args, sc_addr = qd_addr data\<rparr>]\<rparr>
     in Inr (upd_agent qa (\<lambda>ag. ag\<lparr>qa_outstanding :=
               AList.update (qe_correlator E) (Some r) (qa_outstanding ag)\<rparr>) s)))"

section \<open>qmf\_object.cpp\<close>

definition QMF_NS_IN_MSEC :: nat where "QMF_NS_IN_MSEC = 1000000"

text \<open>The time-out of a call.\<close>

definition method_call_tmo ::
  "(nat \<Rightarrow> variant_map \<Rightarrow> rpc_result \<Rightarrow> 'c \<Rightarrow> 'c res) \<Rightarrow> req_ptr \<Rightarrow> 'c qmf \<Rightarrow> 'c qmf res" where
  "method_call_tmo R r s =
     bindE (req_get s r) (\<lambda>q.
     bindE (if qr_state q = JOB_COMPLETED then Inr s
            else if qr_state q = JOB_SCHEDULED then method_response R r [] RPC_NOT_CONNECTED s
            else method_response R r [] RPC_TIMEOUT s) (\<lambda>s.
     request_unref r s))"

text \<open>
  What \<open>run_pending_calls\<close> and \<open>method_call_async\<close> share: send the call, mark it as running, and arm its
  time-out, which holds a reference.
\<close>

definition call_start :: "qmf_env \<Rightarrow> obj_ptr \<Rightarrow> req_ptr \<Rightarrow> 'c qmf \<Rightarrow> 'c qmf res" where
  "call_start E ob r s =
     bindE (obj_get s ob) (\<lambda>obj.
     bindE (req_get s r) (\<lambda>q.
     bindE (derefE NullDeref (qo_qa obj)) (\<lambda>qa.
     bindE (derefE NullDeref (qo_qmf_data obj)) (\<lambda>data.
     bindE (call_method_async E qa r data s) (\<lambda>s.
     bindE (request_ref r (upd_req r (\<lambda>q. q\<lparr>qr_state := JOB_RUNNING\<rparr>) s)) (\<lambda>s.
     Inr (s\<lparr>call_timers := call_timers s @ [(r, unat (qr_timeout q) * QMF_NS_IN_MSEC)]\<rparr>)))))))"

definition run_pending_calls :: "qmf_env \<Rightarrow> obj_ptr \<Rightarrow> 'c qmf \<Rightarrow> 'c qmf res" where
  "run_pending_calls E ob s =
     bindE (obj_get s ob) (\<lambda>obj. foldE (call_start E ob) (qo_pending_jobs obj) s)"

definition method_call_async ::
  "qmf_env \<Rightarrow> obj_ptr \<Rightarrow> string \<Rightarrow> variant_map \<Rightarrow> nat \<Rightarrow> u32 \<Rightarrow> 'c qmf \<Rightarrow> 'c qmf res" where
  "method_call_async E ob method in_args user_data timeout_ms s =
     bindE (obj_get s ob) (\<lambda>obj.
     if \<not> qo_response_fn obj then Inl AssertFail
     else
       let r = next_req s;
           q = \<lparr>qr_ref_count = 1, qr_state = JOB_INIT, qr_obj = ob, qr_args = in_args, qr_method = method,
                qr_user_data = user_data, qr_timeout = timeout_ms\<rparr>;
           s = s\<lparr>reqs := (reqs s)(r := Some q), next_req := Suc r\<rparr>
       in if qo_connected obj then call_start E ob r s
          else Inr (upd_obj ob (\<lambda>x. x\<lparr>qo_pending_jobs := qo_pending_jobs x @ [r]\<rparr>)
                     (upd_req r (\<lambda>q. q\<lparr>qr_state := JOB_SCHEDULED\<rparr>) s)))"

text \<open>The text of a variant: a map has none, and its conversion raises an exception.\<close>

fun has_text :: "variant \<Rightarrow> bool" where
  "has_text (V_map m) = False"
| "has_text v = True"

text \<open>
  What an exception says: the properties of its first data item, whose \<open>error_text\<close> is read for the log
  and must exist.
\<close>

definition exception_args :: "console_event \<Rightarrow> variant_map res" where
  "exception_args ev =
     (case ce_data ev of
        [] \<Rightarrow> Inr []
      | d # _ \<Rightarrow> bindE (derefE AssertFail (qb_map_get d ''error_text'')) (\<lambda>v.
                 if has_text v then Inr d else Inl AssertFail))"

text \<open>An event of an object; \<open>ar\<close> is the request that a response belongs to.\<close>

definition object_process_event ::
  "(nat \<Rightarrow> variant_map \<Rightarrow> rpc_result \<Rightarrow> 'c \<Rightarrow> 'c res) \<Rightarrow> (obj_ptr \<Rightarrow> console_event \<Rightarrow> 'c qmf \<Rightarrow> 'c qmf res) \<Rightarrow>
   obj_ptr \<Rightarrow> console_event \<Rightarrow> req_ptr option \<Rightarrow> 'c qmf \<Rightarrow> 'c qmf res" where
  "object_process_event R V ob ev ar s =
     bindE (obj_get s ob) (\<lambda>obj.
     if ce_type ev = CONSOLE_METHOD_RESPONSE then
       bindE (derefE NullDeref ar) (\<lambda>r.
       bindE (req_get s r) (\<lambda>q.
       bindE (if qr_state q = JOB_RUNNING then method_response R r (ce_arguments ev) RPC_OK s
              else Inr s) (\<lambda>s.
       request_unref r s)))
     else if ce_type ev = CONSOLE_EXCEPTION then
       bindE (exception_args ev) (\<lambda>args.
       bindE (derefE NullDeref ar) (\<lambda>r.
       bindE (method_response R r args RPC_EXCEPTION s) (\<lambda>s.
       request_unref r s)))
     else if ce_type ev = CONSOLE_EVENT then
       (if qo_event_fn obj then V ob ev s else Inr s)
     else Inr s)"

definition lower :: "char \<Rightarrow> char" where
  "lower c = (if 65 \<le> (of_char c :: nat) \<and> of_char c \<le> (90 :: nat) then char_of (of_char c + (32 :: nat)) else c)"

definition strcasecmp_eq :: "string \<Rightarrow> string \<Rightarrow> bool" where
  "strcasecmp_eq s1 s2 \<longleftrightarrow> map lower s1 = map lower s2"

text \<open>The first object of the agent that matches; a missing property raises an exception.\<close>

fun connect_loop :: "qmf_object \<Rightarrow> qmf_data list \<Rightarrow> qmf_data option res" where
  "connect_loop obj [] = Inr None"
| "connect_loop obj (d # ds) =
     (if qo_prop_name obj = [] then Inr (Some d)
      else bindE (derefE AssertFail (qb_map_get (qd_properties d) (qo_prop_name obj))) (\<lambda>v.
           if strcasecmp_eq v (qo_prop_value obj) then Inr (Some d) else connect_loop obj ds))"

definition object_connect ::
  "qmf_env \<Rightarrow> (obj_ptr \<Rightarrow> 'c qmf \<Rightarrow> 'c qmf res) \<Rightarrow> obj_ptr \<Rightarrow> string \<Rightarrow> 'c qmf \<Rightarrow> (bool \<times> 'c qmf) res" where
  "object_connect E N ob agent s =
     bindE (obj_get s ob) (\<lambda>obj.
     if qo_connected obj then Inr (False, s)
     else
       bindE (connect_loop obj (qe_query E agent (qo_query obj))) (\<lambda>found.
       case found of
         None \<Rightarrow> Inr (False, s)
       | Some d \<Rightarrow>
           let s = upd_obj ob (\<lambda>x. x\<lparr>qo_connected := True, qo_agent_name := agent, qo_qmf_data := Some d\<rparr>) s;
               s = s\<lparr>pending_runs := pending_runs s @ [ob]\<rparr>
           in bindE (if qo_connection_fn obj then N ob s else Inr s) (\<lambda>s. Inr (True, s))))"

definition object_disconnect :: "obj_ptr \<Rightarrow> 'c qmf \<Rightarrow> 'c qmf res" where
  "object_disconnect ob s =
     bindE (obj_get s ob) (\<lambda>_.
     Inr (upd_obj ob (\<lambda>x. x\<lparr>qo_connected := False, qo_agent_name := [], qo_qa := None\<rparr>) s))"

section \<open>qmf\_agent.cpp: objects, events and the end of an agent\<close>

definition agent_add :: "agent_ptr \<Rightarrow> obj_ptr \<Rightarrow> 'c qmf \<Rightarrow> 'c qmf res" where
  "agent_add qa ob s =
     bindE (agent_get s qa) (\<lambda>_.
     bindE (obj_get s ob) (\<lambda>_.
     Inr (upd_obj ob (\<lambda>x. x\<lparr>qo_qa := Some qa\<rparr>)
           (upd_agent qa (\<lambda>ag. ag\<lparr>qa_objects := qa_objects ag @ [ob]\<rparr>) s))))"

text \<open>The destructor: the outstanding calls in the order of their correlators, then the objects.\<close>

definition agent_delete ::
  "(nat \<Rightarrow> variant_map \<Rightarrow> rpc_result \<Rightarrow> 'c \<Rightarrow> 'c res) \<Rightarrow> agent_ptr \<Rightarrow> 'c qmf \<Rightarrow> 'c qmf res" where
  "agent_delete R qa s =
     bindE (agent_get s qa) (\<lambda>ag.
     bindE (foldE (\<lambda>call s. bindE (derefE NullDeref (snd call)) (\<lambda>r. method_response R r [] RPC_CANCELLED s))
              (sort_key fst (qa_outstanding ag)) s) (\<lambda>s.
     bindE (foldE object_disconnect (qa_objects ag) s) (\<lambda>s.
     Inr (s\<lparr>agents := (agents s)(qa := None)\<rparr>))))"

definition outstanding_at :: "agent_ptr \<Rightarrow> u32 \<Rightarrow> 'c qmf \<Rightarrow> req_ptr option" where
  "outstanding_at qa cid s =
     Option.bind (agents s qa) (\<lambda>ag. Option.bind (map_of (qa_outstanding ag) cid) (\<lambda>x. x))"

definition agent_process_event ::
  "(nat \<Rightarrow> variant_map \<Rightarrow> rpc_result \<Rightarrow> 'c \<Rightarrow> 'c res) \<Rightarrow> (obj_ptr \<Rightarrow> console_event \<Rightarrow> 'c qmf \<Rightarrow> 'c qmf res) \<Rightarrow>
   agent_ptr \<Rightarrow> console_event \<Rightarrow> 'c qmf \<Rightarrow> 'c qmf res" where
  "agent_process_event R V qa ev s =
     bindE (agent_get s qa) (\<lambda>ag.
     if ce_type ev = CONSOLE_METHOD_RESPONSE \<or> ce_type ev = CONSOLE_EXCEPTION then
       case outstanding_at qa (ce_correlator ev) s of
         None \<Rightarrow> Inr (upd_agent qa (\<lambda>ag. ag\<lparr>qa_outstanding :=
                   AList.update (ce_correlator ev) None (qa_outstanding ag)\<rparr>) s)
       | Some r \<Rightarrow>
           bindE (req_get s r) (\<lambda>q.
           bindE (object_process_event R V (qr_obj q) ev (Some r) s) (\<lambda>s.
           Inr (upd_agent qa (\<lambda>ag. ag\<lparr>qa_outstanding :=
                   AList.delete (ce_correlator ev) (qa_outstanding ag)\<rparr>) s)))
     else foldE (\<lambda>ob s. object_process_event R V ob ev None s) (qa_objects ag) s)"

section \<open>qmf\_multiplexer.cpp\<close>

definition mux_agent_at :: "string \<Rightarrow> 'c qmf \<Rightarrow> agent_ptr option" where
  "mux_agent_at name s = Option.bind (qb_map_get (mux_agents s) name) (\<lambda>x. x)"

text \<open>A new agent is offered to every object; the first that connects creates the agent's entry.\<close>

definition mux_offer ::
  "qmf_env \<Rightarrow> (obj_ptr \<Rightarrow> 'c qmf \<Rightarrow> 'c qmf res) \<Rightarrow> string \<Rightarrow> obj_ptr \<Rightarrow> 'c qmf \<Rightarrow> 'c qmf res" where
  "mux_offer E N name ob s =
     bindE (object_connect E N ob name s) (\<lambda>(ok, s).
     if \<not> ok then Inr s
     else case mux_agent_at name s of
            Some qa \<Rightarrow> agent_add qa ob s
          | None \<Rightarrow>
              let qa = next_agent s;
                  s = s\<lparr>agents := (agents s)(qa := Some \<lparr>qa_name = name, qa_outstanding = [], qa_objects = []\<rparr>),
                        next_agent := Suc qa, mux_agents := qb_map_put name (Some qa) (mux_agents s)\<rparr>
              in agent_add qa ob s)"

definition mux_process_event ::
  "qmf_env \<Rightarrow> (nat \<Rightarrow> variant_map \<Rightarrow> rpc_result \<Rightarrow> 'c \<Rightarrow> 'c res) \<Rightarrow> (obj_ptr \<Rightarrow> 'c qmf \<Rightarrow> 'c qmf res) \<Rightarrow>
   (obj_ptr \<Rightarrow> console_event \<Rightarrow> 'c qmf \<Rightarrow> 'c qmf res) \<Rightarrow> console_event \<Rightarrow> 'c qmf \<Rightarrow> 'c qmf res" where
  "mux_process_event E R N V ev s =
     (if ce_type ev = CONSOLE_AGENT_ADD then foldE (mux_offer E N (ce_agent ev)) (mux_objects s) s
      else if ce_type ev = CONSOLE_AGENT_DEL then
        let s' = s\<lparr>mux_agents := qb_map_rm (ce_agent ev) (mux_agents s)\<rparr> in
        (case mux_agent_at (ce_agent ev) s of None \<Rightarrow> Inr s' | Some qa \<Rightarrow> agent_delete R qa s')
      else
        (case mux_agent_at (ce_agent ev) s of
           None \<Rightarrow> Inr (s\<lparr>mux_agents := qb_map_put (ce_agent ev) None (mux_agents s)\<rparr>)
         | Some qa \<Rightarrow> agent_process_event R V qa ev s))"

definition process_events ::
  "qmf_env \<Rightarrow> (nat \<Rightarrow> variant_map \<Rightarrow> rpc_result \<Rightarrow> 'c \<Rightarrow> 'c res) \<Rightarrow> (obj_ptr \<Rightarrow> 'c qmf \<Rightarrow> 'c qmf res) \<Rightarrow>
   (obj_ptr \<Rightarrow> console_event \<Rightarrow> 'c qmf \<Rightarrow> 'c qmf res) \<Rightarrow> console_event list \<Rightarrow> 'c qmf \<Rightarrow> 'c qmf res" where
  "process_events E R N V evs s = foldE (mux_process_event E R N V) evs s"

definition qmf_object_add :: "obj_ptr \<Rightarrow> 'c qmf \<Rightarrow> 'c qmf" where
  "qmf_object_add ob s = s\<lparr>mux_objects := mux_objects s @ [ob]\<rparr>"

text \<open>
  \<^verbatim>\<open>QmfMultiplexer::start\<close> opens a session with these settings and has its descriptor polled; an exception of
  the library would end the program here. The handler of the descriptor reads all events that are there
  (\<open>evs\<close>), when it is called for input. Like the one of \<^verbatim>\<open>mainloop.cpp\<close> it has no \<^verbatim>\<open>return\<close>.
\<close>

record console_session =
  cs_url :: string
  cs_connection_options :: string
  cs_session_options :: string
  cs_filter :: string

definition mux_start :: "string \<Rightarrow> string \<Rightarrow> console_session" where
  "mux_start url flt = \<lparr>cs_url = url, cs_connection_options = [], cs_session_options = ''max-agent-age:1'', cs_filter = flt\<rparr>"

definition mux_poll ::
  "qmf_env \<Rightarrow> (nat \<Rightarrow> variant_map \<Rightarrow> rpc_result \<Rightarrow> 'c \<Rightarrow> 'c res) \<Rightarrow> (obj_ptr \<Rightarrow> 'c qmf \<Rightarrow> 'c qmf res) \<Rightarrow>
   (obj_ptr \<Rightarrow> console_event \<Rightarrow> 'c qmf \<Rightarrow> 'c qmf res) \<Rightarrow> u32 \<Rightarrow> console_event list \<Rightarrow> 'c qmf \<Rightarrow> 'c qmf res" where
  "mux_poll E R N V revents evs s = (if bit revents 0 then process_events E R N V evs s else Inr s)"

end
