(* ===== verification/Qmf_Calls.thy ===== *)
theory Qmf_Calls
  imports Qmf
begin

text \<open>
  What becomes of an asynchronous call. A request is held by its time-out and by the entry of the agent
  it was sent to; \<open>calls_ok\<close> says that these holders are covered by the reference count and that a
  request nobody has answered still has its time-out. The steps of the session (calls on connected
  objects, console events, time-outs, the run of the pending calls) keep it, whatever the client's
  handlers do with the client's own state. The handlers are the locale \<open>qmf_client\<close>.
\<close>

section \<open>Holders of a request\<close>

definition timed :: "'c qmf \<Rightarrow> req_ptr \<Rightarrow> bool" where
  "timed s r \<longleftrightarrow> r \<in> fst ` set (call_timers s)"

definition held_at :: "'c qmf \<Rightarrow> agent_ptr \<Rightarrow> u32 \<Rightarrow> req_ptr \<Rightarrow> bool" where
  "held_at s qa cid r \<longleftrightarrow> outstanding_at qa cid s = Some r"

definition outst :: "'c qmf \<Rightarrow> req_ptr \<Rightarrow> bool" where
  "outst s r \<longleftrightarrow> (\<exists>qa cid. held_at s qa cid r)"

definition holders :: "'c qmf \<Rightarrow> req_ptr \<Rightarrow> nat" where
  "holders s r = (if timed s r then 1 else 0) + (if outst s r then 1 else 0)"

definition answered :: "'c qmf \<Rightarrow> req_ptr \<Rightarrow> bool" where
  "answered s r \<longleftrightarrow> r \<in> fst ` set (responses s)"

definition answerable :: "'c qmf \<Rightarrow> obj_ptr \<Rightarrow> bool" where
  "answerable s ob \<longleftrightarrow> (\<exists>obj. objs s ob = Some obj \<and> qo_response_fn obj)"

text \<open>
  While a handler runs, one request may be owed: a holder has just gone, its reference is still to be
  returned, and it need not have a time-out any more.
\<close>

definition request_ok :: "req_ptr option \<Rightarrow> 'c qmf \<Rightarrow> req_ptr \<Rightarrow> request \<Rightarrow> bool" where
  "request_ok owed s r q \<longleftrightarrow>
     holders s r + (if owed = Some r then 1 else 0) \<le> unat (qr_ref_count q) \<and> qr_ref_count q \<in> {1, 2} \<and>
     (qr_state q = JOB_RUNNING \<and> (timed s r \<or> owed = Some r) \<or> qr_state q = JOB_COMPLETED \<and> answered s r) \<and>
     r < next_req s \<and> answerable s (qr_obj q)"

definition calls_inv :: "req_ptr option \<Rightarrow> 'c qmf \<Rightarrow> bool" where
  "calls_inv owed s \<longleftrightarrow>
     (\<forall>r q. reqs s r = Some q \<longrightarrow> request_ok owed s r q) \<and>
     (\<forall>r. timed s r \<or> outst s r \<longrightarrow> reqs s r \<noteq> None) \<and>
     distinct (map fst (call_timers s)) \<and>
     (\<forall>r qa qa' cid cid'. held_at s qa cid r \<and> held_at s qa' cid' r \<longrightarrow> qa = qa' \<and> cid = cid') \<and>
     (\<forall>ob obj. objs s ob = Some obj \<longrightarrow> qo_pending_jobs obj = []) \<and>
     (\<forall>qa \<ge> next_agent s. agents s qa = None)"

abbreviation calls_ok :: "'c qmf \<Rightarrow> bool" where
  "calls_ok \<equiv> calls_inv None"

lemma calls_inv_I:
  assumes "\<And>r q. reqs s r = Some q \<Longrightarrow> request_ok owed s r q"
    and "\<And>r. timed s r \<or> outst s r \<Longrightarrow> reqs s r \<noteq> None"
    and "distinct (map fst (call_timers s))"
    and "\<And>r qa qa' cid cid'. held_at s qa cid r \<Longrightarrow> held_at s qa' cid' r \<Longrightarrow> qa = qa' \<and> cid = cid'"
    and "\<And>ob obj. objs s ob = Some obj \<Longrightarrow> qo_pending_jobs obj = []"
    and "\<And>qa. next_agent s \<le> qa \<Longrightarrow> agents s qa = None"
  shows "calls_inv owed s"
  unfolding calls_inv_def using assms by blast

lemma calls_inv_D:
  assumes "calls_inv owed s"
  shows "reqs s r = Some q \<Longrightarrow> request_ok owed s r q"
    and "timed s r \<or> outst s r \<Longrightarrow> reqs s r \<noteq> None"
    and "distinct (map fst (call_timers s))"
    and "held_at s qa cid r \<Longrightarrow> held_at s qa' cid' r \<Longrightarrow> qa = qa' \<and> cid = cid'"
    and "objs s ob = Some obj \<Longrightarrow> qo_pending_jobs obj = []"
    and "next_agent s \<le> qa \<Longrightarrow> agents s qa = None"
  using assms unfolding calls_inv_def by blast+

text \<open>The part of the state that \<open>calls_ok\<close> looks at.\<close>

definition calls_view where
  "calls_view s = (reqs s, next_req s, (\<lambda>qa. map_option qa_outstanding (agents s qa)), next_agent s, call_timers s,
     responses s, (\<lambda>ob. map_option (\<lambda>obj. (qo_pending_jobs obj, qo_response_fn obj)) (objs s ob)))"

lemma calls_view_D:
  assumes "calls_view s = calls_view s'"
  shows "reqs s = reqs s'" "next_req s = next_req s'" "next_agent s = next_agent s'"
    "call_timers s = call_timers s'" "responses s = responses s'"
    "map_option qa_outstanding (agents s qa) = map_option qa_outstanding (agents s' qa)"
    "map_option (\<lambda>obj. (qo_pending_jobs obj, qo_response_fn obj)) (objs s ob) =
     map_option (\<lambda>obj. (qo_pending_jobs obj, qo_response_fn obj)) (objs s' ob)"
  using assms by (auto simp: calls_view_def fun_eq_iff)

lemma held_at_map:
  "held_at s qa cid r \<longleftrightarrow>
     (\<exists>l. map_option qa_outstanding (agents s qa) = Some l \<and> map_of l cid = Some (Some r))"
  by (auto simp: held_at_def outstanding_at_def bind_eq_Some_conv split: option.splits)

lemma answerable_map:
  "answerable s ob \<longleftrightarrow>
     (\<exists>p. map_option (\<lambda>obj. (qo_pending_jobs obj, qo_response_fn obj)) (objs s ob) = Some p \<and> snd p)"
  by (auto simp: answerable_def)

lemma calls_inv_view:
  assumes "calls_view s' = calls_view s"
  shows "calls_inv owed s' = calls_inv owed s"
proof -
  note D = calls_view_D [OF assms]
  have held: "held_at s' = held_at s"
    by (intro ext) (simp add: held_at_map D(6))
  have ans: "answerable s' = answerable s"
    by (rule ext) (simp add: answerable_map D(7))
  have "request_ok owed s' r q = request_ok owed s r q" for r q
    by (simp add: request_ok_def holders_def timed_def outst_def held ans answered_def D)
  moreover have "(\<forall>obj. objs s' ob = Some obj \<longrightarrow> qo_pending_jobs obj = []) =
      (\<forall>obj. objs s ob = Some obj \<longrightarrow> qo_pending_jobs obj = [])" for ob
    using D(7) [of ob] by (cases "objs s ob"; cases "objs s' ob") auto
  moreover have "agents s' qa = None \<longleftrightarrow> agents s qa = None" for qa
    using D(6) [of qa] by (cases "agents s qa"; cases "agents s' qa") auto
  ultimately show ?thesis
    by (simp add: calls_inv_def timed_def outst_def held D)
qed

section \<open>Answering and releasing\<close>

lemma outst_held: "held_at s qa cid r \<Longrightarrow> outst s r"
  by (auto simp: outst_def)

lemma frame_eqs:
  "agents s' = agents s \<Longrightarrow> held_at s' = held_at s"
  "agents s' = agents s \<Longrightarrow> outst s' = outst s"
  "call_timers s' = call_timers s \<Longrightarrow> timed s' = timed s"
  "objs s' = objs s \<Longrightarrow> answerable s' = answerable s"
  "responses s' = responses s \<Longrightarrow> answered s' = answered s"
  by (simp_all add: fun_eq_iff held_at_def outst_def outstanding_at_def timed_def answerable_def answered_def)

text \<open>An answer changes the state of its request and the log.\<close>

lemma method_responseE:
  assumes "method_response R r args rc s = Inr s'"
  obtains q obj c where "reqs s r = Some q" and "objs s (qr_obj q) = Some obj" and "qo_response_fn obj"
    and "R (qr_user_data q) args rc (client s) = Inr c"
    and "s' = s\<lparr>reqs := (reqs s)(r := Some (q\<lparr>qr_state := JOB_COMPLETED\<rparr>)), client := c,
               responses := responses s @ [(r, rc)]\<rparr>"
  using assms unfolding method_response_def req_get_def obj_get_def
  by (auto simp: bindE_eq_Inr derefE_eq_Inr upd_req_def split: if_splits)

text \<open>A step that adds no holder, keeps the objects and creates no agent.\<close>

lemma calls_inv_shrink:
  assumes inv: "calls_inv owed s"
    and held: "\<And>qa cid r. held_at s' qa cid r \<Longrightarrow> held_at s qa cid r"
    and timers: "set (call_timers s') \<subseteq> set (call_timers s)" "distinct (map fst (call_timers s'))"
    and "objs s' = objs s" and "next_agent s' = next_agent s"
    and agents: "\<And>qa. agents s qa = None \<Longrightarrow> agents s' qa = None"
    and reqs: "\<And>x q. reqs s' x = Some q \<Longrightarrow> request_ok owed' s' x q"
    and freed: "\<And>x. reqs s' x = None \<Longrightarrow> reqs s x = None \<or> \<not> timed s' x \<and> \<not> outst s' x"
  shows "calls_inv owed' s'"
proof (rule calls_inv_I)
  fix x assume x: "timed s' x \<or> outst s' x"
  moreover have "outst s' x \<Longrightarrow> outst s x" unfolding outst_def using held by blast
  moreover have "timed s' x \<Longrightarrow> timed s x" using timers(1) by (auto simp: timed_def)
  ultimately have "timed s x \<or> outst s x" by blast
  with calls_inv_D(2) [OF inv, of x] have "reqs s x \<noteq> None" by blast
  with freed [of x] x show "reqs s' x \<noteq> None" by auto
next
  fix x qa qa' cid cid' assume "held_at s' qa cid x" "held_at s' qa' cid' x"
  then show "qa = qa' \<and> cid = cid'" using calls_inv_D(4) [OF inv] held by blast
next
  fix ob obj assume "objs s' ob = Some obj"
  then show "qo_pending_jobs obj = []" using calls_inv_D(5) [OF inv] assms(5) by simp
next
  fix qa assume "next_agent s' \<le> qa"
  then show "agents s' qa = None" using calls_inv_D(6) [OF inv] assms(6) agents by simp
qed (use reqs timers(2) in auto)

lemma response_inv:
  assumes inv: "calls_inv owed s" and "method_response R r args rc s = Inr s'"
  shows "calls_inv owed s'" and "\<exists>q. reqs s' r = Some q \<and> qr_state q = JOB_COMPLETED"
proof -
  obtain q obj c where q: "reqs s r = Some q"
    and s': "s' = s\<lparr>reqs := (reqs s)(r := Some (q\<lparr>qr_state := JOB_COMPLETED\<rparr>)), client := c,
               responses := responses s @ [(r, rc)]\<rparr>"
    using assms(2) by (rule method_responseE)
  have held: "held_at s' = held_at s" and
    same: "timed s' = timed s" "outst s' = outst s" "answerable s' = answerable s"
    by (rule frame_eqs; simp add: s')+
  have f: "next_req s' = next_req s" "reqs s' = (reqs s)(r := Some (q\<lparr>qr_state := JOB_COMPLETED\<rparr>))"
    "call_timers s' = call_timers s" "objs s' = objs s" "next_agent s' = next_agent s" "agents s' = agents s"
    by (simp_all add: s')
  have ans: "answered s' x \<longleftrightarrow> answered s x \<or> x = r" for x by (auto simp: answered_def s')
  show "calls_inv owed s'"
  proof (rule calls_inv_shrink [OF inv])
    fix x qx assume x: "reqs s' x = Some qx"
    show "request_ok owed s' x qx"
    proof (cases "x = r")
      case True
      with calls_inv_D(1) [OF inv q] x show ?thesis
        by (auto simp: request_ok_def holders_def same ans f)
    next
      case False
      with x have "reqs s x = Some qx" by (simp add: f)
      from calls_inv_D(1) [OF inv this] show ?thesis
        by (auto simp: request_ok_def holders_def same ans f)
    qed
  qed (use calls_inv_D(3) [OF inv] in \<open>simp_all add: held f split: if_splits\<close>)
  show "\<exists>q. reqs s' r = Some q \<and> qr_state q = JOB_COMPLETED" by (simp add: s')
qed

text \<open>Returning the reference of the request that is owed.\<close>

lemma unref_effect:
  "reqs s r = Some q \<Longrightarrow> request_unref r s = Inr (s\<lparr>reqs := (reqs s)
     (r := if qr_ref_count q = 1 then None else Some (q\<lparr>qr_ref_count := qr_ref_count q - 1\<rparr>))\<rparr>)"
  by (simp add: request_unref_def req_get_def upd_req_def)

lemma unref_inv:
  assumes inv: "calls_inv (Some r) s" and unref: "request_unref r s = Inr s'"
    and comp: "\<exists>q. reqs s r = Some q \<and> qr_state q = JOB_COMPLETED"
  shows "calls_ok s'"
proof -
  obtain q where q: "reqs s r = Some q" and comp: "qr_state q = JOB_COMPLETED" using comp by blast
  let ?new = "if qr_ref_count q = 1 then None else Some (q\<lparr>qr_ref_count := qr_ref_count q - 1\<rparr>)"
  have s': "s' = s\<lparr>reqs := (reqs s)(r := ?new)\<rparr>"
    using unref unref_effect [OF q] by simp
  have held: "held_at s' = held_at s" and
    same: "timed s' = timed s" "outst s' = outst s" "answerable s' = answerable s" "answered s' = answered s"
    by (rule frame_eqs; simp add: s')+
  have f: "next_req s' = next_req s" "reqs s' = (reqs s)(r := ?new)" "call_timers s' = call_timers s"
    "objs s' = objs s" "next_agent s' = next_agent s" "agents s' = agents s" by (simp_all add: s')
  have ok: "request_ok (Some r) s r q" by (rule calls_inv_D(1) [OF inv q])
  show ?thesis
  proof (rule calls_inv_shrink [OF inv])
    fix x qx assume x: "reqs s' x = Some qx"
    show "request_ok None s' x qx"
    proof (cases "x = r")
      case True
      with x have "qr_ref_count q = 2" and "qx = q\<lparr>qr_ref_count := 1\<rparr>"
        using ok by (auto simp: f request_ok_def split: if_splits)
      with ok comp True show ?thesis
        by (auto simp: request_ok_def holders_def same f split: if_splits)
    next
      case False
      with x have "reqs s x = Some qx" by (simp add: f)
      from calls_inv_D(1) [OF inv this] False show ?thesis
        by (auto simp: request_ok_def holders_def same f)
    qed
  next
    fix x assume "reqs s' x = None"
    then show "reqs s x = None \<or> \<not> timed s' x \<and> \<not> outst s' x"
      using ok by (auto simp: f same request_ok_def holders_def split: if_splits)
  qed (use calls_inv_D(3) [OF inv] in \<open>simp_all add: held f\<close>)
qed

text \<open>A holder goes: the request it held is owed.\<close>

lemma fst_remove1:
  assumes "distinct (map fst xs)" and "(r, t) \<in> set xs"
  shows "fst ` set (remove1 (r, t) xs) = fst ` set xs - {r}"
  using assms by (induction xs) force+

lemma distinct_fst_remove1: "distinct (map fst xs) \<Longrightarrow> distinct (map fst (remove1 x xs))"
proof (induction xs)
  case (Cons y ys)
  then show ?case using set_remove1_subset [of x ys] by auto
qed simp

lemma timer_gone_inv:
  assumes inv: "calls_ok s" and mem: "(r, t) \<in> set (call_timers s)"
  shows "calls_inv (Some r) (s\<lparr>call_timers := remove1 (r, t) (call_timers s)\<rparr>)" (is "calls_inv _ ?s")
proof -
  have dist: "distinct (map fst (call_timers s))" by (rule calls_inv_D(3) [OF inv])
  have timed: "timed ?s x \<longleftrightarrow> timed s x \<and> x \<noteq> r" for x
    using fst_remove1 [OF dist mem] by (simp add: timed_def)
  have held: "held_at ?s = held_at s" and
    same: "outst ?s = outst s" "answerable ?s = answerable s" "answered ?s = answered s"
    by (rule frame_eqs; simp)+
  have r: "timed s r" using mem by (force simp: timed_def)
  show ?thesis
  proof (rule calls_inv_shrink [OF inv])
    fix x q assume "reqs ?s x = Some q"
    then have "reqs s x = Some q" by simp
    from calls_inv_D(1) [OF inv this] r show "request_ok (Some r) ?s x q"
      by (auto simp: request_ok_def holders_def same timed split: if_splits)
  next
    show "distinct (map fst (call_timers ?s))" using distinct_fst_remove1 [OF dist] by simp
  qed (simp_all add: held set_remove1_subset)
qed

lemma entry_gone_inv:
  assumes inv: "calls_ok s" and mem: "held_at s qa cid r"
  shows "calls_inv (Some r) (upd_agent qa (\<lambda>ag. ag\<lparr>qa_outstanding := AList.delete cid (qa_outstanding ag)\<rparr>) s)"
    (is "calls_inv _ ?s")
proof -
  have held: "held_at ?s qa' cid' x \<longleftrightarrow> held_at s qa' cid' x \<and> \<not> (qa' = qa \<and> cid' = cid)" for qa' cid' x
    by (auto simp: held_at_map upd_agent_def delete_conv' split: option.splits if_splits)
  have out: "outst ?s x \<longleftrightarrow> outst s x \<and> x \<noteq> r" for x
  proof -
    have "\<not> outst ?s r" using calls_inv_D(4) [OF inv mem] by (auto simp: outst_def held)
    moreover have "\<not> held_at s qa cid x" if "x \<noteq> r"
      using that mem by (simp add: held_at_def)
    then have "outst ?s x = outst s x" if "x \<noteq> r"
      unfolding outst_def held using that by blast
    ultimately show ?thesis by blast
  qed
  have same: "timed ?s = timed s" "answerable ?s = answerable s" "answered ?s = answered s"
    by (rule frame_eqs; simp add: upd_agent_def)+
  have f: "next_req ?s = next_req s" "reqs ?s = reqs s" "call_timers ?s = call_timers s" "objs ?s = objs s"
    "next_agent ?s = next_agent s" "\<And>qa. agents s qa = None \<Longrightarrow> agents ?s qa = None"
    by (auto simp: upd_agent_def)
  have r: "outst s r" using mem by (rule outst_held)
  show ?thesis
  proof (rule calls_inv_shrink [OF inv])
    fix x q assume "reqs ?s x = Some q"
    then have "reqs s x = Some q" by (simp add: f)
    from calls_inv_D(1) [OF inv this] r show "request_ok (Some r) ?s x q"
      by (auto simp: request_ok_def holders_def same out f split: if_splits)
  qed (use calls_inv_D(3) [OF inv] in \<open>simp_all add: held f\<close>)
qed

section \<open>The handlers keep the invariant\<close>

text \<open>A time-out.\<close>

lemma tmo_inv:
  assumes inv: "calls_ok s" and mem: "(r, t) \<in> set (call_timers s)"
    and "method_call_tmo R r (s\<lparr>call_timers := remove1 (r, t) (call_timers s)\<rparr>) = Inr s'"
  shows "calls_ok s'"
proof -
  let ?s = "s\<lparr>call_timers := remove1 (r, t) (call_timers s)\<rparr>"
  note inv1 = timer_gone_inv [OF inv mem]
  from assms(3) obtain q s1 where q: "reqs ?s r = Some q" and s1: "(if qr_state q = JOB_COMPLETED then Inr ?s
      else if qr_state q = JOB_SCHEDULED then method_response R r [] RPC_NOT_CONNECTED ?s
      else method_response R r [] RPC_TIMEOUT ?s) = Inr s1" and unref: "request_unref r s1 = Inr s'"
    unfolding method_call_tmo_def req_get_def bindE_eq_Inr derefE_eq_Inr by blast
  have "calls_inv (Some r) s1 \<and> (\<exists>q. reqs s1 r = Some q \<and> qr_state q = JOB_COMPLETED)"
    using s1 q inv1 response_inv [OF inv1] by (auto split: if_splits)
  with unref_inv [OF _ unref] show ?thesis by blast
qed

text \<open>The answer to an outstanding call: releasing the request and erasing the entry commute.\<close>

lemma unref_upd_agent:
  assumes "request_unref r s = Inr s'"
  shows "request_unref r (upd_agent qa f s) = Inr (upd_agent qa f s')"
proof (cases "reqs s r")
  case None
  with assms show ?thesis by (simp add: request_unref_def req_get_def)
next
  case (Some q)
  then have "reqs (upd_agent qa f s) r = Some q" by (simp add: upd_agent_def)
  from unref_effect [OF this] unref_effect [OF Some] assms show ?thesis
    by (auto simp: upd_agent_def)
qed

lemma response_upd_agent:
  assumes "method_response R r args rc s = Inr s'"
  shows "method_response R r args rc (upd_agent qa f s) = Inr (upd_agent qa f s')"
proof -
  obtain q obj c where "reqs s r = Some q" "objs s (qr_obj q) = Some obj" "qo_response_fn obj"
    "R (qr_user_data q) args rc (client s) = Inr c"
    "s' = s\<lparr>reqs := (reqs s)(r := Some (q\<lparr>qr_state := JOB_COMPLETED\<rparr>)), client := c,
               responses := responses s @ [(r, rc)]\<rparr>"
    using assms by (rule method_responseE)
  then show ?thesis
    by (simp add: method_response_def req_get_def obj_get_def upd_agent_def upd_req_def)
qed

lemma process_replyE:
  assumes "object_process_event R V ob ev (Some r) s = Inr s'"
    and "ce_type ev = CONSOLE_METHOD_RESPONSE \<or> ce_type ev = CONSOLE_EXCEPTION"
  obtains s1 where "s1 = s \<and> (\<exists>q. reqs s r = Some q \<and> qr_state q \<noteq> JOB_RUNNING) \<or>
      (\<exists>args rc. method_response R r args rc s = Inr s1)" and "request_unref r s1 = Inr s'"
proof (cases "ce_type ev = CONSOLE_EXCEPTION")
  case True
  then obtain args s1 where "method_response R r args RPC_EXCEPTION s = Inr s1"
    "request_unref r s1 = Inr s'"
    using assms(1) unfolding object_process_event_def bindE_eq_Inr by (auto simp: bindE_eq_Inr)
  with that show ?thesis by blast
next
  case False
  then obtain q s1 where "reqs s r = Some q" and
    "(if qr_state q = JOB_RUNNING then method_response R r (ce_arguments ev) RPC_OK s else Inr s) = Inr s1"
    "request_unref r s1 = Inr s'"
    using assms unfolding object_process_event_def bindE_eq_Inr by (auto simp: bindE_eq_Inr req_get_def derefE_eq_Inr)
  with that [of s1] show ?thesis by (cases "qr_state q = JOB_RUNNING") auto
qed

lemma reply_inv:
  assumes inv: "calls_ok s" and held: "held_at s qa cid r"
    and ev: "ce_type ev = CONSOLE_METHOD_RESPONSE \<or> ce_type ev = CONSOLE_EXCEPTION"
    and "object_process_event R V ob ev (Some r) s = Inr s'"
  shows "calls_ok (upd_agent qa (\<lambda>ag. ag\<lparr>qa_outstanding := AList.delete cid (qa_outstanding ag)\<rparr>) s')"
    (is "calls_ok (?del s')")
proof -
  note inv1 = entry_gone_inv [OF inv held]
  obtain s1 where s1: "s1 = s \<and> (\<exists>q. reqs s r = Some q \<and> qr_state q \<noteq> JOB_RUNNING) \<or>
      (\<exists>args rc. method_response R r args rc s = Inr s1)" and unref: "request_unref r s1 = Inr s'"
    using assms(4) ev by (rule process_replyE)
  from s1 have "calls_inv (Some r) (?del s1) \<and> (\<exists>q. reqs (?del s1) r = Some q \<and> qr_state q = JOB_COMPLETED)"
  proof (elim disjE conjE exE)
    fix q assume "s1 = s" "reqs s r = Some q" "qr_state q \<noteq> JOB_RUNNING"
    moreover from this calls_inv_D(1) [OF inv] have "qr_state q = JOB_COMPLETED" by (auto simp: request_ok_def)
    ultimately show ?thesis using inv1 by (simp add: upd_agent_def)
  next
    fix args rc assume "method_response R r args rc s = Inr s1"
    from response_inv [OF inv1 response_upd_agent [OF this]] show ?thesis by blast
  qed
  with unref_inv [OF _ unref_upd_agent [OF unref]] show ?thesis by blast
qed

text \<open>A new call on a connected object, under a correlator that is not in use.\<close>

definition call_request :: "obj_ptr \<Rightarrow> string \<Rightarrow> variant_map \<Rightarrow> nat \<Rightarrow> u32 \<Rightarrow> string list \<Rightarrow> request" where
  "call_request ob m args u tmo inputs =
     \<lparr>qr_ref_count = 2, qr_state = JOB_RUNNING, qr_obj = ob,
      qr_args = fold (\<lambda>n m. qb_map_put n (arg_value m n) m) inputs args, qr_method = m, qr_user_data = u,
      qr_timeout = tmo\<rparr>"

definition call_inputs :: "qmf_env \<Rightarrow> qmf_agent \<Rightarrow> qmf_data \<Rightarrow> string \<Rightarrow> string list" where
  "call_inputs E ag data m = schema_inputs (qe_schema E (qa_name ag) (qd_schema data)) m"

definition call_sent :: "qmf_agent \<Rightarrow> qmf_data \<Rightarrow> string \<Rightarrow> variant_map \<Rightarrow> string list \<Rightarrow> sent_call" where
  "call_sent ag data m args inputs = \<lparr>sc_agent = qa_name ag, sc_method = m,
     sc_args = fold (\<lambda>n. qb_map_put n (arg_value args n)) inputs [], sc_addr = qd_addr data\<rparr>"

definition called ::
  "qmf_env \<Rightarrow> agent_ptr \<Rightarrow> qmf_agent \<Rightarrow> qmf_data \<Rightarrow> obj_ptr \<Rightarrow> string \<Rightarrow> variant_map \<Rightarrow> nat \<Rightarrow> u32 \<Rightarrow> 'c qmf \<Rightarrow> 'c qmf" where
  "called E qa ag data ob m args u tmo s =
     s\<lparr>reqs := (reqs s)(next_req s := Some (call_request ob m args u tmo (call_inputs E ag data m))),
       next_req := Suc (next_req s),
       agents := (agents s)(qa := Some (ag\<lparr>qa_outstanding :=
         AList.update (qe_correlator E) (Some (next_req s)) (qa_outstanding ag)\<rparr>)),
       call_timers := call_timers s @ [(next_req s, unat tmo * QMF_NS_IN_MSEC)],
       sent_calls := sent_calls s @ [call_sent ag data m args (call_inputs E ag data m)]\<rparr>"

lemma call_effect:
  assumes "objs s ob = Some obj" and "qo_connected obj"
  shows "method_call_async E ob m args u tmo s = Inr s' \<longleftrightarrow>
     qo_response_fn obj \<and> (\<exists>qa data ag. qo_qa obj = Some qa \<and> qo_qmf_data obj = Some data \<and> agents s qa = Some ag \<and>
       s' = called E qa ag data ob m args u tmo s)"
  using assms unfolding method_call_async_def call_start_def call_method_async_def called_def call_request_def
    call_inputs_def call_sent_def
  by (cases "qo_qa obj"; cases "qo_qmf_data obj"; cases "agents s (the (qo_qa obj))")
    (auto simp: obj_get_def req_get_def agent_get_def upd_req_def upd_agent_def request_ref_def Let_def)

lemma call_inv:
  assumes inv: "calls_ok s" and "method_call_async E ob m args u tmo s = Inr s'"
    and obj: "objs s ob = Some obj" "qo_connected obj"
    and fresh: "\<And>qa. qo_qa obj = Some qa \<Longrightarrow> outstanding_at qa (qe_correlator E) s = None"
  shows "calls_ok s'"
proof -
  let ?r = "next_req s" and ?cid = "qe_correlator E"
  obtain qa data ag where fn: "qo_response_fn obj" and qa: "qo_qa obj = Some qa" and ag: "agents s qa = Some ag"
    and s': "s' = called E qa ag data ob m args u tmo s"
    using assms(2) unfolding call_effect [OF obj] by (elim conjE exE)
  define q where "q = call_request ob m args u tmo (call_inputs E ag data m)"
  have q: "qr_ref_count q = 2" "qr_state q = JOB_RUNNING" "qr_obj q = ob" by (simp_all add: q_def call_request_def)
  have f: "reqs s' = (reqs s)(?r := Some q)" "next_req s' = Suc ?r" "objs s' = objs s" "responses s' = responses s"
    "next_agent s' = next_agent s" "fst ` set (call_timers s') = insert ?r (fst ` set (call_timers s))"
    "map fst (call_timers s') = map fst (call_timers s) @ [?r]"
    "agents s' = (agents s)(qa := Some (ag\<lparr>qa_outstanding := AList.update ?cid (Some ?r) (qa_outstanding ag)\<rparr>))"
    by (simp_all add: s' called_def q_def)
  have none: "reqs s ?r = None"
    using calls_inv_D(1) [OF inv, of ?r] by (cases "reqs s ?r") (auto simp: request_ok_def)
  then have new: "\<not> timed s ?r" "\<not> outst s ?r" using calls_inv_D(2) [OF inv, of ?r] by auto
  have timed: "timed s' x \<longleftrightarrow> timed s x \<or> x = ?r" for x by (auto simp: timed_def f)
  have held: "held_at s' qa' cid' x \<longleftrightarrow> held_at s qa' cid' x \<or> qa' = qa \<and> cid' = ?cid \<and> x = ?r" for qa' cid' x
    using fresh [OF qa] ag
    by (auto simp: held_at_def outstanding_at_def f update_conv' split: if_splits)
  have out: "outst s' x \<longleftrightarrow> outst s x \<or> x = ?r" for x unfolding outst_def held by blast
  have same: "answerable s' = answerable s" "answered s' = answered s" by (rule frame_eqs; simp add: f)+
  have "answerable s ob" using obj(1) fn by (auto simp: answerable_def)
  show ?thesis
  proof (rule calls_inv_I)
    fix x qx assume x: "reqs s' x = Some qx"
    show "request_ok None s' x qx"
    proof (cases "x = ?r")
      case True
      with x q \<open>answerable s ob\<close> show ?thesis
        by (auto simp: request_ok_def holders_def timed out same f)
    next
      case False
      with x have "reqs s x = Some qx" by (simp add: f)
      from calls_inv_D(1) [OF inv this] False show ?thesis
        by (auto simp: request_ok_def holders_def timed out same f)
    qed
  next
    fix x assume "timed s' x \<or> outst s' x"
    then show "reqs s' x \<noteq> None" using calls_inv_D(2) [OF inv, of x] by (auto simp: timed out f)
  next
    show "distinct (map fst (call_timers s'))"
      using calls_inv_D(3) [OF inv] new(1) by (simp add: f timed_def)
  next
    fix x qa1 qa2 cid1 cid2 assume "held_at s' qa1 cid1 x" "held_at s' qa2 cid2 x"
    then show "qa1 = qa2 \<and> cid1 = cid2"
      using calls_inv_D(4) [OF inv] new(2) unfolding held outst_def by blast
  next
    fix ob' obj' assume "objs s' ob' = Some obj'"
    then show "qo_pending_jobs obj' = []" using calls_inv_D(5) [OF inv] by (simp add: f)
  next
    fix qa' assume le: "next_agent s' \<le> qa'"
    then have "agents s qa' = None" using calls_inv_D(6) [OF inv] by (simp add: f)
    with ag show "agents s' qa' = None" by (auto simp: f)
  qed
qed

text \<open>An entry without a request, and the end of an agent.\<close>

lemma empty_entry_inv:
  assumes inv: "calls_ok s" and none: "outstanding_at qa cid s = None"
  shows "calls_ok (upd_agent qa (\<lambda>ag. ag\<lparr>qa_outstanding := AList.update cid None (qa_outstanding ag)\<rparr>) s)"
    (is "calls_ok ?s")
proof -
  have held: "held_at ?s = held_at s"
    using none by (cases "agents s qa")
      (auto simp: fun_eq_iff held_at_def outstanding_at_def upd_agent_def update_conv')
  have same: "timed ?s = timed s" "answerable ?s = answerable s" "answered ?s = answered s"
    by (rule frame_eqs; simp add: upd_agent_def)+
  have out: "outst ?s = outst s" by (simp add: fun_eq_iff outst_def held)
  have f: "next_req ?s = next_req s" "reqs ?s = reqs s" "call_timers ?s = call_timers s" "objs ?s = objs s"
    "next_agent ?s = next_agent s" "\<And>qa. agents s qa = None \<Longrightarrow> agents ?s qa = None"
    by (auto simp: upd_agent_def)
  show ?thesis
    by (rule calls_inv_shrink [OF inv])
      (use calls_inv_D(1,3) [OF inv] in \<open>simp_all add: held f request_ok_def holders_def same out\<close>)
qed

lemma agent_end_inv:
  assumes inv: "calls_ok s"
  shows "calls_ok (s\<lparr>agents := (agents s)(qa := None)\<rparr>)" (is "calls_ok ?s")
proof -
  have held: "held_at ?s qa' cid x \<longleftrightarrow> held_at s qa' cid x \<and> qa' \<noteq> qa" for qa' cid x
    by (simp add: held_at_def outstanding_at_def)
  have out: "outst ?s x \<Longrightarrow> outst s x" for x unfolding outst_def held by blast
  have same: "timed ?s = timed s" "answerable ?s = answerable s" "answered ?s = answered s"
    by (rule frame_eqs; simp)+
  show ?thesis
  proof (rule calls_inv_shrink [OF inv])
    fix x q assume "reqs ?s x = Some q"
    then have "request_ok None s x q" using calls_inv_D(1) [OF inv] by simp
    then show "request_ok None ?s x q"
      using out [of x] by (auto simp: request_ok_def holders_def same split: if_splits)
  qed (use calls_inv_D(3) [OF inv] in \<open>simp_all add: held\<close>)
qed

lemma disconnect_view: "keeps calls_view (object_disconnect ob)"
  unfolding object_disconnect_def
  by (rule keeps_I) (auto simp: obj_get_def upd_obj_def calls_view_def fun_eq_iff bindE_def derefE_def
      map_option_case split: option.splits)

lemma calls_inv_keeps: "keeps calls_view f \<Longrightarrow> calls_inv owed s \<Longrightarrow> f s = Inr s' \<Longrightarrow> calls_inv owed s'"
  using calls_inv_view keeps_D by metis

lemma agent_delete_inv:
  assumes inv: "calls_ok s" and "agent_delete R qa s = Inr s'"
  shows "calls_ok s'"
proof -
  from assms(2) obtain ag :: qmf_agent and s1 s2 where
    s1: "foldE (\<lambda>call s. bindE (derefE NullDeref (snd call)) (\<lambda>r. method_response R r [] RPC_CANCELLED s))
       (sort_key fst (qa_outstanding ag)) s = Inr s1"
    and s2: "foldE object_disconnect (qa_objects ag) s1 = Inr s2" and s': "s2\<lparr>agents := (agents s2)(qa := None)\<rparr> = s'"
    unfolding agent_delete_def bindE_eq_Inr sum.inject by blast
  have "calls_ok s1"
    by (rule foldE_invariant [where P = calls_ok, OF s1 inv]) (auto simp: bindE_eq_Inr derefE_eq_Inr intro: response_inv(1))
  then have "calls_ok s2"
    using calls_inv_keeps [OF keeps_foldE [OF disconnect_view] _ s2] by blast
  then show ?thesis unfolding s' [symmetric] by (rule agent_end_inv)
qed

section \<open>The steps of a session\<close>

text \<open>
  Between these the client works on its own state and on the connection of its objects (\<open>step_client\<close>), and
  registers new objects (\<open>step_object\<close>).
\<close>

datatype qmf_label = L_call | L_event console_type | L_timeout | L_run | L_client

inductive qmf_step for R N V where
  step_call: "method_call_async E ob m args u tmo s = Inr s' \<Longrightarrow> objs s ob = Some obj \<Longrightarrow> qo_connected obj \<Longrightarrow>
    (\<And>qa. qo_qa obj = Some qa \<Longrightarrow> outstanding_at qa (qe_correlator E) s = None) \<Longrightarrow> qmf_step R N V L_call s s'"
| step_event: "mux_process_event E (R e) (N e) (V e) ev s = Inr s' \<Longrightarrow> qmf_step R N V (L_event (ce_type ev)) s s'"
| step_timeout: "(r, t) \<in> set (call_timers s) \<Longrightarrow>
    method_call_tmo (R e) r (s\<lparr>call_timers := remove1 (r, t) (call_timers s)\<rparr>) = Inr s' \<Longrightarrow>
    qmf_step R N V L_timeout s s'"
| step_run: "ob \<in> set (pending_runs s) \<Longrightarrow>
    run_pending_calls E ob (s\<lparr>pending_runs := remove1 ob (pending_runs s)\<rparr>) = Inr s' \<Longrightarrow> qmf_step R N V L_run s s'"
| step_client: "calls_view s' = calls_view s \<Longrightarrow> qmf_step R N V L_client s s'"
| step_object: "objs s ob = None \<Longrightarrow> qo_pending_jobs obj = [] \<Longrightarrow>
    qmf_step R N V L_client s (s\<lparr>objs := (objs s)(ob := Some obj), mux_objects := mux_objects s @ [ob]\<rparr>)"

inductive qmf_reach for R N V L where
  reach_refl: "qmf_reach R N V L s s"
| reach_step: "qmf_reach R N V L s s' \<Longrightarrow> l \<in> L \<Longrightarrow> qmf_step R N V l s' s'' \<Longrightarrow> qmf_reach R N V L s s''"

text \<open>A session before its first call.\<close>

definition qmf_start :: "'c qmf \<Rightarrow> bool" where
  "qmf_start s \<longleftrightarrow> reqs s = (\<lambda>_. None) \<and> call_timers s = [] \<and> agents s = (\<lambda>_. None) \<and> responses s = [] \<and>
     (\<forall>ob obj. objs s ob = Some obj \<longrightarrow> qo_pending_jobs obj = [])"

lemma qmf_start_ok: "qmf_start s \<Longrightarrow> calls_ok s"
  by (auto simp: qmf_start_def calls_inv_def timed_def outst_def held_at_def outstanding_at_def)

lemma new_object_inv:
  assumes "calls_inv owed s" and "objs s ob = None" and "qo_pending_jobs obj = []"
  shows "calls_inv owed (s\<lparr>objs := (objs s)(ob := Some obj), mux_objects := l\<rparr>)" (is "calls_inv _ ?s")
proof -
  have same: "held_at ?s = held_at s" "outst ?s = outst s" "timed ?s = timed s" "answered ?s = answered s"
    by (rule frame_eqs; simp)+
  have "answerable s x \<Longrightarrow> answerable ?s x" for x using assms(2) by (auto simp: answerable_def)
  then have "request_ok owed s r q \<Longrightarrow> request_ok owed ?s r q" for r q
    by (simp add: request_ok_def holders_def same)
  with assms(1,3) show ?thesis unfolding calls_inv_def same by simp
qed

text \<open>
  The handlers a client registers, in whatever circumstances \<open>e\<close> they run: they may change the client's state
  and the connection of objects, but not the calls that are under way.
\<close>

locale qmf_client =
  fixes R :: "'e \<Rightarrow> nat \<Rightarrow> variant_map \<Rightarrow> rpc_result \<Rightarrow> 'c \<Rightarrow> 'c res"
    and N :: "'e \<Rightarrow> obj_ptr \<Rightarrow> 'c qmf \<Rightarrow> 'c qmf res"
    and V :: "'e \<Rightarrow> obj_ptr \<Rightarrow> console_event \<Rightarrow> 'c qmf \<Rightarrow> 'c qmf res"
  assumes N_keeps: "keeps calls_view (N e ob)"
    and V_keeps: "keeps calls_view (V e ob ev)"
begin

lemma connect_view:
  assumes "object_connect E (N e) ob agent s = Inr (b, s')"
  shows "calls_view s' = calls_view s"
proof -
  have "okE (\<lambda>p. calls_view (snd p) = calls_view s) (object_connect E (N e) ob agent s)"
    unfolding object_connect_def Let_def
  proof (rule okE_bind_get, rule okE_if)
    fix obj assume "obj_get s ob = Inr obj"
    then have obj: "objs s ob = Some obj" by (simp add: obj_get_def derefE_eq_Inr)
    let ?s1 = "\<lambda>d. upd_obj ob (\<lambda>x. x\<lparr>qo_connected := True, qo_agent_name := agent, qo_qmf_data := Some d\<rparr>) s"
    let ?s2 = "\<lambda>d. (?s1 d)\<lparr>pending_runs := pending_runs (?s1 d) @ [ob]\<rparr>"
    have v: "calls_view (?s2 d) = calls_view s" for d
      using obj by (auto simp: calls_view_def upd_obj_def fun_eq_iff)
    have "okE (\<lambda>u. calls_view u = calls_view s) (if qo_connection_fn obj then N e ob (?s2 d) else Inr (?s2 d))" for d
      by (intro okE_if keeps_okE [OF N_keeps]) (simp_all add: v)
    then show "okE (\<lambda>p. calls_view (snd p) = calls_view s)
       (bindE (connect_loop obj (qe_query E agent (qo_query obj))) (\<lambda>found. case found of
          None \<Rightarrow> Inr (False, s)
        | Some d \<Rightarrow> bindE (if qo_connection_fn obj then N e ob (?s2 d) else Inr (?s2 d)) (\<lambda>s. Inr (True, s))))"
      by (intro okE_bind_get okE_option) (auto simp: okE_def bindE_eq_Inr)
  qed simp
  with assms show ?thesis by (auto simp: okE_def)
qed

lemma connect_inv: "calls_ok s \<Longrightarrow> object_connect E (N e) ob agent s = Inr (b, s') \<Longrightarrow> calls_ok s'"
  using connect_view calls_inv_view by metis

lemma add_view: "keeps calls_view (agent_add qa ob)"
  unfolding agent_add_def
  by (rule keeps_I, intro okE_bind_get)
    (auto simp: agent_get_def obj_get_def derefE_eq_Inr calls_view_def upd_obj_def upd_agent_def fun_eq_iff)

lemma new_agent_inv:
  assumes inv: "calls_ok s"
  shows "calls_ok (s\<lparr>agents := (agents s)(next_agent s := Some \<lparr>qa_name = name, qa_outstanding = [], qa_objects = []\<rparr>),
     next_agent := Suc (next_agent s), mux_agents := m\<rparr>)" (is "calls_ok ?s")
proof -
  have "agents s (next_agent s) = None" by (rule calls_inv_D(6) [OF inv order_refl])
  then have held: "held_at ?s = held_at s"
    by (auto simp: fun_eq_iff held_at_def outstanding_at_def)
  have same: "timed ?s = timed s" "answerable ?s = answerable s" "answered ?s = answered s"
    by (rule frame_eqs; simp)+
  have "outst ?s = outst s" by (simp add: fun_eq_iff outst_def held)
  then show ?thesis
    using inv by (simp add: calls_inv_def held request_ok_def holders_def same)
qed

lemma offer_inv:
  assumes inv: "calls_ok s" and "mux_offer E (N e) name ob s = Inr s'"
  shows "calls_ok s'"
proof -
  from assms(2) obtain b s1 where s1: "object_connect E (N e) ob name s = Inr (b, s1)"
    and s': "(if \<not> b then Inr s1 else case mux_agent_at name s1 of Some qa \<Rightarrow> agent_add qa ob s1
        | None \<Rightarrow> agent_add (next_agent s1) ob (s1\<lparr>agents := (agents s1)
              (next_agent s1 := Some \<lparr>qa_name = name, qa_outstanding = [], qa_objects = []\<rparr>),
              next_agent := Suc (next_agent s1), mux_agents := qb_map_put name (Some (next_agent s1)) (mux_agents s1)\<rparr>))
        = Inr s'"
    unfolding mux_offer_def bindE_eq_Inr Let_def by auto
  note inv1 = connect_inv [OF inv s1]
  show ?thesis
    using s' inv1 calls_inv_keeps [OF add_view inv1] calls_inv_keeps [OF add_view new_agent_inv [OF inv1]]
    by (auto split: if_splits option.splits)
qed

lemma object_event_view:
  assumes "ce_type ev \<notin> {CONSOLE_METHOD_RESPONSE, CONSOLE_EXCEPTION}"
  shows "keeps calls_view (object_process_event (R e) (V e) ob ev None)"
  using assms unfolding object_process_event_def
  by (intro keeps_I) (auto intro!: okE_bind_get okE_if keeps_okE [OF V_keeps])

lemma agent_event_inv:
  assumes inv: "calls_ok s" and ev: "agent_process_event (R e) (V e) qa ev s = Inr s'"
  shows "calls_ok s'"
proof (cases "ce_type ev = CONSOLE_METHOD_RESPONSE \<or> ce_type ev = CONSOLE_EXCEPTION")
  case True
  show ?thesis
  proof (cases "outstanding_at qa (ce_correlator ev) s")
    case None
    with True ev have "s' = upd_agent qa (\<lambda>ag. ag\<lparr>qa_outstanding :=
        AList.update (ce_correlator ev) None (qa_outstanding ag)\<rparr>) s"
      by (auto simp: agent_process_event_def bindE_eq_Inr)
    with empty_entry_inv [OF inv None] show ?thesis by simp
  next
    case (Some r)
    with True ev obtain q :: request and s1 where "object_process_event (R e) (V e) (qr_obj q) ev (Some r) s = Inr s1"
      and "s' = upd_agent qa (\<lambda>ag. ag\<lparr>qa_outstanding := AList.delete (ce_correlator ev) (qa_outstanding ag)\<rparr>) s1"
      by (auto simp: agent_process_event_def bindE_eq_Inr)
    with reply_inv [OF inv _ True, of qa "ce_correlator ev" r "R e" "V e" "qr_obj q" s1] Some show ?thesis
      by (simp add: held_at_def)
  qed
next
  case False
  with ev obtain ag :: qmf_agent where
    fold: "foldE (\<lambda>ob s. object_process_event (R e) (V e) ob ev None s) (qa_objects ag) s = Inr s'"
    by (auto simp: agent_process_event_def bindE_eq_Inr)
  have "keeps calls_view (foldE (\<lambda>ob s. object_process_event (R e) (V e) ob ev None s) (qa_objects ag))"
    using False object_event_view [of ev] by (intro keeps_foldE) simp
  from calls_inv_keeps [OF this inv fold] show ?thesis .
qed

lemma mux_event_inv:
  assumes inv: "calls_ok s" and "mux_process_event E (R e) (N e) (V e) ev s = Inr s'"
  shows "calls_ok s'"
proof -
  have map: "calls_ok (s\<lparr>mux_agents := m\<rparr>)" for m
  proof -
    have "calls_view (s\<lparr>mux_agents := m\<rparr>) = calls_view s" by (simp add: calls_view_def)
    then show ?thesis using inv calls_inv_view by metis
  qed
  show ?thesis
  proof (cases "ce_type ev = CONSOLE_AGENT_ADD")
    case True
    with assms(2) have "foldE (mux_offer E (N e) (ce_agent ev)) (mux_objects s) s = Inr s'"
      by (simp add: mux_process_event_def)
    then show ?thesis using inv by (rule foldE_invariant) (rule offer_inv)
  next
    case False
    with assms(2) show ?thesis
      using map agent_delete_inv [OF map] agent_event_inv [OF inv]
      by (auto simp: mux_process_event_def Let_def split: if_splits option.splits)
  qed
qed

lemma step_inv:
  assumes "qmf_step R N V l s s'" and "calls_ok s"
  shows "calls_ok s'"
  using assms
proof cases
  case (step_call E ob m args u tmo obj)
  with call_inv [OF assms(2)] show ?thesis by metis
next
  case (step_event E e ev)
  with mux_event_inv [OF assms(2)] show ?thesis by blast
next
  case (step_timeout r t e)
  with tmo_inv [OF assms(2)] show ?thesis by blast
next
  case (step_run ob E)
  then have "s' = s\<lparr>pending_runs := remove1 ob (pending_runs s)\<rparr>"
    using calls_inv_D(5) [OF assms(2)]
    by (auto simp: run_pending_calls_def obj_get_def bindE_eq_Inr derefE_eq_Inr)
  then have "calls_view s' = calls_view s" by (simp add: calls_view_def)
  with assms(2) show ?thesis using calls_inv_view by metis
next
  case step_client
  with assms(2) show ?thesis using calls_inv_view by metis
next
  case (step_object ob obj)
  with new_object_inv [OF assms(2)] show ?thesis by simp
qed

lemma reach_inv:
  assumes "qmf_reach R N V L s s'" and "calls_ok s"
  shows "calls_ok s'"
  using assms by (induction rule: qmf_reach.induct) (auto intro: step_inv)

end

end
