(* ===== verification/Qmf_Answers.thy ===== *)
theory Qmf_Answers
  imports Qmf_Calls
begin

text \<open>
  When a call is answered. Without exceptions and without agents that disappear, every request is
  answered at most once; in every reachable state a request that is not answered yet has a time-out, and
  the time-out answers it. Then the ways in which the code leaves this path.
\<close>

section \<open>At most one answer\<close>

definition once :: "'c qmf \<Rightarrow> bool" where
  "once s \<longleftrightarrow> distinct (map fst (responses s)) \<and>
     (\<forall>r q. reqs s r = Some q \<and> qr_state q \<noteq> JOB_COMPLETED \<longrightarrow> \<not> answered s r) \<and>
     (\<forall>r. answered s r \<longrightarrow> r < next_req s)"

definition once_view where
  "once_view s = (reqs s, responses s, next_req s)"

lemma once_view_calls: "calls_view s' = calls_view s \<Longrightarrow> once_view s' = once_view s"
  by (simp add: once_view_def calls_view_def)

lemma once_cong: "once_view s' = once_view s \<Longrightarrow> once s' = once s"
  by (simp add: once_view_def once_def answered_def)

lemma keeps_once_view: "keeps calls_view f \<Longrightarrow> keeps once_view f"
  unfolding keeps_def okE_def using once_view_calls by blast

lemma response_once:
  assumes once: "once s" and inv: "calls_inv owed s" and q: "reqs s r = Some q" "qr_state q \<noteq> JOB_COMPLETED"
    and "method_response R r args rc s = Inr s'"
  shows "once s'"
proof -
  obtain c where s': "s' = s\<lparr>reqs := (reqs s)(r := Some (q\<lparr>qr_state := JOB_COMPLETED\<rparr>)), client := c,
               responses := responses s @ [(r, rc)]\<rparr>"
    using assms(5) q(1) by (elim method_responseE) simp
  have f: "reqs s' = (reqs s)(r := Some (q\<lparr>qr_state := JOB_COMPLETED\<rparr>))" "next_req s' = next_req s"
    "responses s' = responses s @ [(r, rc)]" by (simp_all add: s')
  have "r < next_req s" using calls_inv_D(1) [OF inv q(1)] by (simp add: request_ok_def)
  moreover have "\<not> answered s r" using once q by (auto simp: once_def)
  ultimately show ?thesis
    using once unfolding once_def answered_def f by (auto split: if_splits)
qed

lemma unref_once:
  assumes "once s" and "request_unref r s = Inr s'"
  shows "once s'"
proof (cases "reqs s r")
  case None
  with assms show ?thesis by (simp add: request_unref_def req_get_def)
next
  case (Some q)
  from unref_effect [OF this] assms(2) have
    s': "s' = s\<lparr>reqs := (reqs s)(r := if qr_ref_count q = 1 then None
      else Some (q\<lparr>qr_ref_count := qr_ref_count q - 1\<rparr>))\<rparr>" by simp
  have f: "reqs s' = (reqs s)(r := if qr_ref_count q = 1 then None else Some (q\<lparr>qr_ref_count := qr_ref_count q - 1\<rparr>))"
    "next_req s' = next_req s" "responses s' = responses s" by (simp_all add: s')
  with assms(1) Some show ?thesis unfolding once_def answered_def f by (auto split: if_splits)
qed

lemma tmo_once:
  assumes once: "once s" and inv: "calls_inv owed s" and "method_call_tmo R r s = Inr s'"
  shows "once s'"
proof -
  from assms(3) obtain q :: request and s1 where q: "reqs s r = Some q" and s1: "(if qr_state q = JOB_COMPLETED then Inr s
      else if qr_state q = JOB_SCHEDULED then method_response R r [] RPC_NOT_CONNECTED s
      else method_response R r [] RPC_TIMEOUT s) = Inr s1" and unref: "request_unref r s1 = Inr s'"
    unfolding method_call_tmo_def req_get_def bindE_eq_Inr derefE_eq_Inr by blast
  have "once s1"
    using s1 once response_once [OF once inv q] by (auto split: if_splits)
  then show ?thesis using unref by (rule unref_once)
qed

lemma reply_once:
  assumes once: "once s" and inv: "calls_inv owed s" and ev: "ce_type ev = CONSOLE_METHOD_RESPONSE"
    and "object_process_event R V ob ev (Some r) s = Inr s'"
  shows "once s'"
proof -
  from assms(4) ev obtain q :: request and s1 where q: "reqs s r = Some q"
    and s1: "(if qr_state q = JOB_RUNNING then method_response R r (ce_arguments ev) RPC_OK s else Inr s) = Inr s1"
    and unref: "request_unref r s1 = Inr s'"
    unfolding object_process_event_def bindE_eq_Inr by (auto simp: bindE_eq_Inr req_get_def derefE_eq_Inr)
  have "once s1"
    using s1 once response_once [OF once inv q, of R "ce_arguments ev" RPC_OK s1] by (auto split: if_splits)
  then show ?thesis using unref by (rule unref_once)
qed

lemma call_once:
  assumes once: "once s" and inv: "calls_ok s" and "method_call_async E ob m args u tmo s = Inr s'"
    and obj: "objs s ob = Some obj" "qo_connected obj"
  shows "once s'"
proof -
  obtain qa data ag where s': "s' = called E qa ag data ob m args u tmo s"
    using assms(3) unfolding call_effect [OF obj] by (elim conjE exE)
  have f: "reqs s' = (reqs s)(next_req s := Some (call_request ob m args u tmo (call_inputs E ag data m)))"
    "next_req s' = Suc (next_req s)" "responses s' = responses s" by (simp_all add: s' called_def)
  show ?thesis using once unfolding once_def answered_def f
    by (auto simp: less_Suc_eq split: if_splits)
qed

context qmf_client
begin

lemma offer_once: "keeps once_view (mux_offer E (N e) name ob)"
proof (rule keeps_I, rule okE_I)
  fix s s' assume "mux_offer E (N e) name ob s = Inr s'"
  then obtain b s1 where s1: "object_connect E (N e) ob name s = Inr (b, s1)"
    and s': "(if \<not> b then Inr s1 else case mux_agent_at name s1 of Some qa \<Rightarrow> agent_add qa ob s1
        | None \<Rightarrow> agent_add (next_agent s1) ob (s1\<lparr>agents := (agents s1)
              (next_agent s1 := Some \<lparr>qa_name = name, qa_outstanding = [], qa_objects = []\<rparr>),
              next_agent := Suc (next_agent s1), mux_agents := qb_map_put name (Some (next_agent s1)) (mux_agents s1)\<rparr>))
        = Inr s'"
    unfolding mux_offer_def bindE_eq_Inr Let_def by auto
  have "once_view s1 = once_view s" by (rule once_view_calls [OF connect_view [OF s1]])
  with s' keeps_D [OF keeps_once_view [OF add_view]] show "once_view s' = once_view s"
    by (fastforce simp: once_view_def split: if_splits option.splits)
qed

lemma agent_event_once:
  assumes once: "once s" and inv: "calls_ok s" and ev: "agent_process_event (R e) (V e) qa ev s = Inr s'"
    and ty: "ce_type ev \<noteq> CONSOLE_EXCEPTION"
  shows "once s'"
proof (cases "ce_type ev = CONSOLE_METHOD_RESPONSE")
  case True
  have upd: "once (upd_agent qa f u) = once u" for f and u :: "'c qmf"
    by (rule once_cong) (simp add: once_view_def upd_agent_def)
  show ?thesis
  proof (cases "outstanding_at qa (ce_correlator ev) s")
    case None
    with True ev once show ?thesis
      by (auto simp: agent_process_event_def bindE_eq_Inr upd)
  next
    case (Some r)
    with True ev obtain q :: request and s1 where "object_process_event (R e) (V e) (qr_obj q) ev (Some r) s = Inr s1"
      and "s' = upd_agent qa (\<lambda>ag. ag\<lparr>qa_outstanding := AList.delete (ce_correlator ev) (qa_outstanding ag)\<rparr>) s1"
      by (auto simp: agent_process_event_def bindE_eq_Inr)
    with reply_once [OF once inv True] upd show ?thesis by simp
  qed
next
  case False
  with ev ty obtain ag :: qmf_agent where
    fold: "foldE (\<lambda>ob s. object_process_event (R e) (V e) ob ev None s) (qa_objects ag) s = Inr s'"
    by (auto simp: agent_process_event_def bindE_eq_Inr)
  have "keeps calls_view (foldE (\<lambda>ob s. object_process_event (R e) (V e) ob ev None s) (qa_objects ag))"
    using False ty object_event_view [of ev] by (intro keeps_foldE) simp
  from keeps_D [OF keeps_once_view [OF this] fold] once show ?thesis using once_cong by blast
qed

lemma step_once:
  assumes "qmf_step R N V l s s'" and inv: "calls_ok s" and once: "once s"
    and l: "l \<noteq> L_event CONSOLE_EXCEPTION" "l \<noteq> L_event CONSOLE_AGENT_DEL"
  shows "once s'"
  using assms(1)
proof cases
  case (step_call E ob m args u tmo obj)
  with call_once [OF once inv] show ?thesis by blast
next
  case (step_event E e ev)
  show ?thesis
  proof (cases "ce_type ev = CONSOLE_AGENT_ADD")
    case True
    with step_event have "foldE (mux_offer E (N e) (ce_agent ev)) (mux_objects s) s = Inr s'"
      by (simp add: mux_process_event_def)
    from keeps_D [OF keeps_foldE [OF offer_once] this] once show ?thesis using once_cong by blast
  next
    case False
    have "once (s\<lparr>mux_agents := m\<rparr>)" for m
      using once once_cong [of "s\<lparr>mux_agents := m\<rparr>" s] by (simp add: once_view_def)
    with False step_event l agent_event_once [OF once inv] show ?thesis
      by (auto simp: mux_process_event_def split: if_splits option.splits)
  qed
next
  case (step_timeout r t e)
  have "once (s\<lparr>call_timers := remove1 (r, t) (call_timers s)\<rparr>)"
    using once once_cong [of "s\<lparr>call_timers := remove1 (r, t) (call_timers s)\<rparr>" s] by (simp add: once_view_def)
  with tmo_once [OF _ timer_gone_inv [OF inv]] step_timeout show ?thesis by blast
next
  case (step_run ob E)
  then have "s' = s\<lparr>pending_runs := remove1 ob (pending_runs s)\<rparr>"
    using calls_inv_D(5) [OF inv]
    by (auto simp: run_pending_calls_def obj_get_def bindE_eq_Inr derefE_eq_Inr)
  then have "once_view s' = once_view s" by (simp add: once_view_def)
  with once show ?thesis using once_cong by blast
next
  case step_client
  with once show ?thesis using once_cong [OF once_view_calls] by blast
next
  case (step_object ob obj)
  then have "once_view s' = once_view s" by (simp add: once_view_def)
  with once show ?thesis using once_cong by blast
qed

lemma reach_once:
  assumes "qmf_reach R N V L s s'" and "calls_ok s" and "once s"
    and "L \<inter> {L_event CONSOLE_EXCEPTION, L_event CONSOLE_AGENT_DEL} = {}"
  shows "once s'"
  using assms
proof (induction rule: qmf_reach.induct)
  case (reach_step s s' l s'')
  then have "calls_ok s'" using reach_inv by blast
  moreover have "l \<noteq> L_event CONSOLE_EXCEPTION" "l \<noteq> L_event CONSOLE_AGENT_DEL"
    using reach_step.hyps(2) reach_step.prems(3) by blast+
  ultimately show ?case using step_once reach_step by blast
qed

section \<open>Every call gets an answer\<close>

lemma timeout_answers:
  assumes inv: "calls_ok s" and q: "reqs s r = Some q" and open_call: "\<not> answered s r"
    and R: "R e (qr_user_data q) [] RPC_TIMEOUT (client s) = Inr c"
  shows "\<exists>s'. qmf_step R N V L_timeout s s' \<and> (r, RPC_TIMEOUT) \<in> set (responses s')"
proof -
  have ok: "request_ok None s r q" by (rule calls_inv_D(1) [OF inv q])
  with open_call have run: "qr_state q = JOB_RUNNING" and "timed s r" and "answerable s (qr_obj q)"
    by (auto simp: request_ok_def)
  then obtain t obj where t: "(r, t) \<in> set (call_timers s)" and obj: "objs s (qr_obj q) = Some obj" "qo_response_fn obj"
    by (auto simp: timed_def answerable_def)
  let ?s = "s\<lparr>call_timers := remove1 (r, t) (call_timers s)\<rparr>"
  let ?q = "q\<lparr>qr_state := JOB_COMPLETED\<rparr>"
  let ?s1 = "?s\<lparr>reqs := (reqs s)(r := Some ?q), client := c, responses := responses s @ [(r, RPC_TIMEOUT)]\<rparr>"
  have "method_response (R e) r [] RPC_TIMEOUT ?s = Inr ?s1"
    using q obj R by (simp add: method_response_def req_get_def obj_get_def upd_req_def)
  moreover have r1: "reqs ?s1 r = Some ?q" by simp
  ultimately have "method_call_tmo (R e) r ?s = Inr (?s1\<lparr>reqs := (reqs ?s1)(r := if qr_ref_count ?q = 1 then None
      else Some (?q\<lparr>qr_ref_count := qr_ref_count ?q - 1\<rparr>))\<rparr>)" (is "_ = Inr ?s2")
    using q run unref_effect [OF r1] by (simp add: method_call_tmo_def req_get_def)
  from step_timeout [where R = R and e = e, OF t this] have "qmf_step R N V L_timeout s ?s2" .
  moreover have "(r, RPC_TIMEOUT) \<in> set (responses ?s2)" by simp
  ultimately show ?thesis by blast
qed

end

lemma qmf_start_once: "qmf_start s \<Longrightarrow> once s"
  by (simp add: qmf_start_def once_def answered_def)

section \<open>Off the path\<close>

text \<open>An exception answers a request again that its time-out has answered before.\<close>

lemma exception_again:
  assumes "reqs s r = Some q" and "answerable s (qr_obj q)" and "ce_type ev = CONSOLE_EXCEPTION"
    and "exception_args ev = Inr args" and "R (qr_user_data q) args RPC_EXCEPTION (client s) = Inr c"
  shows "\<exists>s'. object_process_event R V (qr_obj q) ev (Some r) s = Inr s' \<and>
     responses s' = responses s @ [(r, RPC_EXCEPTION)]"
proof -
  obtain obj where obj: "objs s (qr_obj q) = Some obj" "qo_response_fn obj"
    using assms(2) by (auto simp: answerable_def)
  let ?q = "q\<lparr>qr_state := JOB_COMPLETED\<rparr>"
  let ?s1 = "s\<lparr>reqs := (reqs s)(r := Some ?q), client := c, responses := responses s @ [(r, RPC_EXCEPTION)]\<rparr>"
  have "method_response R r args RPC_EXCEPTION s = Inr ?s1"
    using assms(1,5) obj by (simp add: method_response_def req_get_def obj_get_def upd_req_def)
  moreover have "reqs ?s1 r = Some ?q" by simp
  ultimately show ?thesis
    using assms(3,4) obj unref_effect [of ?s1 r ?q] by (simp add: object_process_event_def obj_get_def)
qed

text \<open>The pending calls of an object are never taken off its list.\<close>

lemma call_start_pending: "keeps (\<lambda>s. map_option qo_pending_jobs (objs s ob')) (call_start E ob r)"
  unfolding call_start_def call_method_async_def request_ref_def
  by (rule keeps_I, intro okE_bind_get) (auto simp: Let_def agent_get_def upd_req_def upd_agent_def bindE_eq_Inr)

lemma call_start_dead: "reqs s r = None \<Longrightarrow> \<exists>e. call_start E ob r s = Inl e"
  by (cases "objs s ob") (auto simp: call_start_def obj_get_def req_get_def)

lemma call_start_frame: "call_start E ob r s = Inr s' \<Longrightarrow> x \<noteq> r \<Longrightarrow> reqs s' x = reqs s x"
  unfolding call_start_def call_method_async_def request_ref_def
  by (auto simp: bindE_eq_Inr Let_def upd_req_def upd_agent_def)

lemma foldE_dead:
  assumes "r \<in> set rs" and "reqs s r = None"
  shows "\<exists>e. foldE (call_start E ob) rs s = Inl e"
  using assms
proof (induction rs arbitrary: s)
  case (Cons x rs)
  show ?case
  proof (cases "call_start E ob x s")
    case (Inr s1)
    with Cons.prems call_start_dead [of s r E ob] have "x \<noteq> r" by auto
    with Cons Inr call_start_frame [OF Inr] show ?thesis by auto
  qed simp
qed simp

end
