(* ===== verification/Qmf_Waiting.thy ===== *)
theory Qmf_Waiting
  imports Qmf_Answers
begin

text \<open>
  Calls on an object that is not connected: they are queued with the object. Whatever happens in the session,
  such a call stays where it is until the object is connected: no time-out was armed for it and no agent
  knows of it. The steps here are wider than those of \<^verbatim>\<open>Qmf_Calls\<close>: every call is allowed, also on objects
  that are not connected and with a correlator that is in use.
\<close>

section \<open>A dormant request\<close>

text \<open>The pending calls of an object, and the requests an agent was sent.\<close>

definition jobs_of :: "'c qmf \<Rightarrow> obj_ptr \<Rightarrow> req_ptr set" where
  "jobs_of s ob = (case objs s ob of None \<Rightarrow> {} | Some obj \<Rightarrow> set (qo_pending_jobs obj))"

definition sent_to :: "'c qmf \<Rightarrow> agent_ptr \<Rightarrow> req_ptr option set" where
  "sent_to s qa = (case agents s qa of None \<Rightarrow> {} | Some ag \<Rightarrow> snd ` set (qa_outstanding ag))"

text \<open>
  A number that nothing refers to but the pending calls of the objects \<open>J\<close>: it was not sent, has no time-out
  and no answer. Where \<open>J\<close> is empty and there is no such request, the number is still free.
\<close>

definition dormant :: "obj_ptr set \<Rightarrow> (request option \<Rightarrow> bool) \<Rightarrow> req_ptr \<Rightarrow> req_ptr \<Rightarrow> 'c qmf \<Rightarrow> bool" where
  "dormant J Q n r s \<longleftrightarrow> Q (reqs s r) \<and> next_req s = n \<and> (\<forall>ob. r \<in> jobs_of s ob \<longleftrightarrow> ob \<in> J) \<and>
     (\<forall>qa. Some r \<notin> sent_to s qa) \<and> \<not> timed s r \<and> \<not> answered s r"

definition unconnected :: "'c qmf \<Rightarrow> obj_ptr \<Rightarrow> bool" where
  "unconnected s ob \<longleftrightarrow> (\<exists>obj. objs s ob = Some obj \<and> \<not> qo_connected obj \<and> qo_qa obj = None)"

text \<open>A step that leaves this request alone and gives it no new holder.\<close>

lemma dormant_frame:
  assumes "dormant J Q n r s" and "reqs s' r = reqs s r" and "next_req s' = next_req s"
    and "\<And>ob. r \<in> jobs_of s' ob \<longleftrightarrow> r \<in> jobs_of s ob"
    and "\<And>qa. Some r \<in> sent_to s' qa \<Longrightarrow> Some r \<in> sent_to s qa"
    and "timed s' r \<Longrightarrow> timed s r" and "answered s' r \<Longrightarrow> answered s r"
  shows "dormant J Q n r s'"
  using assms unfolding dormant_def by auto

lemma dormant_sent:
  assumes "dormant J Q n r s" and "agents s qa = Some ag"
  shows "Some r \<notin> snd ` set (qa_outstanding ag)"
proof -
  have "Some r \<notin> sent_to s qa" using assms(1) by (simp add: dormant_def)
  then show ?thesis using assms(2) by (simp add: sent_to_def)
qed

lemma dormant_jobs:
  assumes "dormant J Q n r s" and "objs s ob = Some obj"
  shows "r \<in> set (qo_pending_jobs obj) \<longleftrightarrow> ob \<in> J"
proof -
  have "r \<in> jobs_of s ob \<longleftrightarrow> ob \<in> J" using assms(1) by (simp add: dormant_def)
  then show ?thesis using assms(2) by (simp add: jobs_of_def)
qed

lemma dormant_view:
  assumes "calls_view s' = calls_view s" and "dormant J Q n r s"
  shows "dormant J Q n r s'"
proof (rule dormant_frame [OF assms(2)])
  note D = calls_view_D [OF assms(1)]
  show "reqs s' r = reqs s r" "next_req s' = next_req s" using D by simp_all
  show "timed s' r \<Longrightarrow> timed s r" "answered s' r \<Longrightarrow> answered s r" using D by (simp_all add: timed_def answered_def)
  show "r \<in> jobs_of s' ob' \<longleftrightarrow> r \<in> jobs_of s ob'" for ob'
    using D(7) [of ob'] by (auto simp: jobs_of_def split: option.splits)
  show "Some r \<in> sent_to s' qa \<Longrightarrow> Some r \<in> sent_to s qa" for qa
    using D(6) [of qa] by (cases "agents s qa"; cases "agents s' qa") (simp_all add: sent_to_def)
qed

lemma dormant_keeps: "keeps calls_view f \<Longrightarrow> dormant J Q n r s \<Longrightarrow> okE (dormant J Q n r) (f s)"
  by (rule okE_I) (metis keeps_D dormant_view)

section \<open>What happens to other requests\<close>

lemma dormant_response:
  assumes "dormant J Q n r s" and "x \<noteq> r"
  shows "okE (dormant J Q n r) (method_response R x args rc s)"
proof (rule okE_I)
  fix s' assume "method_response R x args rc s = Inr s'"
  then show "dormant J Q n r s'"
    by (rule method_responseE)
      (use assms in \<open>auto intro!: dormant_frame [OF assms(1)] simp: jobs_of_def sent_to_def timed_def answered_def\<close>)
qed

lemma dormant_unref:
  assumes "dormant J Q n r s" and "x \<noteq> r"
  shows "okE (dormant J Q n r) (request_unref x s)"
proof (cases "reqs s x")
  case None
  then show ?thesis by (simp add: request_unref_def req_get_def)
next
  case (Some q)
  from unref_effect [OF this] assms show ?thesis
    by (auto intro!: dormant_frame [OF assms(1)] simp: jobs_of_def sent_to_def timed_def answered_def)
qed

lemma update_snd: "w \<in> snd ` set (AList.update k v al) \<Longrightarrow> w \<noteq> v \<Longrightarrow> w \<in> snd ` set al"
  by (induction al) (auto split: if_splits)

lemma delete_snd: "w \<in> snd ` set (AList.delete k al) \<Longrightarrow> w \<in> snd ` set al"
  by (auto simp: AList.delete_eq)

lemma dormant_agent:
  assumes "dormant J Q n r s" and "\<And>ag. Some r \<in> snd ` set (qa_outstanding (f ag)) \<Longrightarrow> Some r \<in> snd ` set (qa_outstanding ag)"
  shows "dormant J Q n r (upd_agent qa f s)"
proof (rule dormant_frame [OF assms(1)])
  show "Some r \<in> sent_to (upd_agent qa f s) qa' \<Longrightarrow> Some r \<in> sent_to s qa'" for qa'
    using assms(2) by (cases "agents s qa'"; cases "qa' = qa") (simp_all add: sent_to_def upd_agent_def)
qed (simp_all add: upd_agent_def jobs_of_def timed_def answered_def)

lemma dormant_req: "dormant J Q n r s \<Longrightarrow> x \<noteq> r \<Longrightarrow> dormant J Q n r (upd_req x f s)"
  by (erule dormant_frame) (simp_all add: upd_req_def jobs_of_def sent_to_def timed_def answered_def)

lemma dormant_ref: "dormant J Q n r s \<Longrightarrow> x \<noteq> r \<Longrightarrow> okE (dormant J Q n r) (request_ref x s)"
  unfolding request_ref_def by (intro okE_bind_get) (simp add: dormant_req)

lemma dormant_fields:
  "dormant J Q n r s \<Longrightarrow> dormant J Q n r (s\<lparr>sent_calls := c\<rparr>)"
  "dormant J Q n r s \<Longrightarrow> dormant J Q n r (s\<lparr>pending_runs := p\<rparr>)"
  "dormant J Q n r s \<Longrightarrow> dormant J Q n r (s\<lparr>mux_agents := m\<rparr>)"
  "dormant J Q n r s \<Longrightarrow> \<not> timed (s\<lparr>call_timers := ts\<rparr>) r \<Longrightarrow> dormant J Q n r (s\<lparr>call_timers := ts\<rparr>)"
  by (simp_all add: dormant_def jobs_of_def sent_to_def timed_def answered_def)

lemma dormant_send:
  assumes "dormant J Q n r s" and "x \<noteq> r"
  shows "okE (dormant J Q n r) (call_method_async E qa x data s)"
  unfolding call_method_async_def Let_def
proof (intro okE_bind_get okE_Inr_I dormant_agent dormant_fields dormant_req assms)
  fix ag :: qmf_agent
  assume "Some r \<in> snd ` set (qa_outstanding (ag\<lparr>qa_outstanding := AList.update (qe_correlator E) (Some x) (qa_outstanding ag)\<rparr>))"
  then show "Some r \<in> snd ` set (qa_outstanding ag)"
    using assms(2) update_snd [of "Some r" "qe_correlator E" "Some x" "qa_outstanding ag"] by simp
qed

lemma dormant_start:
  assumes "dormant J Q n r s" and "x \<noteq> r"
  shows "okE (dormant J Q n r) (call_start E ob' x s)"
  unfolding call_start_def
proof (intro okE_bind_get okE_Inr_I)
  fix obj q qa data s1 s2
  assume s1: "call_method_async E qa x data s = Inr s1"
    and s2: "request_ref x (upd_req x (\<lambda>q. q\<lparr>qr_state := JOB_RUNNING\<rparr>) s1) = Inr s2"
  have "dormant J Q n r s1" by (rule okE_D [OF dormant_send [OF assms] s1])
  then have "dormant J Q n r s2" by (rule okE_D [OF dormant_ref [OF dormant_req [OF _ assms(2)] assms(2)] s2])
  then show "dormant J Q n r (s2\<lparr>call_timers := call_timers s2 @ [(x, unat (qr_timeout q) * QMF_NS_IN_MSEC)]\<rparr>)"
    by (rule dormant_fields) (use \<open>dormant J Q n r s2\<close> assms(2) in \<open>simp add: dormant_def timed_def\<close>)
qed

text \<open>
  Running the pending calls of an object that is not connected, as a job left over from a lost connection does,
  dereferences NULL.
\<close>

lemma unconnected_run:
  assumes "unconnected s ob" and "r \<in> jobs_of s ob"
  shows "\<exists>e. run_pending_calls E ob s = Inl e"
proof -
  obtain obj where obj: "objs s ob = Some obj" "qo_qa obj = None" using assms(1) by (auto simp: unconnected_def)
  with assms(2) obtain x xs where "qo_pending_jobs obj = x # xs"
    by (cases "qo_pending_jobs obj") (simp_all add: jobs_of_def)
  with obj show ?thesis
    by (cases "reqs s x") (simp_all add: run_pending_calls_def call_start_def obj_get_def req_get_def)
qed

lemma dormant_run:
  assumes dorm: "dormant J Q n r s" and un: "\<And>ob. ob \<in> J \<Longrightarrow> unconnected s ob"
  shows "okE (dormant J Q n r) (run_pending_calls E ob s)"
proof (cases "ob \<in> J")
  case True
  then have "r \<in> jobs_of s ob" using dorm by (simp add: dormant_def)
  with un [OF True] have "\<exists>e. run_pending_calls E ob s = Inl e" by (rule unconnected_run)
  then show ?thesis by auto
next
  case False
  show ?thesis unfolding run_pending_calls_def
  proof (intro okE_bind_get okE_foldE [where P = "dormant J Q n r"] dorm)
    fix obj x u assume "obj_get s ob = Inr obj" "x \<in> set (qo_pending_jobs obj)" and u: "dormant J Q n r u"
    with dormant_jobs [OF dorm, of ob obj] False have "x \<noteq> r" by (auto simp: obj_get_def derefE_eq_Inr)
    with u show "okE (dormant J Q n r) (call_start E ob x u)" by (simp add: dormant_start)
  qed
qed

text \<open>A call takes the next number.\<close>

lemma dormant_new_req:
  assumes "dormant J Q n r s" and "r \<noteq> next_req s"
  shows "dormant J Q (Suc n) r (s\<lparr>reqs := (reqs s)(next_req s := Some q), next_req := Suc (next_req s)\<rparr>)"
  using assms by (simp add: dormant_def jobs_of_def sent_to_def timed_def answered_def)

lemma dormant_queue:
  assumes "dormant J Q n r s" and "x \<noteq> r"
  shows "dormant J Q n r (upd_obj ob' (\<lambda>o'. o'\<lparr>qo_pending_jobs := qo_pending_jobs o' @ [x]\<rparr>) s)"
proof (rule dormant_frame [OF assms(1)])
  show "r \<in> jobs_of (upd_obj ob' (\<lambda>o'. o'\<lparr>qo_pending_jobs := qo_pending_jobs o' @ [x]\<rparr>) s) ob'' \<longleftrightarrow> r \<in> jobs_of s ob''" for ob''
    using assms(2) by (cases "objs s ob''"; cases "ob'' = ob'") (simp_all add: jobs_of_def upd_obj_def)
qed (simp_all add: upd_obj_def sent_to_def timed_def answered_def)

lemma dormant_call:
  assumes "dormant J Q n r s" and "r \<noteq> n"
  shows "okE (dormant J Q (Suc n) r) (method_call_async E ob m args u tmo s)"
proof -
  have r: "r \<noteq> next_req s" using assms by (auto simp: dormant_def)
  then show ?thesis
    unfolding method_call_async_def Let_def
    by (intro okE_bind_get okE_if okE_Inl okE_Inr_I dormant_start dormant_queue dormant_req dormant_new_req assms) simp_all
qed

lemma call_next_req: "method_call_async E ob m args u tmo s = Inr s' \<Longrightarrow> next_req s' = Suc (next_req s)"
  unfolding method_call_async_def call_start_def call_method_async_def request_ref_def Let_def
  by (auto simp: bindE_eq_Inr upd_req_def upd_agent_def upd_obj_def split: if_splits)

lemma dormant_called:
  assumes "dormant J Q n r s" and "method_call_async E ob m args u tmo s = Inr s'"
  shows "next_req s' = Suc n \<and> (r \<noteq> n \<longrightarrow> dormant J Q (Suc n) r s')"
proof -
  have "next_req s = n" using assms(1) by (simp add: dormant_def)
  then show ?thesis using call_next_req [OF assms(2)] okE_D [OF dormant_call [OF assms(1)] assms(2)] by blast
qed

text \<open>The call that begins to wait: before, its number was free.\<close>

definition waiting :: "obj_ptr \<Rightarrow> req_ptr \<Rightarrow> 'c qmf \<Rightarrow> bool" where
  "waiting ob r s \<longleftrightarrow>
     dormant {ob} (\<lambda>p. \<exists>q. p = Some q \<and> qr_state q = JOB_SCHEDULED \<and> qr_obj q = ob) (next_req s) r s \<and> r < next_req s"

definition unborn :: "req_ptr \<Rightarrow> 'c qmf \<Rightarrow> bool" where
  "unborn r s \<longleftrightarrow> dormant {} (\<lambda>p. p = None) (next_req s) r s \<and> next_req s \<le> r"

lemma waiting_begins:
  assumes "method_call_async E ob m args u tmo s = Inr s'" and "unconnected s ob" and "unborn (next_req s) s"
  shows "waiting ob (next_req s) s'"
proof -
  let ?r = "next_req s"
  obtain obj where obj: "objs s ob = Some obj" "\<not> qo_connected obj" using assms(2) by (auto simp: unconnected_def)
  with assms(1) have s': "s' = upd_obj ob (\<lambda>x. x\<lparr>qo_pending_jobs := qo_pending_jobs x @ [?r]\<rparr>)
      (s\<lparr>next_req := Suc ?r, reqs := (reqs s)(?r := Some \<lparr>qr_ref_count = 1, qr_state = JOB_SCHEDULED, qr_obj = ob,
         qr_args = args, qr_method = m, qr_user_data = u, qr_timeout = tmo\<rparr>)\<rparr>)"
    by (simp add: method_call_async_def obj_get_def Let_def upd_req_def split: if_splits)
  have "?r \<in> jobs_of s' ob' \<longleftrightarrow> ob' = ob" for ob'
    using obj assms(3) by (cases "ob' = ob") (auto simp: s' upd_obj_def jobs_of_def unborn_def dormant_def)
  with assms(3) show ?thesis
    by (simp add: s' waiting_def dormant_def unborn_def upd_obj_def sent_to_def timed_def answered_def)
qed

section \<open>When the object is connected\<close>

lemma foldE_reaches:
  assumes "foldE f xs s = Inr s'" and "r \<in> set xs"
    and step: "\<And>x u u'. f x u = Inr u' \<Longrightarrow> x = r \<or> P u \<Longrightarrow> P u'"
  shows "P s'"
  using assms(1,2)
proof (induction xs arbitrary: s)
  case (Cons x xs)
  from Cons.prems(1) obtain u where u: "f x s = Inr u" "foldE f xs u = Inr s'" by (auto simp: bindE_eq_Inr)
  show ?case
  proof (cases "r \<in> set xs")
    case False
    with Cons.prems(2) have "P u" using step [OF u(1)] by simp
    with u(2) show ?thesis by (rule foldE_invariant) (use step in blast)
  qed (use Cons.IH u in blast)
qed simp

definition running :: "req_ptr \<Rightarrow> 'c qmf \<Rightarrow> bool" where
  "running r s \<longleftrightarrow> timed s r \<and> (\<exists>q. reqs s r = Some q \<and> qr_state q = JOB_RUNNING)"

lemma start_running:
  assumes "call_start E ob x s = Inr s'" and "x = r \<or> running r s"
  shows "running r s'"
proof (cases "x = r")
  case True
  have "okE (running x) (call_start E ob x s)"
    unfolding call_start_def call_method_async_def request_ref_def Let_def
    by (intro okE_bind_get) (auto simp: running_def timed_def req_get_def upd_req_def upd_agent_def bindE_eq_Inr derefE_eq_Inr)
  with True okE_D [OF this assms(1)] show ?thesis by simp
next
  case False
  have "okE (\<lambda>u. timed s r \<longrightarrow> timed u r) (call_start E ob x s)"
    unfolding call_start_def call_method_async_def request_ref_def Let_def
    by (intro okE_bind_get) (auto simp: timed_def req_get_def upd_req_def upd_agent_def bindE_eq_Inr derefE_eq_Inr)
  with False assms call_start_frame [OF assms(1)] show ?thesis by (auto simp: running_def okE_def)
qed

lemma waiting_runs:
  assumes "waiting ob r s" and "run_pending_calls E ob s = Inr s'"
  shows "running r s'"
proof -
  obtain obj where obj: "objs s ob = Some obj" "foldE (call_start E ob) (qo_pending_jobs obj) s = Inr s'"
    using assms(2) by (auto simp: run_pending_calls_def obj_get_def bindE_eq_Inr derefE_eq_Inr)
  from assms(1) have "r \<in> set (qo_pending_jobs obj)" unfolding waiting_def using dormant_jobs obj(1) by blast
  with obj(2) show ?thesis by (rule foldE_reaches) (rule start_running)
qed

section \<open>Events\<close>

lemma dormant_object_event:
  assumes "dormant J Q n r s" and "x \<noteq> r"
    and "ce_type ev = CONSOLE_METHOD_RESPONSE \<or> ce_type ev = CONSOLE_EXCEPTION"
  shows "okE (dormant J Q n r) (object_process_event R V ob' ev (Some x) s)"
proof (rule okE_I)
  fix s' assume "object_process_event R V ob' ev (Some x) s = Inr s'"
  then obtain s1 where "s1 = s \<and> (\<exists>q. reqs s x = Some q \<and> qr_state q \<noteq> JOB_RUNNING) \<or>
      (\<exists>args rc. method_response R x args rc s = Inr s1)" and "request_unref x s1 = Inr s'"
    using assms(3) by (rule process_replyE)
  with assms(1,2) show "dormant J Q n r s'" by (metis okE_D dormant_response dormant_unref)
qed

lemma dormant_delete:
  assumes "dormant J Q n r s"
  shows "okE (dormant J Q n r) (agent_delete R qa s)"
proof -
  have resp: "okE (dormant J Q n r) (bindE (derefE NullDeref (snd call)) (\<lambda>x. method_response R x [] RPC_CANCELLED u))"
    if "agents s qa = Some ag" "call \<in> set (qa_outstanding ag)" "dormant J Q n r u" for ag call u
  proof (intro okE_deref dormant_response that)
    fix x assume "snd call = Some x"
    with that(2) have "Some x \<in> snd ` set (qa_outstanding ag)" by force
    with dormant_sent [OF assms that(1)] show "x \<noteq> r" by blast
  qed
  have last: "okE (dormant J Q n r) (Inr (u\<lparr>agents := (agents u)(qa := None)\<rparr>))" if "dormant J Q n r u" for u :: "'a qmf"
    unfolding okE_Inr by (rule dormant_frame [OF that]) (simp_all add: jobs_of_def sent_to_def timed_def answered_def split: if_splits)
  have dis: "okE (dormant J Q n r) (foldE object_disconnect obs u)" if "dormant J Q n r u" for obs and u :: "'a qmf"
    by (rule dormant_keeps [OF keeps_foldE [OF disconnect_view] that])
  show ?thesis
    unfolding agent_delete_def
  proof (rule okE_bind_get)
    fix ag assume "agent_get s qa = Inr ag"
    then have ag: "agents s qa = Some ag" by (simp add: agent_get_def derefE_eq_Inr)
    show "okE (dormant J Q n r) (bindE (foldE (\<lambda>call s. bindE (derefE NullDeref (snd call))
        (\<lambda>r. method_response R r [] RPC_CANCELLED s)) (sort_key fst (qa_outstanding ag)) s) (\<lambda>s.
        bindE (foldE object_disconnect (qa_objects ag) s) (\<lambda>s. Inr (s\<lparr>agents := (agents s)(qa := None)\<rparr>))))"
      by (rule okE_bind [OF okE_foldE [where P = "dormant J Q n r", OF assms]], rule resp [OF ag], simp, assumption,
          rule okE_bind [OF dis], assumption, erule last)
  qed
qed

text \<open>The steps of a session with calls of every kind, and runs whose steps start in states that satisfy \<open>C\<close>.\<close>

inductive any_step for R N V where
  any_call: "method_call_async E ob m args u tmo s = Inr s' \<Longrightarrow> any_step R N V s s'"
| any_other: "qmf_step R N V l s s' \<Longrightarrow> any_step R N V s s'"

inductive any_run for R N V C where
  run_refl: "any_run R N V C s s"
| run_step: "any_run R N V C s s' \<Longrightarrow> C s' \<Longrightarrow> any_step R N V s' s'' \<Longrightarrow> any_run R N V C s s''"

definition numbers_free :: "'c qmf \<Rightarrow> bool" where
  "numbers_free s \<longleftrightarrow> (\<forall>x \<ge> next_req s. unborn x s)"

lemma qmf_start_free: "qmf_start s \<Longrightarrow> numbers_free s"
  by (auto simp: qmf_start_def numbers_free_def unborn_def dormant_def jobs_of_def sent_to_def timed_def answered_def
      split: option.splits)

context qmf_client
begin

lemma dormant_offer:
  assumes "dormant J Q n r s"
  shows "okE (dormant J Q n r) (mux_offer E (N e) name ob' s)"
  unfolding mux_offer_def Let_def
proof (intro okE_bind_get okE_prod okE_if okE_Inr_I okE_option)
  fix p b s1 assume "object_connect E (N e) ob' name s = Inr p" "p = (b, s1)"
  then have s1: "dormant J Q n r s1" using dormant_view [OF connect_view assms] by blast
  then show "dormant J Q n r s1" .
  show "okE (dormant J Q n r) (agent_add qa ob' s1)" for qa by (rule dormant_keeps [OF add_view s1])
  have "dormant J Q n r (s1\<lparr>agents := (agents s1)(next_agent s1 := Some \<lparr>qa_name = name, qa_outstanding = [], qa_objects = []\<rparr>),
      next_agent := k, mux_agents := m\<rparr>)" for k m
    by (rule dormant_frame [OF s1]) (auto simp: jobs_of_def sent_to_def timed_def answered_def split: if_splits)
  then show "okE (dormant J Q n r) (agent_add (next_agent s1) ob' (s1\<lparr>agents := (agents s1)
      (next_agent s1 := Some \<lparr>qa_name = name, qa_outstanding = [], qa_objects = []\<rparr>),
      next_agent := Suc (next_agent s1), mux_agents := qb_map_put name (Some (next_agent s1)) (mux_agents s1)\<rparr>))"
    by (rule dormant_keeps [OF add_view])
qed

lemma dormant_agent_event:
  assumes wait: "dormant J Q n r s"
  shows "okE (dormant J Q n r) (agent_process_event (R e) (V e) qa ev s)"
proof (cases "ce_type ev = CONSOLE_METHOD_RESPONSE \<or> ce_type ev = CONSOLE_EXCEPTION")
  case True
  have upd: "dormant J Q n r (upd_agent qa (\<lambda>ag. ag\<lparr>qa_outstanding := AList.update cid None (qa_outstanding ag)\<rparr>) s)" for cid
    using update_snd [of "Some r" cid None] by (intro dormant_agent wait) simp
  have del: "dormant J Q n r (upd_agent qa (\<lambda>ag. ag\<lparr>qa_outstanding := AList.delete cid (qa_outstanding ag)\<rparr>) u)"
    if "dormant J Q n r u" for cid and u :: "'c qmf"
    by (rule dormant_agent [OF that], rule delete_snd) simp
  have other: "x \<noteq> r" if out: "outstanding_at qa cid s = Some x" for cid x
  proof -
    obtain ag where ag: "agents s qa = Some ag" "map_of (qa_outstanding ag) cid = Some (Some x)"
      using out by (auto simp: outstanding_at_def bind_eq_Some_conv)
    have "Some x \<in> snd ` set (qa_outstanding ag)" using map_of_SomeD [OF ag(2)] by force
    with dormant_sent [OF wait ag(1)] show ?thesis by blast
  qed
  show ?thesis
    unfolding agent_process_event_def if_P [OF True]
  proof (intro okE_bind_get okE_option okE_Inr_I upd del)
    fix x q u assume "outstanding_at qa (ce_correlator ev) s = Some x"
      and u: "object_process_event (R e) (V e) (qr_obj q) ev (Some x) s = Inr u"
    from okE_D [OF dormant_object_event [OF wait other [OF this(1)] True] u] show "dormant J Q n r u" .
  qed
next
  case False
  then have "keeps calls_view (foldE (\<lambda>ob s. object_process_event (R e) (V e) ob ev None s) obs)" for obs
    using object_event_view [of ev] by (intro keeps_foldE) simp
  with False wait show ?thesis
    unfolding agent_process_event_def by (simp add: okE_bind_get dormant_keeps)
qed

lemma dormant_event:
  assumes "dormant J Q n r s"
  shows "okE (dormant J Q n r) (mux_process_event E (R e) (N e) (V e) ev s)"
  unfolding mux_process_event_def Let_def
  by (intro okE_if okE_option okE_Inr_I okE_foldE dormant_offer dormant_delete dormant_agent_event dormant_fields assms)

text \<open>Every step but a call.\<close>

lemma dormant_step:
  assumes "qmf_step R N V l s s'" and dorm: "dormant J Q n r s" and un: "\<And>ob. ob \<in> J \<Longrightarrow> unconnected s ob"
  shows "dormant J Q n r s' \<or> next_req s' = Suc n \<and> (r \<noteq> n \<longrightarrow> dormant J Q (Suc n) r s')"
  using assms(1)
proof cases
  case (step_call E ob m args u tmo obj)
  then show ?thesis by (intro disjI2 dormant_called [OF dorm]) (rule step_call)
next
  case (step_event E e ev)
  with okE_D [OF dormant_event [OF dorm]] show ?thesis by blast
next
  case (step_timeout x t e)
  from step_timeout(2) dorm have x: "x \<noteq> r" by (force simp: dormant_def timed_def)
  let ?s = "s\<lparr>call_timers := remove1 (x, t) (call_timers s)\<rparr>"
  have "\<not> timed ?s r" using dorm set_remove1_subset [of "(x, t)" "call_timers s"] by (auto simp: dormant_def timed_def)
  then have "dormant J Q n r ?s" by (rule dormant_fields(4) [OF dorm])
  then have "okE (dormant J Q n r) (method_call_tmo (R e) x ?s)"
    unfolding method_call_tmo_def
    by (intro okE_bind_get okE_bind [where Q = "dormant J Q n r"] okE_if okE_Inr_I dormant_response dormant_unref x)
  with step_timeout show ?thesis by (auto dest: okE_D)
next
  case (step_run ob E)
  have "unconnected (s\<lparr>pending_runs := p\<rparr>) ob" if "ob \<in> J" for p ob using un [OF that] by (simp add: unconnected_def)
  from okE_D [OF dormant_run [OF dormant_fields(2) [OF dorm] this] step_run(3)] show ?thesis by blast
next
  case step_client
  with dormant_view [OF _ dorm] show ?thesis by blast
next
  case (step_object ob obj)
  have "dormant J Q n r (s\<lparr>objs := (objs s)(ob := Some obj), mux_objects := m\<rparr>)" for m
    by (rule dormant_frame [OF dorm]) (use step_object in \<open>auto simp: jobs_of_def sent_to_def timed_def answered_def\<close>)
  with step_object show ?thesis by simp
qed

text \<open>Numbers that were not given yet are free, and a call waits as long as its object is not connected.\<close>

lemma dormant_any:
  assumes "any_step R N V s s'" and "dormant J Q n r s" and "\<And>ob. ob \<in> J \<Longrightarrow> unconnected s ob"
  shows "dormant J Q n r s' \<or> next_req s' = Suc n \<and> (r \<noteq> n \<longrightarrow> dormant J Q (Suc n) r s')"
  using assms(1)
proof cases
  case any_call
  with dormant_called [OF assms(2)] show ?thesis by blast
next
  case any_other
  from dormant_step [OF this assms(2,3)] show ?thesis .
qed

lemma free_any:
  assumes "any_step R N V s s'" and "numbers_free s"
  shows "numbers_free s'"
proof -
  have free: "dormant {} (\<lambda>p. p = None) (next_req s) y s" if "next_req s \<le> y" for y
    using assms(2) that by (simp add: numbers_free_def unborn_def)
  have any: "dormant {} (\<lambda>p. p = None) (next_req s) y s' \<or> next_req s' = Suc (next_req s) \<and>
      (y \<noteq> next_req s \<longrightarrow> dormant {} (\<lambda>p. p = None) (Suc (next_req s)) y s')" if "next_req s \<le> y" for y
    by (rule dormant_any [OF assms(1) free [OF that]]) simp
  from any [OF order_refl] have "next_req s' = next_req s \<or> next_req s' = Suc (next_req s)"
    by (auto simp: dormant_def)
  then show ?thesis
  proof
    assume "next_req s' = next_req s"
    with any show ?thesis by (auto simp: numbers_free_def unborn_def)
  next
    assume eq: "next_req s' = Suc (next_req s)"
    then have "\<not> dormant {} (\<lambda>p. p = None) (next_req s) y s'" for y by (simp add: dormant_def)
    with any eq show ?thesis by (auto simp: numbers_free_def unborn_def)
  qed
qed

lemma free_run: "any_run R N V C s s' \<Longrightarrow> numbers_free s \<Longrightarrow> numbers_free s'"
  by (induction rule: any_run.induct) (auto intro: free_any)

lemma waiting_any:
  assumes "any_step R N V s s'" and "waiting ob r s" and "unconnected s ob"
  shows "waiting ob r s'"
proof -
  let ?Q = "\<lambda>p. \<exists>q. p = Some q \<and> qr_state q = JOB_SCHEDULED \<and> qr_obj q = ob"
  have "dormant {ob} ?Q (next_req s) r s" "r < next_req s" using assms(2) by (simp_all add: waiting_def)
  with dormant_any [OF assms(1) this(1)] assms(3)
  have "dormant {ob} ?Q (next_req s) r s' \<or> dormant {ob} ?Q (Suc (next_req s)) r s'" by auto
  with \<open>r < next_req s\<close> show ?thesis by (auto simp: waiting_def dormant_def)
qed

lemma waiting_run:
  assumes "any_run R N V (\<lambda>s. unconnected s ob) s s'" and "waiting ob r s"
  shows "waiting ob r s'"
  using assms by (induction rule: any_run.induct) (auto intro: waiting_any)

text \<open>A call on an object that is not connected, after any history.\<close>

lemma call_waits:
  assumes "qmf_start s0" and "any_run R N V C s0 s" and "method_call_async E ob m args u tmo s = Inr s1"
    and "unconnected s ob" and "any_run R N V (\<lambda>s. unconnected s ob) s1 s'"
  shows "waiting ob (next_req s) s'"
proof -
  have "unborn (next_req s) s" using free_run [OF assms(2) qmf_start_free [OF assms(1)]] by (simp add: numbers_free_def)
  from waiting_run [OF assms(5) waiting_begins [OF assms(3,4) this]] show ?thesis .
qed

end

end
