(* ===== verification/Matahari.thy ===== *)
theory Matahari
  imports Cape_Life Qmf_Waiting
begin

text \<open>
  \<^verbatim>\<open>src/src/matahari.cpp\<close> and \<^verbatim>\<open>matahari.h\<close>: the transport over Matahari agents. Each node has three remote
  objects (host, services, resources); operations are method calls on the last two, and heartbeats of
  the host tell whether the node is alive. The client's part of the QMF state is the engine together with
  these objects. \<open>recover_state_set\<close> is composed with the callbacks of the engine, whose restart of a node
  here disconnects this transport. \<open>now\<close> is the monotonic clock in microseconds; \<^verbatim>\<open>GTimer\<close> counts in
  them, so that its comparison with whole seconds is exact.
\<close>

section \<open>Data\<close>

datatype hb_state = HEARTBEAT_INIT | HEARTBEAT_NOT_RECEIVED | HEARTBEAT_OK | HEARTBEAT_SEQ_BAD

record gtimer =
  gt_start :: nat
  gt_end :: "nat option"

type_synonym mh_ptr = nat

record matahari =
  mh_node :: asm_ptr
  mh_name :: string
  mh_uuid :: string
  mh_hb_state :: hb_state
  mh_last_sequence :: u32
  mh_last_heartbeat :: gtimer
  mh_host :: obj_ptr
  mh_serv :: obj_ptr
  mh_rsc :: obj_ptr
  mh_timer :: timer_handle

record 'sw mh_client =
  mh_engine :: "'sw cape"
  mhs :: "mh_ptr \<Rightarrow> matahari option"
  next_mh :: mh_ptr
  next_obj :: obj_ptr
  mh_owner :: "obj_ptr \<Rightarrow> mh_ptr"
  hb_timers :: "(timer_handle \<times> mh_ptr) list"
  next_hb :: timer_handle
  mh_mux :: "console_session option"

type_synonym 'sw mh_state = "'sw mh_client qmf"

definition MH_HEALTHCHECK_TIMEOUT :: nat where "MH_HEALTHCHECK_TIMEOUT = 20 * 1000000"

section \<open>Access\<close>

definition on_client :: "('sw mh_client \<Rightarrow> 'sw mh_client) \<Rightarrow> 'sw mh_state \<Rightarrow> 'sw mh_state" where
  "on_client f s = s\<lparr>client := f (client s)\<rparr>"

definition on_engine :: "('sw cape \<Rightarrow> 'sw cape res) \<Rightarrow> 'sw mh_state \<Rightarrow> 'sw mh_state res" where
  "on_engine f s =
     bindE (f (mh_engine (client s))) (\<lambda>e. Inr (on_client (\<lambda>c. c\<lparr>mh_engine := e\<rparr>) s))"

definition mh_get :: "'sw mh_state \<Rightarrow> mh_ptr \<Rightarrow> matahari res" where
  "mh_get s m = derefE BadPtr (mhs (client s) m)"

definition upd_mh :: "mh_ptr \<Rightarrow> (matahari \<Rightarrow> matahari) \<Rightarrow> 'sw mh_state \<Rightarrow> 'sw mh_state" where
  "upd_mh m f = on_client (\<lambda>c. c\<lparr>mhs := (mhs c)(m := map_option f (mhs c m))\<rparr>)"

text \<open>\<^verbatim>\<open>g_timer_start\<close>, \<^verbatim>\<open>g_timer_stop\<close> and \<^verbatim>\<open>g_timer_elapsed\<close>.\<close>

definition g_timer_start :: "nat \<Rightarrow> gtimer \<Rightarrow> gtimer" where
  "g_timer_start now t = t\<lparr>gt_start := now, gt_end := None\<rparr>"

definition g_timer_stop :: "nat \<Rightarrow> gtimer \<Rightarrow> gtimer" where
  "g_timer_stop now t = t\<lparr>gt_end := Some now\<rparr>"

definition g_timer_elapsed :: "nat \<Rightarrow> gtimer \<Rightarrow> nat" where
  "g_timer_elapsed now t = (case gt_end t of None \<Rightarrow> now | Some e \<Rightarrow> e) - gt_start t"

section \<open>Connection\<close>

definition state_online_to_offline :: "mh_ptr \<Rightarrow> 'sw mh_state \<Rightarrow> 'sw mh_state res" where
  "state_online_to_offline m s =
     bindE (mh_get s m) (\<lambda>mh.
     bindE (object_disconnect (mh_rsc mh) s) (\<lambda>s.
     bindE (object_disconnect (mh_serv mh) s) (\<lambda>s.
     bindE (object_disconnect (mh_host mh) s) (\<lambda>s.
     Inr (upd_mh m (\<lambda>mh. mh\<lparr>mh_hb_state := HEARTBEAT_INIT\<rparr>) s)))))"

definition mh_transport_disconnect :: "asm_ptr \<Rightarrow> 'sw mh_state \<Rightarrow> 'sw mh_state res" where
  "mh_transport_disconnect a s =
     bindE (asm_get (mh_engine (client s)) a) (\<lambda>assembly.
     bindE (derefE NullDeref (a_transport assembly)) (\<lambda>m.
     bindE (mh_get s m) (\<lambda>mh.
     state_online_to_offline m
       (on_client (\<lambda>c. c\<lparr>hb_timers := filter (\<lambda>t. fst t \<noteq> mh_timer mh) (hb_timers c)\<rparr>) s))))"

text \<open>The three remote objects of a node, with the handlers they are given.\<close>

definition mh_object :: "string \<Rightarrow> string \<Rightarrow> bool \<Rightarrow> bool \<Rightarrow> qmf_object" where
  "mh_object query uuid response event =
     \<lparr>qo_connected = False, qo_qmf_data = None, qo_qa = None, qo_agent_name = [], qo_query = query,
      qo_prop_name = ''uuid'', qo_prop_value = uuid, qo_pending_jobs = [], qo_response_fn = response,
      qo_event_fn = event, qo_connection_fn = True\<rparr>"

definition matahari_new :: "nat \<Rightarrow> asm_ptr \<Rightarrow> string \<Rightarrow> string \<Rightarrow> 'sw mh_state \<Rightarrow> mh_ptr \<times> 'sw mh_state" where
  "matahari_new now a name uuid s =
     (let c = client s; m = next_mh c; h = next_obj c; sv = h + 1; rs = h + 2;
          s = s\<lparr>objs := (objs s)
                (h := Some (mh_object ''{class:Host, package:org.matahariproject}'' uuid False True),
                 sv := Some (mh_object ''{class:Services, package:org.matahariproject}'' uuid True False),
                 rs := Some (mh_object ''{class:Resources, package:org.matahariproject}'' uuid True False))\<rparr>;
          s = qmf_object_add rs (qmf_object_add sv (qmf_object_add h s));
          mh = \<lparr>mh_node = a, mh_name = name, mh_uuid = uuid, mh_hb_state = HEARTBEAT_INIT,
                mh_last_sequence = 0, mh_last_heartbeat = \<lparr>gt_start = now, gt_end = None\<rparr>,
                mh_host = h, mh_serv = sv, mh_rsc = rs, mh_timer = 0\<rparr>
      in (m, on_client (\<lambda>c. c\<lparr>mhs := (mhs c)(m := Some mh), next_mh := Suc m, next_obj := h + 3,
               mh_owner := (mh_owner c)(h := m, sv := m, rs := m)\<rparr>) s))"

definition MUX_FILTER :: string where
  "MUX_FILTER = ''[or, [eq, _vendor, [quote, '' @ [CHR 0x27] @ ''matahariproject.org'' @ [CHR 0x27] @
     '']], [eq, _vendor, [quote, '' @ [CHR 0x27] @ ''pacemakercloud.org'' @ [CHR 0x27] @ '']]]''"

definition mh_transport_connect :: "nat \<Rightarrow> asm_ptr \<Rightarrow> 'sw mh_state \<Rightarrow> (mh_ptr \<times> 'sw mh_state) res" where
  "mh_transport_connect now a s =
     bindE (asm_get (mh_engine (client s)) a) (\<lambda>assembly.
     let s = on_client (\<lambda>c. if mh_mux c = None then c\<lparr>mh_mux := Some (mux_start ''localhost:49000'' MUX_FILTER)\<rparr> else c) s in
     case a_transport assembly of
       Some m \<Rightarrow> Inr (m, s)
     | None \<Rightarrow>
         let (m, s) = matahari_new now a (a_name assembly) (a_uuid assembly) s
         in Inr (m, on_client (\<lambda>c. c\<lparr>mh_engine := upd_asm a (\<lambda>x. x\<lparr>a_transport := Some m\<rparr>) (mh_engine c)\<rparr>) s))"

section \<open>The state of a node\<close>

text \<open>
  The restart of a node and \<open>recover_state_set\<close> on a node, linked with this transport. The other callbacks
  are the ones of the engine.
\<close>

definition mh_node_recover_restart :: "'sw env \<Rightarrow> asm_ptr \<Rightarrow> 'sw mh_state \<Rightarrow> 'sw mh_state res" where
  "mh_node_recover_restart E a s =
     bindE (mh_transport_disconnect a s) (\<lambda>s.
     bindE (on_engine (node_op_history_clear E a) s) (\<lambda>s.
     on_engine (instance_create E a) s))"

definition mh_call :: "'sw env \<Rightarrow> recover_fn \<Rightarrow> nat option \<Rightarrow> 'sw mh_state \<Rightarrow> 'sw mh_state res" where
  "mh_call E f inst s =
     (if f = Node_recover_restart
      then bindE (derefE NullDeref inst) (\<lambda>a. mh_node_recover_restart E a s)
      else on_engine (cape_call E f inst) s)"

definition mh_node_state_set :: "'sw env \<Rightarrow> asm_ptr \<Rightarrow> recover_state \<Rightarrow> 'sw mh_state \<Rightarrow> 'sw mh_state res" where
  "mh_node_state_set E a st s =
     recover_state_set (sw_lib E) (clock E) (clock' E)
       (\<lambda>s. node_rd a (mh_engine (client s)))
       (\<lambda>f. on_client (\<lambda>c. c\<lparr>mh_engine := node_upd a f (mh_engine c)\<rparr>))
       (\<lambda>f i from to. on_engine (cape_changing E f i from to)) (mh_call E) st s"

section \<open>Heartbeats\<close>

definition heartbeat_step :: "nat \<Rightarrow> u32 \<Rightarrow> matahari \<Rightarrow> matahari" where
  "heartbeat_step now seq mh =
     (if mh_hb_state mh \<noteq> HEARTBEAT_OK
      then mh\<lparr>mh_last_sequence := seq, mh_hb_state := HEARTBEAT_OK,
              mh_last_heartbeat := g_timer_start now (g_timer_stop now (mh_last_heartbeat mh))\<rparr>
      else if seq > mh_last_sequence mh + 1 then mh\<lparr>mh_hb_state := HEARTBEAT_SEQ_BAD\<rparr>
      else
        let t = g_timer_stop now (mh_last_heartbeat mh);
            mh = mh\<lparr>mh_last_sequence := seq, mh_last_heartbeat := t\<rparr>
        in if g_timer_elapsed now t > MH_HEALTHCHECK_TIMEOUT then mh\<lparr>mh_hb_state := HEARTBEAT_NOT_RECEIVED\<rparr>
           else mh\<lparr>mh_last_heartbeat := g_timer_start now t\<rparr>)"

definition heartbeat_recv :: "nat \<Rightarrow> mh_ptr \<Rightarrow> u32 \<Rightarrow> 'sw mh_state \<Rightarrow> 'sw mh_state res" where
  "heartbeat_recv now m seq s = bindE (mh_get s m) (\<lambda>_. Inr (upd_mh m (heartbeat_step now seq) s))"

definition hb_timer_add :: "mh_ptr \<Rightarrow> 'sw mh_state \<Rightarrow> 'sw mh_state" where
  "hb_timer_add m s =
     (let h = Suc (next_hb (client s)) in
      upd_mh m (\<lambda>mh. mh\<lparr>mh_timer := h\<rparr>)
        (on_client (\<lambda>c. c\<lparr>hb_timers := hb_timers c @ [(h, m)], next_hb := h\<rparr>) s))"

definition is_connected :: "obj_ptr \<Rightarrow> 'sw mh_state \<Rightarrow> bool" where
  "is_connected ob s \<longleftrightarrow> (case objs s ob of None \<Rightarrow> False | Some obj \<Rightarrow> qo_connected obj)"

definition late :: "nat \<Rightarrow> matahari \<Rightarrow> bool" where
  "late now mh \<longleftrightarrow> mh_hb_state mh = HEARTBEAT_OK \<and> g_timer_elapsed now (mh_last_heartbeat mh) > MH_HEALTHCHECK_TIMEOUT"

definition check_state :: "'sw env \<Rightarrow> nat \<Rightarrow> mh_ptr \<Rightarrow> 'sw mh_state \<Rightarrow> 'sw mh_state res" where
  "check_state E now m s =
     bindE (mh_get s m) (\<lambda>mh.
     bindE (asm_get (mh_engine (client s)) (mh_node mh)) (\<lambda>assembly.
     if rc_state (a_recover assembly) = RECOVER_STATE_RUNNING then
       let s = (if late now mh then upd_mh m (\<lambda>mh. mh\<lparr>mh_hb_state := HEARTBEAT_NOT_RECEIVED\<rparr>) s else s) in
       (if late now mh \<or> mh_hb_state mh \<noteq> HEARTBEAT_OK
        then mh_node_state_set E (mh_node mh) RECOVER_STATE_FAILED s else Inr s)
     else if mh_hb_state mh = HEARTBEAT_OK \<and> is_connected (mh_rsc mh) s \<and> is_connected (mh_serv mh) s \<and>
             is_connected (mh_host mh) s
     then
       bindE (mh_node_state_set E (mh_node mh) RECOVER_STATE_RUNNING s) (\<lambda>s.
       Inr (hb_timer_add m s))
     else Inr s))"

definition heartbeat_check_tmo :: "'sw env \<Rightarrow> nat \<Rightarrow> mh_ptr \<Rightarrow> 'sw mh_state \<Rightarrow> 'sw mh_state res" where
  "heartbeat_check_tmo E now m s =
     bindE (check_state E now m s) (\<lambda>s.
     bindE (mh_get s m) (\<lambda>mh.
     bindE (asm_get (mh_engine (client s)) (mh_node mh)) (\<lambda>assembly.
     if rc_state (a_recover assembly) = RECOVER_STATE_RUNNING then Inr (hb_timer_add m s) else Inr s)))"

section \<open>The handlers of the remote objects\<close>

definition connection_event_handler :: "'sw env \<Rightarrow> nat \<Rightarrow> obj_ptr \<Rightarrow> 'sw mh_state \<Rightarrow> 'sw mh_state res" where
  "connection_event_handler E now ob s = check_state E now (mh_owner (client s) ob) s"

text \<open>
  The numbers of a heartbeat and of an answer; the schemas of the Matahari agents declare them as
  \<^verbatim>\<open>uint32\<close>, and the conversion of a missing or empty property raises an exception.
\<close>

fun as_u32 :: "variant option \<Rightarrow> u32 res" where
  "as_u32 (Some (V_u32 v)) = Inr v"
| "as_u32 _ = Inl AssertFail"

definition host_event_handler :: "'sw env \<Rightarrow> nat \<Rightarrow> obj_ptr \<Rightarrow> console_event \<Rightarrow> 'sw mh_state \<Rightarrow> 'sw mh_state res" where
  "host_event_handler E now ob ev s =
     (case ce_data ev of
        [] \<Rightarrow> Inl AssertFail
      | d # _ \<Rightarrow>
          if ce_schema ev \<noteq> ''heartbeat'' then Inr s
          else
            bindE (as_u32 (qb_map_get d ''sequence'')) (\<lambda>seq.
            bindE (as_u32 (qb_map_get d ''timestamp'')) (\<lambda>_.
            bindE (heartbeat_recv now (mh_owner (client s) ob) seq s) (\<lambda>s.
            check_state E now (mh_owner (client s) ob) s))))"

definition resource_method_response ::
  "'sw env \<Rightarrow> nat \<Rightarrow> variant_map \<Rightarrow> rpc_result \<Rightarrow> 'sw mh_client \<Rightarrow> 'sw mh_client res" where
  "resource_method_response E p out_args rpc_rc c =
     (if rpc_rc = RPC_OK then
        bindE (op_get (mh_engine c) p) (\<lambda>op.
        bindE (if qb_map_get out_args ''rc'' = None then Inr OCF_UNKNOWN_ERROR
               else bindE (as_u32 (qb_map_get out_args ''rc'')) (\<lambda>v.
                    Inr (pe_resource_ocf_exitcode_get op (sint v)))) (\<lambda>rc.
        bindE (resource_action_completed E p rc (mh_engine c)) (\<lambda>e.
        bindE (pe_resource_unref p e) (\<lambda>e.
        Inr (c\<lparr>mh_engine := e\<rparr>)))))
      else
        bindE (case qb_map_get out_args ''error_text'' of
                 None \<Rightarrow> Inr () | Some v \<Rightarrow> if has_text v then Inr () else Inl AssertFail) (\<lambda>_.
        bindE (resource_action_completed E p OCF_UNKNOWN_ERROR (mh_engine c)) (\<lambda>e.
        Inr (c\<lparr>mh_engine := e\<rparr>))))"

section \<open>Operations\<close>

text \<open>The arguments of a call; \<open>interval\<close> and \<open>timeout\<close> are numbers, the parameters a map of strings.\<close>

definition lsb_args :: "pe_operation \<Rightarrow> variant_map" where
  "lsb_args op =
     qb_map_put ''name'' (V_str (op_rtype op))
       (if op_method op = ''monitor'' then [(''timeout'', V_u32 (op_timeout op)), (''interval'', V_u32 0)]
        else [(''timeout'', V_u32 (op_timeout op))])"

text \<open>
  The callback \<^verbatim>\<open>qbmap_to_variant_map\<close> has no \<^verbatim>\<open>return\<close>, although the walk of libqb stops at a value that is not zero;
  it counts as zero here, so that all parameters are passed on.
\<close>

definition qbmap_to_variant_map :: "string \<Rightarrow> string \<Rightarrow> string qb_map \<Rightarrow> string qb_map" where
  "qbmap_to_variant_map key value the_args = qb_map_put key value the_args"

definition rsc_params :: "pe_operation \<Rightarrow> string qb_map" where
  "rsc_params op = fold (\<lambda>(k, v). qbmap_to_variant_map k v) (op_params op) [(''qmf'', ''frustrating'')]"

definition rsc_args :: "pe_operation \<Rightarrow> variant_map" where
  "rsc_args op =
     [(''timeout'', V_u32 (op_timeout op))] @
     (if op_method op = ''monitor'' then [] else [(''action'', V_str (op_method op))]) @
     [(''interval'', V_u32 0), (''name'', V_str (op_rname op)), (''class'', V_str (op_rclass op)),
      (''provider'', V_str (case op_rprovider op of None \<Rightarrow> ''heartbeat'' | Some p \<Rightarrow> p)),
      (''type'', V_str (op_rtype op)), (''parameters'', V_map (rsc_params op))]"

definition resource_action :: "'sw env \<Rightarrow> qmf_env \<Rightarrow> mh_ptr \<Rightarrow> op_ptr \<Rightarrow> 'sw mh_state \<Rightarrow> 'sw mh_state res" where
  "resource_action E QE m p s =
     bindE (op_get (mh_engine (client s)) p) (\<lambda>op.
     bindE (derefE NullDeref (op_node_uuid op)) (\<lambda>_.
     bindE (mh_get s m) (\<lambda>mh.
     let monitor = (op_method op = ''monitor'') in
     if \<not> strstr (op_rname op) (op_hostname op)
     then on_engine (resource_action_completed E p (if monitor then OCF_NOT_RUNNING else OCF_UNKNOWN_ERROR)) s
     else
       bindE (on_engine (pe_resource_ref p) s) (\<lambda>s.
       if op_rclass op = ''lsb''
       then method_call_async QE (mh_serv mh) (if monitor then ''status'' else op_method op) (lsb_args op)
              p (op_timeout op) s
       else method_call_async QE (mh_rsc mh) (if monitor then ''monitor'' else ''invoke'') (rsc_args op)
              p (op_timeout op) s))))"

definition mh_transport_resource_action ::
  "'sw env \<Rightarrow> qmf_env \<Rightarrow> asm_ptr \<Rightarrow> op_ptr \<Rightarrow> 'sw mh_state \<Rightarrow> 'sw mh_state res" where
  "mh_transport_resource_action E QE a p s =
     bindE (asm_get (mh_engine (client s)) a) (\<lambda>assembly.
     bindE (derefE NullDeref (a_transport assembly)) (\<lambda>m.
     resource_action E QE m p s))"

section \<open>The handlers leave the calls alone\<close>

lemma calls_view_on_client [simp]: "calls_view (on_client f s) = calls_view s"
  by (simp add: on_client_def calls_view_def)

lemma calls_view_upd_mh [simp]: "calls_view (upd_mh m f s) = calls_view s"
  by (simp add: upd_mh_def)

lemma calls_view_hb_timer [simp]: "calls_view (hb_timer_add m s) = calls_view s"
  by (simp add: hb_timer_add_def Let_def)

lemma keeps_on_engine: "keeps calls_view (on_engine f)"
  unfolding on_engine_def by (rule keeps_I) (auto simp: okE_def bindE_eq_Inr)

lemma keeps_offline: "keeps calls_view (state_online_to_offline m)"
  unfolding state_online_to_offline_def
  by (rule keeps_I, rule okE_bind_get) (intro keep_bind keeps_okE [OF disconnect_view]; simp)

lemma keeps_mh_disconnect: "keeps calls_view (mh_transport_disconnect a)"
  unfolding mh_transport_disconnect_def
  by (rule keeps_I) (intro okE_bind_get keeps_okE [OF keeps_offline]; simp)

lemma keeps_mh_call: "keeps calls_view (mh_call E f i)"
  unfolding mh_call_def mh_node_recover_restart_def
  by (rule keeps_I) (intro okE_intros keep_bind keeps_okE [OF keeps_mh_disconnect] keeps_okE [OF keeps_on_engine]; simp)

lemma keeps_mh_node_set: "keeps calls_view (mh_node_state_set E a st)"
  unfolding mh_node_state_set_def
  by (rule recover_state_set_keeps) (simp_all add: keeps_on_engine keeps_mh_call)

lemma keeps_check_state: "keeps calls_view (check_state E now m)"
  unfolding check_state_def Let_def
  by (rule keeps_I) (intro okE_bind_get okE_if keeps_okE [OF keeps_mh_node_set] okE_bind [OF keeps_okE [OF keeps_mh_node_set]];
      auto dest: keeps_D [OF keeps_mh_node_set])

lemma keeps_connection_event: "keeps calls_view (connection_event_handler E now ob)"
  unfolding connection_event_handler_def keeps_def using keeps_check_state [unfolded keeps_def] by blast

lemma keeps_host_event: "keeps calls_view (host_event_handler E now ob ev)"
  unfolding host_event_handler_def heartbeat_recv_def
  by (rule keeps_I) (intro okE_list okE_if okE_bind_get keeps_okE [OF keeps_check_state];
      auto simp: bindE_eq_Inr)

interpretation mh: qmf_client "\<lambda>e. resource_method_response (fst e)"
    "\<lambda>e. connection_event_handler (fst e) (snd e)" "\<lambda>e. host_event_handler (fst e) (snd e)"
  by unfold_locales (auto intro: keeps_connection_event keeps_host_event)

text \<open>
  The steps of the transport: each handler runs in an environment and at a time of its own.
\<close>

abbreviation mh_reach :: "qmf_label set \<Rightarrow> 'sw mh_state \<Rightarrow> 'sw mh_state \<Rightarrow> bool" where
  "mh_reach \<equiv> qmf_reach (\<lambda>e. resource_method_response (fst e))
    (\<lambda>e. connection_event_handler (fst e) (snd e)) (\<lambda>e. host_event_handler (fst e) (snd e))"

abbreviation mh_step :: "qmf_label \<Rightarrow> 'sw mh_state \<Rightarrow> 'sw mh_state \<Rightarrow> bool" where
  "mh_step \<equiv> qmf_step (\<lambda>e. resource_method_response (fst e))
    (\<lambda>e. connection_event_handler (fst e) (snd e)) (\<lambda>e. host_event_handler (fst e) (snd e))"

text \<open>Runs with calls of every kind, on connected objects or not.\<close>

abbreviation mh_run :: "('sw mh_state \<Rightarrow> bool) \<Rightarrow> 'sw mh_state \<Rightarrow> 'sw mh_state \<Rightarrow> bool" where
  "mh_run \<equiv> any_run (\<lambda>e. resource_method_response (fst e))
    (\<lambda>e. connection_event_handler (fst e) (snd e)) (\<lambda>e. host_event_handler (fst e) (snd e))"

section \<open>A concrete session\<close>

text \<open>A stopped node whose transport is created, whose agent appears and whose services object is called.\<close>

definition demo_mh_init :: "sw_list mh_state" where
  "demo_mh_init =
     \<lparr>reqs = (\<lambda>_. None), next_req = 0, objs = (\<lambda>_. None), agents = (\<lambda>_. None), next_agent = 0,
      mux_objects = [], mux_agents = [], call_timers = [], pending_runs = [], sent_calls = [], responses = [],
      client = \<lparr>mh_engine = upd_asm 0 (\<lambda>a. a\<lparr>a_transport := None,
                   a_recover := (a_recover a)\<lparr>rc_state := RECOVER_STATE_STOPPED\<rparr>\<rparr>) demo_state,
                mhs = (\<lambda>_. None), next_mh = 0, next_obj = 0, mh_owner = (\<lambda>_. 0), hb_timers = [], next_hb = 0,
                mh_mux = None\<rparr>\<rparr>"

definition demo_mh_start :: "sw_list mh_state" where
  "demo_mh_start = (case mh_transport_connect 0 0 demo_mh_init of Inr (_, s) \<Rightarrow> s | Inl _ \<Rightarrow> demo_mh_init)"

definition demo_qe :: qmf_env where
  "demo_qe = \<lparr>qe_query = (\<lambda>_ _. [\<lparr>qd_schema = ''Services'', qd_addr = ''addr'', qd_properties = [(''uuid'', ''U1'')]\<rparr>]),
     qe_schema = (\<lambda>_ _. [(''start'', [(''name'', False)])]), qe_correlator = 7\<rparr>"

definition demo_event :: "console_type \<Rightarrow> console_event" where
  "demo_event ty = \<lparr>ce_type = ty, ce_agent = ''web'', ce_correlator = 7, ce_arguments = [], ce_data = [], ce_schema = ''''\<rparr>"

abbreviation demo_mux :: "console_event \<Rightarrow> sw_list mh_state \<Rightarrow> sw_list mh_state res" where
  "demo_mux \<equiv> mux_process_event demo_qe (resource_method_response demo_env) (connection_event_handler demo_env 0)
     (host_event_handler demo_env 0)"

lemma demo_connected: "mh_transport_connect 0 0 demo_mh_init = Inr (0, demo_mh_start)"
  by (simp add: demo_mh_start_def mh_transport_connect_def matahari_new_def demo_mh_init_def Let_def
     heap_defs demo_state_def demo_node_def on_client_def)

lemma demo_start: "qmf_start demo_mh_start"
  by (auto simp: qmf_start_def demo_mh_start_def mh_transport_connect_def matahari_new_def demo_mh_init_def Let_def
     heap_defs demo_state_def demo_node_def qmf_object_add_def mh_object_def on_client_def)

lemma demo_lower: "lower CHR ''U'' = lower CHR ''u''"
  by code_simp

lemma demo_agent_added: "\<exists>s obj. demo_mux (demo_event CONSOLE_AGENT_ADD) demo_mh_start = Inr s \<and> objs s 1 = Some obj \<and> qo_connected obj
   \<and> qo_qa obj = Some 0 \<and> qo_response_fn obj \<and> (\<exists>d. qo_qmf_data obj = Some d) \<and>
   agents s 0 = Some \<lparr>qa_name = ''web'', qa_outstanding = [], qa_objects = [0, 1, 2]\<rparr> \<and> next_req s = 0 \<and> responses s = [] \<and> mh_engine (client s) = mh_engine (client demo_mh_start)"
  by (simp add: demo_mh_start_def mh_transport_connect_def matahari_new_def demo_mh_init_def Let_def
     heap_defs demo_state_defs qmf_object_add_def mh_object_def on_client_def
     mux_process_event_def demo_event_def mux_offer_def object_connect_def obj_get_def demo_qe_def qb_map_get_def strcasecmp_eq_def demo_lower
     upd_obj_def connection_event_handler_def check_state_def mh_get_def mux_agent_at_def agent_add_def agent_get_def upd_agent_def late_def)

lemma demo_times_out:
  assumes "mh_engine c = mh_engine (client demo_mh_start)"
  shows "\<exists>c'. resource_method_response demo_env 0 [] RPC_TIMEOUT c = Inr c'"
proof -
  have "\<exists>e. resource_action_completed demo_env 0 OCF_UNKNOWN_ERROR (mh_engine (client demo_mh_start)) = Inr e"
    by (simp add: demo_mh_start_def mh_transport_connect_def matahari_new_def demo_mh_init_def Let_def
      qmf_object_add_def on_client_def completion_eval demo_state_defs demo_env_def heap_defs qb_map_get_def
      loop_job_add_def pe_resource_is_hard_error_def new_history_def resource_recover_restart_def)
  then show ?thesis using assms by (auto simp: resource_method_response_def)
qed

text \<open>A first call on the services of the node.\<close>

lemma demo_call:
  obtains s q where "mh_reach {L_event CONSOLE_AGENT_ADD, L_call} demo_mh_start s"
    and "reqs s 0 = Some q" and "qr_user_data q = 0" and "timed s 0" and "\<not> answered s 0" 
    and "mh_engine (client s) = mh_engine (client demo_mh_start)"
proof -
  obtain s1 obj d where s1: "demo_mux (demo_event CONSOLE_AGENT_ADD) demo_mh_start = Inr s1"
    and obj: "objs s1 1 = Some obj" "qo_connected obj" "qo_qa obj = Some 0" "qo_response_fn obj" "qo_qmf_data obj = Some d"
    and ag: "agents s1 0 = Some \<lparr>qa_name = ''web'', qa_outstanding = [], qa_objects = [0, 1, 2]\<rparr>" (is "_ = Some ?ag")
    and rest: "next_req s1 = 0" "responses s1 = []" "mh_engine (client s1) = mh_engine (client demo_mh_start)"
    using demo_agent_added by blast
  let ?s = "called demo_qe 0 ?ag d 1 ''start'' [(''name'', V_str ''httpd'')] 0 10000 s1"
  have "method_call_async demo_qe 1 ''start'' [(''name'', V_str ''httpd'')] 0 10000 s1 = Inr ?s"
    using obj ag unfolding call_effect [OF obj(1,2)] by blast
  then have "mh_step L_call s1 ?s"
    by (rule step_call [OF _ obj(1,2)]) (use obj ag in \<open>simp add: outstanding_at_def\<close>)
  moreover have "mh_step (L_event CONSOLE_AGENT_ADD) demo_mh_start s1"
    using step_event [where R = "\<lambda>e. resource_method_response (fst e)" and N = "\<lambda>e. connection_event_handler (fst e) (snd e)"
        and V = "\<lambda>e. host_event_handler (fst e) (snd e)" and e = "(demo_env, 0)" and ev = "demo_event CONSOLE_AGENT_ADD"] s1
    by (simp add: demo_event_def)
  ultimately have "mh_reach {L_event CONSOLE_AGENT_ADD, L_call} demo_mh_start ?s"
    by (intro reach_step [OF reach_step [OF reach_refl]]) auto
  then show ?thesis
    by (rule that [where q = "call_request 1 ''start'' [(''name'', V_str ''httpd'')] 0 10000 (call_inputs demo_qe ?ag d ''start'')"])
      (use rest in \<open>simp_all add: called_def call_request_def timed_def answered_def\<close>)
qed

section \<open>Calls\<close>







text \<open>
  Connecting an object runs its pending calls but never takes them off the list; once one of them is
  released, running the list again, as the next connection does, uses the released request.
\<close>

lemma pending_calls_kept:
  assumes "objs s ob = Some obj"
  shows "(\<forall>s'. run_pending_calls QE ob s = Inr s' \<longrightarrow>
      map_option qo_pending_jobs (objs s' ob) = Some (qo_pending_jobs obj)) \<and>
    ((\<exists>r \<in> set (qo_pending_jobs obj). reqs s r = None) \<longrightarrow> (\<exists>e. run_pending_calls QE ob s = Inl e))"
proof (intro conjI allI impI)
  fix s' assume "run_pending_calls QE ob s = Inr s'"
  then have "foldE (call_start QE ob) (qo_pending_jobs obj) s = Inr s'"
    using assms by (simp add: run_pending_calls_def obj_get_def)
  from keeps_D [OF keeps_foldE [OF call_start_pending] this]
  show "map_option qo_pending_jobs (objs s' ob) = Some (qo_pending_jobs obj)" using assms by simp
next
  assume "\<exists>r \<in> set (qo_pending_jobs obj). reqs s r = None"
  then obtain r where "r \<in> set (qo_pending_jobs obj)" "reqs s r = None" by blast
  from foldE_dead [OF this] show "\<exists>e. run_pending_calls QE ob s = Inl e"
    using assms by (simp add: run_pending_calls_def obj_get_def)
qed



section \<open>The state of a node\<close>

lemma on_engine_node: 
  assumes "keeps (node_rd a) f" and "on_engine f s = Inr s'"
  shows "node_rd a (mh_engine (client s')) = node_rd a (mh_engine (client s))"
  using assms by (auto simp: on_engine_def on_client_def bindE_eq_Inr dest: keeps_D)

lemma disconnect_engine: "mh_transport_disconnect a s = Inr s' \<Longrightarrow> mh_engine (client s') = mh_engine (client s)"
  by (auto simp: mh_transport_disconnect_def state_online_to_offline_def object_disconnect_def bindE_eq_Inr
      upd_mh_def on_client_def upd_obj_def)

interpretation mh_node: recover_host "\<lambda>s :: 'sw mh_state. node_rd a (mh_engine (client s))"
    "\<lambda>f. on_client (\<lambda>c. c\<lparr>mh_engine := node_upd a f (mh_engine c)\<rparr>)"
    "\<lambda>f i from to. on_engine (cape_changing E f i from to)" "mh_call E"
  for a and E :: "'sw env"
proof
  show "node_rd a (mh_engine (client s)) = Inr r \<Longrightarrow>
      node_rd a (mh_engine (client (on_client (\<lambda>c. c\<lparr>mh_engine := node_upd a g (mh_engine c)\<rparr>) s))) = Inr (g r)"
    for s :: "'sw mh_state" and r g
    using node.rd_upd [of a "mh_engine (client s)"] by (simp add: on_client_def)
  show "on_engine (cape_changing E f i x y) s = Inr s' \<Longrightarrow>
      node_rd a (mh_engine (client s')) = node_rd a (mh_engine (client s))" for f i x y and s s' :: "'sw mh_state"
    by (rule on_engine_node [OF node_view.keeps_changing])
  show "node_rd a (mh_engine (client s')) = node_rd a (mh_engine (client s))"
    if "mh_call E f i s = Inr s'" for f i and s s' :: "'sw mh_state"
  proof (cases "f = Node_recover_restart")
    case True
    with that obtain b s1 s2 where s1: "mh_transport_disconnect b s = Inr s1"
      and s2: "on_engine (node_op_history_clear E b) s1 = Inr s2" and s': "on_engine (instance_create E b) s2 = Inr s'"
      unfolding mh_call_def mh_node_recover_restart_def by (auto simp: bindE_eq_Inr)
    show ?thesis
      using on_engine_node [OF node_view.keeps_instance_create s'] on_engine_node [OF node_view.keeps_history_clear s2]
        disconnect_engine [OF s1] by simp
  next
    case False
    with that show ?thesis
      using on_engine_node [OF node_view.keeps_call] by (simp add: mh_call_def)
  qed
qed

lemma mh_node_set_result:
  assumes "mh_node_state_set E a st s = Inr s'"
  shows "\<exists>r w. node_rd a (mh_engine (client s)) = Inr r \<and> node_rd a (mh_engine (client s')) = Inr (r\<lparr>rc_state := st, rc_sw := w\<rparr>)"
  using mh_node.state_set_result [OF assms [unfolded mh_node_state_set_def]] by blast

end
