(* ===== verification/Mh_Node.thy ===== *)
theory Mh_Node
  imports Matahari
begin

text \<open>
  What the Matahari transport does for a node: when heartbeats count as steady, what \<open>check_state\<close> makes of
  them, what an operation sends, and who holds the operation after its answer.
\<close>

section \<open>Heartbeats\<close>

definition hb_run :: "(nat \<times> u32) list \<Rightarrow> matahari \<Rightarrow> matahari" where
  "hb_run hs mh = fold (\<lambda>(now, seq). heartbeat_step now seq) hs mh"

text \<open>The heartbeats that may follow one with number \<open>n0\<close> at time \<open>t0\<close>; the numbers wrap around.\<close>

fun steady :: "nat \<Rightarrow> u32 \<Rightarrow> (nat \<times> u32) list \<Rightarrow> bool" where
  "steady t0 n0 [] = True"
| "steady t0 n0 ((now, seq) # hs) \<longleftrightarrow> seq \<le> n0 + 1 \<and> now - t0 \<le> MH_HEALTHCHECK_TIMEOUT \<and> steady now seq hs"

lemma heartbeat_ok:
  assumes "mh_hb_state mh = HEARTBEAT_OK"
  shows "mh_hb_state (heartbeat_step now seq mh) = HEARTBEAT_OK \<longleftrightarrow>
     seq \<le> mh_last_sequence mh + 1 \<and> now - gt_start (mh_last_heartbeat mh) \<le> MH_HEALTHCHECK_TIMEOUT"
    and "mh_hb_state (heartbeat_step now seq mh) = HEARTBEAT_OK \<Longrightarrow>
     mh_last_sequence (heartbeat_step now seq mh) = seq \<and> gt_start (mh_last_heartbeat (heartbeat_step now seq mh)) = now"
  using assms
  by (auto simp: heartbeat_step_def g_timer_stop_def g_timer_start_def g_timer_elapsed_def Let_def)

lemma hb_run_Cons: "hb_run ((now, seq) # hs) mh = hb_run hs (heartbeat_step now seq mh)"
  by (simp add: hb_run_def)

lemma hb_run_Nil [simp]: "hb_run [] mh = mh"
  by (simp add: hb_run_def)

text \<open>
  C29. A node whose last heartbeat was in order stays in order throughout a series of heartbeats exactly when
  each of them has at most the next number, modulo the width of the counter, and follows within 20 seconds
  of the one before.
\<close>

theorem heartbeats_steady:
  assumes "mh_hb_state mh = HEARTBEAT_OK"
  shows "(\<forall>n < Suc (length hs). mh_hb_state (hb_run (take n hs) mh) = HEARTBEAT_OK) \<longleftrightarrow>
     steady (gt_start (mh_last_heartbeat mh)) (mh_last_sequence mh) hs"
  using assms
proof (induction hs arbitrary: mh)
  case (Cons h hs)
  obtain now seq where h: "h = (now, seq)" by force
  let ?mh = "heartbeat_step now seq mh"
  have split: "(\<forall>n < Suc (length (h # hs)). mh_hb_state (hb_run (take n (h # hs)) mh) = HEARTBEAT_OK) \<longleftrightarrow>
      (\<forall>n < Suc (length hs). mh_hb_state (hb_run (take n hs) ?mh) = HEARTBEAT_OK)"
    using Cons.prems unfolding h by (simp only: list.size add_Suc_right add_0_right All_less_Suc2 take_0 take_Suc_Cons
      hb_run_Nil hb_run_Cons) simp
  show ?case
  proof (cases "mh_hb_state ?mh = HEARTBEAT_OK")
    case True
    with Cons.IH [OF True] heartbeat_ok [OF Cons.prems, of now seq] show ?thesis
      unfolding split unfolding h by simp
  next
    case False
    then show ?thesis
      unfolding split using heartbeat_ok(1) [OF Cons.prems, of now seq] by (auto simp: h intro: exI [of _ 0])
  qed
qed simp

theorem heartbeats_steady_witness:
  "mh_hb_state (hb_run [(5000000, 4294967295), (10000000, 0), (30000000, 1)]
     \<lparr>mh_node = 0, mh_name = ''web'', mh_uuid = ''u1'', mh_hb_state = HEARTBEAT_OK, mh_last_sequence = 4294967294,
      mh_last_heartbeat = \<lparr>gt_start = 0, gt_end = None\<rparr>, mh_host = 0, mh_serv = 1, mh_rsc = 2, mh_timer = 1\<rparr>)
   = HEARTBEAT_OK"
proof -
  let ?mh = "\<lparr>mh_node = 0, mh_name = ''web'', mh_uuid = ''u1'', mh_hb_state = HEARTBEAT_OK, mh_last_sequence = 4294967294,
      mh_last_heartbeat = \<lparr>gt_start = 0, gt_end = None\<rparr>, mh_host = 0, mh_serv = 1, mh_rsc = 2, mh_timer = 1\<rparr>"
  let ?hs = "[(5000000, 4294967295), (10000000, 0), (30000000, 1)] :: (nat \<times> u32) list"
  have "mh_hb_state ?mh = HEARTBEAT_OK" by simp
  from heartbeats_steady [OF this, of ?hs]
  have "\<forall>n < Suc (length ?hs). mh_hb_state (hb_run (take n ?hs) ?mh) = HEARTBEAT_OK"
    by (simp add: MH_HEALTHCHECK_TIMEOUT_def)
  from this [rule_format, of "length ?hs"] show ?thesis by simp
qed

section \<open>The state of the node\<close>

definition alive :: "nat \<Rightarrow> matahari \<Rightarrow> bool" where
  "alive now mh \<longleftrightarrow> mh_hb_state mh = HEARTBEAT_OK \<and> \<not> late now mh"

definition reachable :: "matahari \<Rightarrow> 'sw mh_state \<Rightarrow> bool" where
  "reachable mh s \<longleftrightarrow> mh_hb_state mh = HEARTBEAT_OK \<and> is_connected (mh_rsc mh) s \<and>
     is_connected (mh_serv mh) s \<and> is_connected (mh_host mh) s"

definition next_node_state :: "nat \<Rightarrow> matahari \<Rightarrow> 'sw mh_state \<Rightarrow> recover_state \<Rightarrow> recover_state" where
  "next_node_state now mh s st =
     (if st = RECOVER_STATE_RUNNING then if alive now mh then RECOVER_STATE_RUNNING else RECOVER_STATE_FAILED
      else if reachable mh s then RECOVER_STATE_RUNNING else st)"

lemma engine_of_client_upd [simp]:
  "mh_engine (client (upd_mh m f s)) = mh_engine (client s)"
  "mh_engine (client (hb_timer_add m s)) = mh_engine (client s)"
  by (simp_all add: upd_mh_def on_client_def hb_timer_add_def Let_def)

lemma node_rd_asm: "asms e a = Some x \<Longrightarrow> node_rd a e = Inr (a_recover x)"
  by (simp add: node_rd_def asm_get_def)

text \<open>
  C21. What a check of the node decides: a running node is failed exactly when its last heartbeat was out of
  order or is more than 20 seconds old; a node that is not running runs exactly when its heartbeats are in
  order and all of its three remote objects are connected. The rest of the node's failure bookkeeping but
  the stopwatch stays.
\<close>

theorem check_state_decides:
  assumes "check_state E now m s = Inr s'" and "mhs (client s) m = Some mh"
    and "asms (mh_engine (client s)) (mh_node mh) = Some x"
  shows "\<exists>w. node_rd (mh_node mh) (mh_engine (client s')) =
     Inr ((a_recover x)\<lparr>rc_state := next_node_state now mh s (rc_state (a_recover x)), rc_sw := w\<rparr>)"
proof -
  have rd: "node_rd (mh_node mh) (mh_engine (client s)) = Inr (a_recover x)" using assms(3) by (rule node_rd_asm)
  have same: "\<exists>w. a_recover x = (a_recover x)\<lparr>rc_state := rc_state (a_recover x), rc_sw := w\<rparr>"
    by (rule exI [of _ "rc_sw (a_recover x)"]) simp
  have set: "\<exists>w. node_rd (mh_node mh) (mh_engine (client t)) = Inr ((a_recover x)\<lparr>rc_state := st, rc_sw := w\<rparr>)"
    if "mh_node_state_set E (mh_node mh) st u = Inr t" and "mh_engine (client u) = mh_engine (client s)" for st t u
    using mh_node_set_result [OF that(1)] rd that(2) by auto
  show ?thesis
  proof (cases "rc_state (a_recover x) = RECOVER_STATE_RUNNING")
    case True
    show ?thesis
    proof (cases "alive now mh")
      case True
      with \<open>rc_state _ = _\<close> assms have "s' = s"
        by (auto simp: check_state_def mh_get_def heap_defs alive_def Let_def late_def)
      with \<open>rc_state _ = _\<close> True rd show ?thesis using same by (simp add: next_node_state_def)
    next
      case False
      with \<open>rc_state _ = _\<close> assms have "mh_node_state_set E (mh_node mh) RECOVER_STATE_FAILED
          (if late now mh then upd_mh m (\<lambda>mh. mh\<lparr>mh_hb_state := HEARTBEAT_NOT_RECEIVED\<rparr>) s else s) = Inr s'"
        by (auto simp: check_state_def mh_get_def heap_defs alive_def Let_def)
      from set [OF this] show ?thesis using \<open>rc_state _ = _\<close> False by (simp add: next_node_state_def)
    qed
  next
    case False
    show ?thesis
    proof (cases "reachable mh s")
      case True
      with False assms obtain t where t: "mh_node_state_set E (mh_node mh) RECOVER_STATE_RUNNING s = Inr t"
        and "s' = hb_timer_add m t"
        by (auto simp: check_state_def mh_get_def heap_defs reachable_def bindE_eq_Inr)
      with set [OF t] True False show ?thesis by (simp add: next_node_state_def)
    next
      case not: False
      with False assms have "s' = s"
        by (auto simp: check_state_def mh_get_def heap_defs reachable_def)
      with not False rd show ?thesis using same by (simp add: next_node_state_def)
    qed
  qed
qed

text \<open>The node of the concrete session with its agent connected and a first heartbeat.\<close>

definition demo_mh_ready :: "sw_list mh_state" where
  "demo_mh_ready =
     (let s = upd_mh 0 (heartbeat_step 0 1) demo_mh_start
      in s\<lparr>objs := (\<lambda>ob. map_option (\<lambda>obj. obj\<lparr>qo_connected := True, qo_qa := Some 0, qo_qmf_data :=
            Some \<lparr>qd_schema = ''Services'', qd_addr = ''addr'', qd_properties = []\<rparr>\<rparr>) (objs s ob)),
           agents := [0 \<mapsto> \<lparr>qa_name = ''web'', qa_outstanding = [], qa_objects = [0, 1, 2]\<rparr>], next_agent := 1\<rparr>)"

lemmas demo_mh_defs = demo_mh_ready_def demo_mh_start_def mh_transport_connect_def matahari_new_def
  demo_mh_init_def Let_def heap_defs demo_state_defs qmf_object_add_def mh_object_def on_client_def upd_mh_def
  heartbeat_step_def g_timer_start_def g_timer_stop_def

lemma demo_mh_ready_simps [simp]:
  "mhs (client demo_mh_ready) 0 = Some (heartbeat_step 0 1 \<lparr>mh_node = 0, mh_name = ''web'', mh_uuid = ''u1'',
     mh_hb_state = HEARTBEAT_INIT, mh_last_sequence = 0, mh_last_heartbeat = \<lparr>gt_start = 0, gt_end = None\<rparr>,
     mh_host = 0, mh_serv = 1, mh_rsc = 2, mh_timer = 0\<rparr>)"
  "asms (mh_engine (client demo_mh_ready)) 0 =
     Some (demo_node\<lparr>a_recover := (a_recover demo_node)\<lparr>rc_state := RECOVER_STATE_STOPPED\<rparr>\<rparr>)"
  "ops (mh_engine (client demo_mh_ready)) 0 = Some demo_op"
  "agents demo_mh_ready 0 = Some \<lparr>qa_name = ''web'', qa_outstanding = [], qa_objects = [0, 1, 2]\<rparr>"
  by (simp_all add: demo_mh_defs)

theorem check_state_decides_witness:
  "\<exists>s' w. check_state demo_env 1000000 0 demo_mh_ready = Inr s' \<and>
     node_rd 0 (mh_engine (client s')) = Inr ((a_recover demo_node)\<lparr>rc_state := RECOVER_STATE_RUNNING, rc_sw := w\<rparr>)"
proof -
  have "\<exists>s'. check_state demo_env 1000000 0 demo_mh_ready = Inr s'"
    by (simp add: check_state_def mh_get_def is_connected_def mh_node_state_set_def recover_state_set_def demo_mh_defs demo_env_def
      node_rd_def node_upd_def cape_changing_def mh_call_def node_state_change_event_def event_send_def
      on_engine_def loop_job_add_def schedule_processing_def node_update_addr_info_def qb_keys_def qb_map_get_def)
  then obtain s' where s': "check_state demo_env 1000000 0 demo_mh_ready = Inr s'" by blast
  have "is_connected 0 demo_mh_ready" "is_connected 1 demo_mh_ready" "is_connected 2 demo_mh_ready"
    by (simp_all add: demo_mh_defs is_connected_def)
  with check_state_decides [OF s' demo_mh_ready_simps(1)] s' show ?thesis
    by (simp add: next_node_state_def reachable_def heartbeat_step_def)
qed

section \<open>Operations\<close>

text \<open>The object an operation is sent to, its method and its arguments.\<close>

definition action_object :: "matahari \<Rightarrow> pe_operation \<Rightarrow> obj_ptr" where
  "action_object mh op = (if op_rclass op = ''lsb'' then mh_serv mh else mh_rsc mh)"

definition action_method :: "pe_operation \<Rightarrow> string" where
  "action_method op =
     (if op_rclass op = ''lsb'' then if op_method op = ''monitor'' then ''status'' else op_method op
      else if op_method op = ''monitor'' then ''monitor'' else ''invoke'')"

definition action_args :: "pe_operation \<Rightarrow> variant_map" where
  "action_args op = (if op_rclass op = ''lsb'' then lsb_args op else rsc_args op)"

lemma get_put_all:
  "qb_map_get (fold (\<lambda>n. qb_map_put n (g n)) ns l) n = (if n \<in> set ns then Some (g n) else qb_map_get l n)"
  by (induction ns arbitrary: l) (auto simp: qb_map_get_put)



section \<open>References of an operation\<close>

text \<open>
  C38. The answer to a one-shot operation that the policy engine and the call hold: a response of the agent
  releases it, but after a time-out, an exception or a lost agent the reference of the call is never given
  back and the operation stays allocated.
\<close>

theorem mh_answer_releases:
  assumes "resource_method_response E p args rc c = Inr c'" and "ops (mh_engine c) p = Some op"
    and "op_refcount op = 2" and "op_interval op = 0"
    and "op_target op (mh_engine c) = Inr (a, x, Some r)" and "rscs (mh_engine c) r = Some y" and "rsc_wired r y"
  shows "ops (mh_engine c') p =
     (if rc = RPC_OK then None else Some (op\<lparr>op_times_executed := op_times_executed op + 1, op_refcount := 1\<rparr>))"
proof -
  have one: "ops e p = Some (op\<lparr>op_times_executed := op_times_executed op + 1, op_refcount := 1\<rparr>)"
    if "resource_action_completed E p ec (mh_engine c) = Inr e" for ec e
    using completed_one_shot [OF that assms(2,3) _ assms(5-7)] assms(4) by simp
  show ?thesis
  proof (cases "rc = RPC_OK")
    case True
    with assms(1) obtain ec e e' where e: "resource_action_completed E p ec (mh_engine c) = Inr e"
      and "pe_resource_unref p e = Inr e'" and "mh_engine c' = e'"
      by (auto simp: resource_method_response_def bindE_eq_Inr)
    with True unref_result [OF this(2) one [OF e]] show ?thesis by simp
  next
    case False
    with assms(1) obtain e where "resource_action_completed E p OCF_UNKNOWN_ERROR (mh_engine c) = Inr e" "mh_engine c' = e"
      by (auto simp: resource_method_response_def bindE_eq_Inr)
    with False one show ?thesis by simp
  qed
qed

theorem mh_answer_releases_witness:
  "\<exists>c'. resource_method_response demo_env 0 [] RPC_TIMEOUT
       ((client demo_mh_ready)\<lparr>mh_engine := demo_with (demo_op\<lparr>op_refcount := 2\<rparr>)\<rparr>) = Inr c' \<and>
     ops (mh_engine c') 0 = Some (demo_op\<lparr>op_times_executed := 1, op_refcount := 1\<rparr>)"
proof -
  let ?c = "(client demo_mh_ready)\<lparr>mh_engine := demo_with (demo_op\<lparr>op_refcount := 2\<rparr>)\<rparr>"
  have "\<exists>e. resource_action_completed demo_env 0 OCF_UNKNOWN_ERROR (demo_with (demo_op\<lparr>op_refcount := 2\<rparr>)) = Inr e"
    by (simp add: completion_eval demo_with_def demo_state_defs demo_env_def heap_defs qb_map_get_def Let_def
      loop_job_add_def pe_resource_is_hard_error_def new_history_def resource_recover_restart_def)
  then obtain c' where c': "resource_method_response demo_env 0 [] RPC_TIMEOUT ?c = Inr c'"
    by (auto simp: resource_method_response_def)
  have "ops (mh_engine ?c) 0 = Some (demo_op\<lparr>op_refcount := 2\<rparr>)" by simp
  from mh_answer_releases [OF c' this, of 0 demo_node 0 demo_rsc] c' show ?thesis by (simp add: demo_op_def)
qed

end
