(* ===== verification/Mh_Loop.thy ===== *)
theory Mh_Loop
  imports Mh_Node Ssh_Quiet
begin

text \<open>
  The engine linked with \<^verbatim>\<open>matahari.cpp\<close> (the programs \<^verbatim>\<open>cape-mh\<close>): its functions that call the transport, over
  the state that holds the engine, the Matahari objects and the QMF session, and the event loop over all
  jobs, timers and events of this program. Shared by the proofs over it: what the operations of the engine
  leave alone, and invariants of a client that the QMF session keeps.
\<close>

section \<open>The functions of the engine that call the transport\<close>

definition at_engine :: "('sw cape \<Rightarrow> 'sw cape) \<Rightarrow> 'sw mh_state \<Rightarrow> 'sw mh_state" where
  "at_engine f = on_client (\<lambda>c. c\<lparr>mh_engine := f (mh_engine c)\<rparr>)"

abbreviation engine :: "'sw mh_state \<Rightarrow> 'sw cape" where
  "engine s \<equiv> mh_engine (client s)"

definition mh_resource_monitor_execute :: "'sw env \<Rightarrow> qmf_env \<Rightarrow> op_ptr \<Rightarrow> 'sw mh_state \<Rightarrow> 'sw mh_state res" where
  "mh_resource_monitor_execute E QE p s =
     bindE (op_get (engine s) p) (\<lambda>op.
     bindE (op_target op (engine s)) (\<lambda>(a, assembly, _).
     if rc_state (a_recover assembly) \<noteq> RECOVER_STATE_RUNNING
     then on_engine (resource_action_completed E p OCF_UNKNOWN_ERROR) s
     else mh_transport_resource_action E QE a p s))"

definition mh_recurring_monitor_start :: "'sw env \<Rightarrow> qmf_env \<Rightarrow> op_ptr \<Rightarrow> 'sw mh_state \<Rightarrow> 'sw mh_state res" where
  "mh_recurring_monitor_start E QE p s =
     bindE (op_get (engine s) p) (\<lambda>op.
     bindE (derefE NullDeref (op_resource op)) (\<lambda>r.
     bindE (rsc_get (engine s) r) (\<lambda>rsc.
     if \<not> loop_timer_is_running (r_monitor_timer rsc) (engine s) then
       bindE (on_engine (pe_resource_ref p) s) (\<lambda>s.
       mh_resource_monitor_execute E QE p (at_engine (upd_rsc r (\<lambda>x. x\<lparr>r_monitor_op := Some p\<rparr>)) s))
     else
       bindE (on_engine (pe_resource_completed E p (word_of_int OCF_OK)) s) (\<lambda>s.
       on_engine (pe_resource_unref p) s))))"

definition mh_resource_execute_cb :: "'sw env \<Rightarrow> qmf_env \<Rightarrow> op_ptr \<Rightarrow> 'sw mh_state \<Rightarrow> 'sw mh_state res" where
  "mh_resource_execute_cb E QE p s =
     bindE (op_get (engine s) p) (\<lambda>op.
     bindE (op_target op (engine s)) (\<lambda>(a, assembly, r).
     if rc_state (a_recover assembly) \<noteq> RECOVER_STATE_RUNNING
     then on_engine (resource_action_completed E p OCF_UNKNOWN_ERROR) s
     else
       let s = at_engine (upd_op p (\<lambda>op. op\<lparr>op_resource := r\<rparr>)) s in
       if op_method op = ''monitor'' then
         (if strstr (op_rname op) (op_hostname op) then
            bindE (assertE (r \<noteq> None) s) (\<lambda>s.
            if op_interval op > 0 then mh_recurring_monitor_start E QE p s
            else mh_resource_monitor_execute E QE p s)
          else
            bindE (on_engine (pe_resource_completed E p (word_of_int OCF_NOT_RUNNING)) s) (\<lambda>s.
            on_engine (pe_resource_unref p) s))
       else if op_method op = ''start'' then mh_transport_resource_action E QE a p s
       else if op_method op = ''stop'' then
         bindE (derefE NullDeref r) (\<lambda>rp.
         bindE (rsc_get (engine s) rp) (\<lambda>rsc.
         bindE (case r_monitor_op rsc of None \<Rightarrow> Inr s | Some m \<Rightarrow> on_engine (recurring_monitor_stop m) s) (\<lambda>s.
         mh_transport_resource_action E QE a p s)))
       else if op_method op = ''delete'' then on_engine (op_history_delete E p) s
       else Inl AssertFail))"

text \<open>Each call that a transition makes has an environment of its own, \<open>QE p\<close> for the operation \<open>p\<close>.\<close>

definition mh_exec_rsc_action ::
  "'sw env \<Rightarrow> (op_ptr \<Rightarrow> qmf_env) \<Rightarrow> graph_ptr \<Rightarrow> nat \<Rightarrow> 'sw mh_state \<Rightarrow> (bool \<times> 'sw mh_state) res" where
  "mh_exec_rsc_action E QE g i s =
     bindE (graph_get (engine s) g) (\<lambda>gr.
     let act = g_actions gr ! i in
     if act_operation act = ''probe_complete'' then Inr (True, at_engine (graph_confirm E g i) s)
     else (case act_rsc act of
        None \<Rightarrow> Inr (False, s)
      | Some rsc \<Rightarrow>
          let p = next_op (engine s);
              s = at_engine (\<lambda>e. e\<lparr>ops := (ops e)(p := Some (pe_operation_of E g gr i act rsc)), next_op := Suc p\<rparr>) s
          in bindE (mh_resource_execute_cb E (QE p) p s) (\<lambda>s. Inr (True, s))))"

text \<open>The table \<open>graph_exec_fns\<close>; only actions on resources reach the transport.\<close>

definition mh_graph_exec_fns ::
  "'sw env \<Rightarrow> (op_ptr \<Rightarrow> qmf_env) \<Rightarrow> graph_ptr \<Rightarrow> action_kind \<times> nat \<Rightarrow> 'sw mh_state \<Rightarrow> (bool \<times> 'sw mh_state) res" where
  "mh_graph_exec_fns E QE g x s =
     (case x of
        (Rsc_action, i) \<Rightarrow> mh_exec_rsc_action E QE g i s
      | (Pseudo_action, i) \<Rightarrow> bindE (exec_pseudo_action E g i (engine s)) (\<lambda>(b, e). Inr (b, at_engine (\<lambda>_. e) s))
      | (Crmd_action, i) \<Rightarrow> bindE (exec_crmd_action E g i (engine s)) (\<lambda>(b, e). Inr (b, at_engine (\<lambda>_. e) s))
      | (Stonith_action, i) \<Rightarrow> bindE (exec_stonith_action E g i (engine s)) (\<lambda>(b, e). Inr (b, at_engine (\<lambda>_. e) s)))"

definition mh_process_next_job ::
  "'sw env \<Rightarrow> (op_ptr \<Rightarrow> qmf_env) \<Rightarrow> graph_ptr \<Rightarrow> 'sw mh_state \<Rightarrow> 'sw mh_state res" where
  "mh_process_next_job E QE g s =
     (if \<not> graph_updated (engine s) then Inr (at_engine (loop_job_add (Process_next_job g)) s)
      else
        let s = at_engine (\<lambda>e. e\<lparr>graph_updated := False\<rparr>) s in
        bindE (graph_get (engine s) g) (\<lambda>gr.
        bindE (foldE (\<lambda>x s. bindE (mh_graph_exec_fns E QE g x s) (\<lambda>(_, s). Inr s)) (graph_fires (pcmk E) gr) s) (\<lambda>s.
        bindE (graph_get (engine s) g) (\<lambda>gr.
        let graph_rc = graph_status (pcmk E) gr in
        if graph_rc = transition_active \<or> graph_rc = transition_pending
        then Inr (at_engine (loop_job_add (Process_next_job g)) s)
        else Inr (at_engine (\<lambda>e. e\<lparr>graphs := (graphs e)(g := None), working_set := False\<rparr>) s)))))"

definition mh_instance_state_completion ::
  "'sw env \<Rightarrow> nat \<Rightarrow> string \<Rightarrow> string option \<Rightarrow> asm_ptr \<Rightarrow> 'sw mh_state \<Rightarrow> 'sw mh_state res" where
  "mh_instance_state_completion E now state address a s =
     bindE (asm_get (engine s) a) (\<lambda>_.
     if state = ''ACTIVE'' then
       bindE (derefE NullDeref address) (\<lambda>addr.
       bindE (mh_transport_connect now a (at_engine (upd_asm a (\<lambda>x. x\<lparr>a_address := Some addr\<rparr>)) s)) (\<lambda>(_, s).
       Inr s))
     else
       bindE (mh_node_state_set E a RECOVER_STATE_UNKNOWN s) (\<lambda>s.
       Inr (at_engine (\<lambda>e. snd (loop_timer_add (Instance_state_poll a) (PENDING_TIMEOUT * QB_TIME_NS_IN_MSEC) e)) s)))"

definition mh_my_instance_state_get :: "'sw env \<Rightarrow> nat \<Rightarrow> asm_ptr \<Rightarrow> 'sw mh_state \<Rightarrow> 'sw mh_state res" where
  "mh_my_instance_state_get E now a s =
     bindE (asm_get (engine s) a) (\<lambda>assembly.
     bindE (instance_state_get (cloud E) (a_instance_id assembly)) (\<lambda>answer.
     case answer of
       None \<Rightarrow> Inr s
     | Some (state, address) \<Rightarrow> mh_instance_state_completion E now state address a s))"

definition mh_cape_exit :: "'sw env \<Rightarrow> 'sw mh_state \<Rightarrow> 'sw mh_state res" where
  "mh_cape_exit E s =
     foldE (\<lambda>key s. bindE (derefE NullDeref (qb_map_get (assembly_map (engine s)) key)) (\<lambda>a. mh_transport_disconnect a s))
       (map_order E (qb_keys (assembly_map (engine s)))) s"

section \<open>The event loop\<close>

text \<open>The jobs and timers of the ssh transport do not exist in this program.\<close>

definition mh_run_job :: "'sw env \<Rightarrow> (op_ptr \<Rightarrow> qmf_env) \<Rightarrow> nat \<Rightarrow> job \<Rightarrow> 'sw mh_state \<Rightarrow> 'sw mh_state res" where
  "mh_run_job E QE now j s =
     (case j of
        Process_job \<Rightarrow> on_engine (process_job E) s
      | Process_next_job g \<Rightarrow> mh_process_next_job E QE g s
      | My_instance_state_get a \<Rightarrow> mh_my_instance_state_get E now a s
      | _ \<Rightarrow> Inl BadPtr)"

definition mh_fire_timer :: "'sw env \<Rightarrow> qmf_env \<Rightarrow> nat \<Rightarrow> timer_fn \<Rightarrow> 'sw mh_state \<Rightarrow> 'sw mh_state res" where
  "mh_fire_timer E QE now f s =
     (case f of
        Resource_monitor_execute p \<Rightarrow> mh_resource_monitor_execute E QE p s
      | Instance_state_poll a \<Rightarrow> mh_my_instance_state_get E now a s
      | _ \<Rightarrow> Inl BadPtr)"

definition hb_timer_fired :: "timer_handle \<times> mh_ptr \<Rightarrow> 'sw mh_state \<Rightarrow> 'sw mh_state" where
  "hb_timer_fired t = on_client (\<lambda>c. c\<lparr>hb_timers := remove1 t (hb_timers c)\<rparr>)"

inductive mh_loop :: "'sw mh_state \<Rightarrow> 'sw mh_state \<Rightarrow> bool" where
  loop_job: "j \<in> set (jobs (engine s)) \<Longrightarrow>
    mh_run_job E QE now j (at_engine (\<lambda>e. e\<lparr>jobs := remove1 j (jobs e)\<rparr>) s) = Inr s' \<Longrightarrow> mh_loop s s'"
| loop_timer: "t \<in> set (timers (engine s)) \<Longrightarrow>
    mh_fire_timer E QE now (tm_fn t) (at_engine (\<lambda>e. e\<lparr>timers := remove1 t (timers e)\<rparr>) s) = Inr s' \<Longrightarrow> mh_loop s s'"
| loop_heartbeat: "(h, m) \<in> set (hb_timers (client s)) \<Longrightarrow>
    heartbeat_check_tmo E now m (hb_timer_fired (h, m) s) = Inr s' \<Longrightarrow> mh_loop s s'"
| loop_event: "mux_process_event QE (resource_method_response E) (connection_event_handler E now)
      (host_event_handler E now) ev s = Inr s' \<Longrightarrow> mh_loop s s'"
| loop_timeout: "(r, n) \<in> set (call_timers s) \<Longrightarrow>
    method_call_tmo (resource_method_response E) r (s\<lparr>call_timers := remove1 (r, n) (call_timers s)\<rparr>) = Inr s' \<Longrightarrow>
    mh_loop s s'"
| loop_pending: "ob \<in> set (pending_runs s) \<Longrightarrow>
    run_pending_calls QE ob (s\<lparr>pending_runs := remove1 ob (pending_runs s)\<rparr>) = Inr s' \<Longrightarrow> mh_loop s s'"

inductive_cases mh_loopE: "mh_loop s s'"

text \<open>The program after its configuration was loaded: no session yet.\<close>

definition mh_program :: "'sw cape \<Rightarrow> 'sw mh_state" where
  "mh_program e =
     \<lparr>reqs = (\<lambda>_. None), next_req = 0, objs = (\<lambda>_. None), agents = (\<lambda>_. None), next_agent = 0,
      mux_objects = [], mux_agents = [], call_timers = [], pending_runs = [], sent_calls = [], responses = [],
      client = \<lparr>mh_engine = e, mhs = (\<lambda>_. None), next_mh = 0, next_obj = 0, mh_owner = (\<lambda>_. 0), hb_timers = [],
        next_hb = 0, mh_mux = None\<rparr>\<rparr>"

section \<open>What the operations of the engine leave alone\<close>

text \<open>A view of the engine together with the transport's own data.\<close>

definition mh_rest :: "'sw mh_client \<Rightarrow> _" where
  "mh_rest c = (mhs c, next_mh c, hb_timers c, next_hb c)"

definition with_rest :: "('sw cape \<Rightarrow> 'v) \<Rightarrow> 'sw mh_state \<Rightarrow> _" where
  "with_rest V s = (V (engine s), mh_rest (client s))"

lemma with_rest_cong: "client s' = client s \<Longrightarrow> with_rest V s' = with_rest V s"
  by (simp add: with_rest_def)

lemma engine_at_engine [simp]:
  "engine (at_engine f s) = f (engine s)" "mh_rest (client (at_engine f s)) = mh_rest (client s)"
  by (simp_all add: at_engine_def on_client_def mh_rest_def)

lemma at_engine_again [simp]: "at_engine f (at_engine g s) = at_engine (\<lambda>e. f (g e)) s"
  by (simp add: at_engine_def on_client_def)

lemma with_rest_at_engine: "V (f (engine s)) = V (engine s) \<Longrightarrow> with_rest V (at_engine f s) = with_rest V s"
  by (simp add: with_rest_def)

lemma on_engine_at: "on_engine f s = bindE (f (engine s)) (\<lambda>e. Inr (at_engine (\<lambda>_. e) s))"
  by (simp add: on_engine_def at_engine_def)

lemma keeps_with_rest: "keeps V f \<Longrightarrow> keeps (with_rest V) (on_engine f)"
  unfolding on_engine_at by (rule keeps_I) (auto simp: okE_def bindE_eq_Inr with_rest_def dest: keeps_D)

text \<open>A call leaves the client alone.\<close>

lemma call_start_client: "keeps client (call_start QE ob r)"
  unfolding call_start_def call_method_async_def request_ref_def Let_def
  by (rule keeps_I) (auto simp: okE_def bindE_eq_Inr upd_req_def upd_agent_def)

lemma method_call_client: "keeps client (method_call_async QE ob m args u tmo)"
  unfolding method_call_async_def Let_def
  by (rule keeps_I) (auto simp: upd_obj_def upd_req_def intro!: okE_bind_get keeps_okE [OF call_start_client])

lemma method_call_rest: "keeps (with_rest V) (method_call_async QE ob m args u tmo)"
  by (rule keeps_I, rule okE_mono [OF keeps_okE [OF method_call_client]]) (auto intro: with_rest_cong)

context task_view
begin

lemmas rest_on_engine =
  keeps_with_rest [OF keeps_action_completed] keeps_with_rest [OF keeps_ref] keeps_with_rest [OF keeps_unref]
  keeps_with_rest [OF keeps_completed] keeps_with_rest [OF keeps_monitor_stop] keeps_with_rest [OF keeps_history_delete]

lemma keeps_mh_action: "keeps (with_rest V) (mh_transport_resource_action E QE a p)"
  unfolding mh_transport_resource_action_def resource_action_def Let_def
  by (rule keeps_I) (intro okE_bind_get okE_if keep_bind rest_on_engine [THEN keeps_okE] keeps_okE [OF method_call_rest]; simp)

lemma keeps_mh_monitor_execute: "keeps (with_rest V) (mh_resource_monitor_execute E QE p)"
  unfolding mh_resource_monitor_execute_def
  by (rule keeps_I) (intro okE_bind_get okE_prod okE_if rest_on_engine [THEN keeps_okE] keeps_okE [OF keeps_mh_action]; simp)

lemma keeps_mh_monitor_start: "keeps (with_rest V) (mh_recurring_monitor_start E QE p)"
  unfolding mh_recurring_monitor_start_def
  by (rule keeps_I) (intro okE_bind_get okE_if keep_bind rest_on_engine [THEN keeps_okE] keeps_okE [OF keeps_mh_monitor_execute];
      simp add: with_rest_at_engine)

lemma keeps_mh_execute_cb: "keeps (with_rest V) (mh_resource_execute_cb E QE p)"
  unfolding mh_resource_execute_cb_def
  by (rule keeps_I) (intro okE_intros okE_bind_get [where m = "op_target _ _"] okE_bind_get [where m = "op_get _ _"] okE_bind_get [where m = "rsc_get _ _"] keep_bind
      rest_on_engine [THEN keeps_okE] keeps_okE [OF keeps_mh_monitor_execute]
      keeps_okE [OF keeps_mh_monitor_start] keeps_okE [OF keeps_mh_action]; simp add: with_rest_at_engine)

lemma keeps_mh_fire: "okE (\<lambda>(b, u). with_rest V u = with_rest V s) (mh_graph_exec_fns E QE g x s)"
proof (cases x)
  case (Pair k i)
  have rsc: "okE (\<lambda>(b, u). with_rest V u = with_rest V s) (mh_exec_rsc_action E QE g i s)"
    unfolding mh_exec_rsc_action_def
    by (intro okE_intros okE_bind_get [where m = "graph_get _ _"] okE_bind [where Q = "\<lambda>u. with_rest V u = with_rest V s"]
        keeps_okE [OF keeps_mh_execute_cb]; simp add: with_rest_at_engine)
  show ?thesis
    by (cases k) (use rsc in \<open>auto simp: mh_graph_exec_fns_def Pair exec_pseudo_action_def exec_crmd_action_def exec_stonith_action_def
        okE_def bindE_eq_Inr with_rest_at_engine\<close>)
qed

lemma keeps_mh_fires:
  "keeps (with_rest V) (foldE (\<lambda>x s. bindE (mh_graph_exec_fns E QE g x s) (\<lambda>(_, s). Inr s)) xs)"
  by (intro keeps_foldE keeps_I okE_bind [OF keeps_mh_fire]) auto

lemma keeps_mh_response:
  assumes "resource_method_response E p args rc c = Inr c'"
  shows "V (mh_engine c') = V (mh_engine c) \<and> mh_rest c' = mh_rest c"
  using assms
  by (auto simp: resource_method_response_def bindE_eq_Inr mh_rest_def split: if_splits option.splits
      dest!: keeps_D [OF keeps_action_completed] keeps_D [OF keeps_unref])

end

section \<open>Invariants of a client of QMF\<close>

text \<open>
  A property of the client's data that its handlers keep is kept by everything that the QMF session does.
\<close>

locale qmf_invariant =
  fixes R :: "nat \<Rightarrow> variant_map \<Rightarrow> rpc_result \<Rightarrow> 'c \<Rightarrow> 'c res"
    and N :: "obj_ptr \<Rightarrow> 'c qmf \<Rightarrow> 'c qmf res"
    and V :: "obj_ptr \<Rightarrow> console_event \<Rightarrow> 'c qmf \<Rightarrow> 'c qmf res"
    and I :: "'c \<Rightarrow> bool"
  assumes R_inv: "I c \<Longrightarrow> okE I (R u args rc c)"
    and N_inv: "I (client s) \<Longrightarrow> okE (\<lambda>s. I (client s)) (N ob s)"
    and V_inv: "I (client s) \<Longrightarrow> okE (\<lambda>s. I (client s)) (V ob ev s)"
begin

lemma client_inv: "keeps client f \<Longrightarrow> I (client s) \<Longrightarrow> okE (\<lambda>s. I (client s)) (f s)"
  by (auto simp: keeps_def okE_def)

lemma client_writes [simp]:
  "client (upd_obj ob f s) = client s" "client (upd_req r g s) = client s" "client (upd_agent qa k s) = client s"
  by (simp_all add: upd_obj_def upd_req_def upd_agent_def)

lemma response_client: "I (client s) \<Longrightarrow> okE (\<lambda>s. I (client s)) (method_response R r args rc s)"
  unfolding method_response_def by (intro okE_bind_get okE_if okE_Inl okE_bind [OF R_inv]) auto

lemma unref_client: "I (client s) \<Longrightarrow> okE (\<lambda>s. I (client s)) (request_unref r s)"
  unfolding request_unref_def by (intro okE_bind_get okE_if) auto

lemma tmo_client: "I (client s) \<Longrightarrow> okE (\<lambda>s. I (client s)) (method_call_tmo R r s)"
  unfolding method_call_tmo_def
  by (intro okE_bind_get [where m = "req_get _ _"] okE_bind [where Q = "\<lambda>s. I (client s)"] okE_if response_client unref_client; simp)

lemma object_event_inv: "I (client s) \<Longrightarrow> okE (\<lambda>s. I (client s)) (object_process_event R V ob ev ar s)"
  unfolding object_process_event_def
  by (intro okE_bind_get [where m = "req_get _ _"] okE_bind_get [where m = "obj_get _ _"] okE_bind_get [where m = "exception_args _"]
      okE_deref okE_bind [where Q = "\<lambda>s. I (client s)"] okE_if response_client unref_client V_inv; simp)

lemma pending_inv: "I (client s) \<Longrightarrow> okE (\<lambda>s. I (client s)) (run_pending_calls E ob s)"
  unfolding run_pending_calls_def
  by (intro okE_bind_get client_inv [OF keeps_foldE [OF call_start_client]])

lemma offer_inv: "I (client s) \<Longrightarrow> okE (\<lambda>s. I (client s)) (mux_offer E N name ob s)"
proof -
  assume I: "I (client s)"
  have N': "okE (\<lambda>s. I (client s)) (N ob u)" if "client u = client s" for u
    using N_inv [of u ob] I that by simp
  have "okE (\<lambda>(b, u). I (client u)) (object_connect E N ob name s)"
    unfolding object_connect_def Let_def
    by (intro okE_bind_get [where m = "obj_get _ _"] okE_bind_get [where m = "connect_loop _ _"] okE_if okE_option
        okE_bind [where Q = "\<lambda>s. I (client s)"] N') (simp_all add: I)
  moreover have "okE (\<lambda>s. I (client s)) (agent_add qa ob u)" if "I (client u)" for qa u
    using that unfolding agent_add_def by (intro okE_bind_get) simp
  ultimately show ?thesis
    unfolding mux_offer_def by (elim okE_bind) (auto simp: Let_def split: option.splits)
qed

lemma delete_inv: "I (client s) \<Longrightarrow> okE (\<lambda>s. I (client s)) (agent_delete R qa s)"
  unfolding agent_delete_def object_disconnect_def
  by (intro okE_bind_get [where m = "agent_get _ _"] okE_bind [where Q = "\<lambda>s. I (client s)"] okE_foldE okE_deref response_client
      okE_bind_get [where m = "obj_get _ _"]; simp)

lemma agent_event_inv: "I (client s) \<Longrightarrow> okE (\<lambda>s. I (client s)) (agent_process_event R V qa ev s)"
  unfolding agent_process_event_def
  by (intro okE_bind_get [where m = "agent_get _ _"] okE_bind_get [where m = "req_get _ _"] okE_if okE_option okE_foldE
      okE_bind [OF object_event_inv] object_event_inv; simp)

lemma mux_event_inv: "I (client s) \<Longrightarrow> okE (\<lambda>s. I (client s)) (mux_process_event E R N V ev s)"
  unfolding mux_process_event_def Let_def
  by (intro okE_if okE_option okE_foldE offer_inv delete_inv agent_event_inv; simp)

end

end
