(* ===== verification/Mh_Watch.thy ===== *)
theory Mh_Watch
  imports Mh_Loop
begin

text \<open>
  Nodes, Matahari objects and heartbeat timers belong together, and a node that counts as running is
  watched: a timer is armed that checks its heartbeats. The changes of state of a node, the checks of its
  heartbeats and the events of the QMF session keep this.
\<close>

section \<open>The state and the transport of the nodes\<close>

definition nodes :: "'sw cape \<Rightarrow> asm_ptr \<Rightarrow> (recover_state \<times> mh_ptr option) option" where
  "nodes e a = map_option (\<lambda>x. (rc_state (a_recover x), a_transport x)) (asms e a)"

interpretation nodes: task_view "nodes :: 'sw cape \<Rightarrow> _"
  by unfold_locales
    (auto simp: nodes_def fun_eq_iff rsc_upd_def heap_defs loop_job_add_def loop_job_del_def option.map_comp comp_def)

text \<open>The node and the timer of the Matahari objects.\<close>

definition links :: "'sw mh_client \<Rightarrow> mh_ptr \<Rightarrow> (asm_ptr \<times> timer_handle) option" where
  "links c m = map_option (\<lambda>mh. (mh_node mh, mh_timer mh)) (mhs c m)"

text \<open>
  Nodes and Matahari objects belong to each other, a timer is that of an object, its handle is known to no
  other object, and a running node, unless it is in \<open>B\<close>, has a timer.
\<close>

definition watching :: "asm_ptr set \<Rightarrow> 'sw mh_client \<Rightarrow> bool" where
  "watching B c \<longleftrightarrow>
     (\<forall>a st m. nodes (mh_engine c) a = Some (st, Some m) \<longrightarrow> (\<exists>k. links c m = Some (a, k))) \<and>
     (\<forall>m a k. links c m = Some (a, k) \<longrightarrow> m < next_mh c \<and> k \<le> next_hb c \<and>
        (\<exists>st. nodes (mh_engine c) a = Some (st, Some m)) \<and> (\<forall>m'. (k, m') \<in> set (hb_timers c) \<longrightarrow> m' = m)) \<and>
     (\<forall>h m. (h, m) \<in> set (hb_timers c) \<longrightarrow> 0 < h \<and> h \<le> next_hb c \<and> links c m \<noteq> None) \<and>
     (\<forall>a t. a \<notin> B \<longrightarrow> nodes (mh_engine c) a = Some (RECOVER_STATE_RUNNING, t) \<longrightarrow>
        (\<exists>m h. t = Some m \<and> (h, m) \<in> set (hb_timers c)))"

lemma watchingD:
  assumes "watching B c"
  shows "nodes (mh_engine c) a = Some (st, Some m) \<Longrightarrow> \<exists>k. links c m = Some (a, k)"
    and "links c m = Some (a, k) \<Longrightarrow> m < next_mh c \<and> k \<le> next_hb c \<and> (\<exists>st. nodes (mh_engine c) a = Some (st, Some m))"
    and "links c m = Some (a, k) \<Longrightarrow> (k, m') \<in> set (hb_timers c) \<Longrightarrow> m' = m"
    and "(h, m) \<in> set (hb_timers c) \<Longrightarrow> 0 < h \<and> h \<le> next_hb c \<and> links c m \<noteq> None"
    and "nodes (mh_engine c) a = Some (RECOVER_STATE_RUNNING, t) \<Longrightarrow> a \<notin> B \<Longrightarrow> \<exists>m h. t = Some m \<and> (h, m) \<in> set (hb_timers c)"
  using assms unfolding watching_def by blast+

lemma watching_more: "watching B c \<Longrightarrow> B \<subseteq> C \<Longrightarrow> watching C c"
  unfolding watching_def by blast

lemma watching_cong:
  "nodes (mh_engine c') = nodes (mh_engine c) \<Longrightarrow> mh_rest c' = mh_rest c \<Longrightarrow> watching B c' = watching B c"
  by (simp add: watching_def mh_rest_def links_def)

section \<open>A change of state of a node\<close>

definition calm_engine :: "asm_ptr \<Rightarrow> 'sw cape \<Rightarrow> 'sw cape \<Rightarrow> bool" where
  "calm_engine a e e' \<longleftrightarrow> shape e' = shape e \<and> pe_view e' = pe_view e \<and> (\<forall>b. b \<noteq> a \<longrightarrow> nodes e' b = nodes e b) \<and>
     map_option snd (nodes e' a) = map_option snd (nodes e a)"

lemma calm_refl [simp]: "calm_engine a e e"
  by (simp add: calm_engine_def)

lemma calm_engine_trans: "calm_engine a e e' \<Longrightarrow> calm_engine a e' e'' \<Longrightarrow> calm_engine a e e''"
  by (simp add: calm_engine_def)

lemma calm_same: "shape e' = shape e \<Longrightarrow> pe_view e' = pe_view e \<Longrightarrow> nodes e' = nodes e \<Longrightarrow> calm_engine a e e'"
  by (simp add: calm_engine_def)

lemma calm_node_upd:
  assumes "calm_engine a e e'"
  shows "calm_engine a e (node_upd a (\<lambda>x. x\<lparr>rc_state := st\<rparr>) e')" "calm_engine a e (node_upd a (\<lambda>x. x\<lparr>rc_sw := w\<rparr>) e')"
proof -
  have "nodes (node_upd a f e') b = nodes e' b" if "b \<noteq> a" for b f
    using that by (simp add: nodes_def node_upd_def upd_asm_def)
  moreover have "map_option snd (nodes (node_upd a f e') a) = map_option snd (nodes e' a)" for f
    by (simp add: nodes_def node_upd_def upd_asm_def option.map_comp comp_def)
  ultimately show "calm_engine a e (node_upd a (\<lambda>x. x\<lparr>rc_state := st\<rparr>) e')" "calm_engine a e (node_upd a (\<lambda>x. x\<lparr>rc_sw := w\<rparr>) e')"
    using assms by (simp_all add: calm_engine_def)
qed

text \<open>Handlers that change the engine calmly and nothing else.\<close>

definition calmly :: "asm_ptr \<Rightarrow> 'sw mh_state \<Rightarrow> 'sw mh_state \<Rightarrow> bool" where
  "calmly a s u \<longleftrightarrow> (\<exists>e. calm_engine a (engine s) e \<and> u = at_engine (\<lambda>_. e) s)"

lemma calmly_refl [simp]: "calmly a s s"
  unfolding calmly_def by (rule exI [of _ "engine s"]) (simp add: at_engine_def on_client_def)

lemma calmly_at:
  assumes "calmly a s u" and "\<And>e. calm_engine a (engine s) e \<Longrightarrow> calm_engine a (engine s) (f e)"
  shows "calmly a s (at_engine f u)"
proof -
  from assms(1) obtain e where "calm_engine a (engine s) e" "u = at_engine (\<lambda>_. e) s" unfolding calmly_def by blast
  with assms(2) show ?thesis unfolding calmly_def by (auto intro: exI [of _ "f e"])
qed

lemma calmly_on_engine:
  assumes "calmly a s u" and "keeps shape f" and "keeps pe_view f" and "keeps nodes f"
  shows "okE (calmly a s) (on_engine f u)"
proof (rule okE_I)
  fix v assume "on_engine f u = Inr v"
  then obtain e where e: "f (engine u) = Inr e" "v = at_engine (\<lambda>_. e) u" by (auto simp: on_engine_at bindE_eq_Inr)
  have "calm_engine a (engine u) e" using e(1) assms(2-4) by (blast intro: calm_same keeps_D)
  moreover from assms(1) obtain e' where "calm_engine a (engine s) e'" "u = at_engine (\<lambda>_. e') s" unfolding calmly_def by blast
  ultimately have "calm_engine a (engine s) e \<and> v = at_engine (\<lambda>_. e) s" using e(2) by (auto intro: calm_engine_trans)
  then show "calmly a s v" unfolding calmly_def by blast
qed

lemma calmly_changing: "calmly a s u \<Longrightarrow> okE (calmly a s) (on_engine (cape_changing E f i from to) u)"
  by (rule calmly_on_engine [OF _ shape.keeps_changing pe.keeps_changing nodes.keeps_changing])

lemma mh_state_set_rule:
  fixes s :: "'sw mh_state"
  assumes wired: "wired (engine s)" and calm: "\<And>u. calmly a s u \<Longrightarrow> P u"
    and restart: "\<And>u. calmly a s u \<Longrightarrow> okE P (mh_node_recover_restart E a u)"
  shows "okE P (mh_node_state_set E a st s)"
proof -
  have call: "okE P (mh_call E f i u)"
    if "i = Some a" "f \<in> {Node_recover_restart, Node_recover_escalate}" "calmly a s u" for f i u
    using that calm [OF that(3)] restart [OF that(3)]
    by (auto simp: mh_call_def cape_call_def node_recover_escalate_def on_engine_at at_engine_def on_client_def)
  have wired_rd: "rc_instance x = Some a \<and> restart x = Node_recover_restart \<and> escalate x = Node_recover_escalate"
    if "node_rd a (engine u) = Inr x" "calmly a s u" for u x
  proof -
    have "shape (engine u) = shape (engine s)" using that(2) by (auto simp: calmly_def calm_engine_def)
    from wired_node [OF wired_shape [OF this wired], of a] that(1) show ?thesis
      by (auto simp: node_rd_def asm_get_def bindE_eq_Inr derefE_eq_Inr node_wired_def rc_wired_def)
  qed
  note upd = calmly_at [OF _ calm_node_upd(1)] calmly_at [OF _ calm_node_upd(2)]
  have failed: "okE P (recover_failed (sw_lib E) (clock E) (clock' E) (\<lambda>s. node_rd a (engine s)) (\<lambda>f. at_engine (node_upd a f)) (mh_call E) u)"
    if u: "calmly a s u" for u
    unfolding recover_failed_def
    by (intro okE_intros okE_bind_get [where m = "node_rd _ _"] call upd; simp add: u upd; auto dest: wired_rd [OF _ u])
  show ?thesis
    unfolding mh_node_state_set_def recover_state_set_def at_engine_def [symmetric]
    by (intro okE_intros okE_bind_get [where m = "node_rd _ _"] okE_bind [where Q = "calmly a s"] calmly_changing failed upd; simp add: calm upd)
qed

text \<open>
  What a change of the state of a node leaves: the engine is calm but for that node, and at most the timer of
  the node's object was deleted.
\<close>

definition settled :: "asm_ptr \<Rightarrow> 'sw mh_client \<Rightarrow> 'sw mh_client \<Rightarrow> bool" where
  "settled a c c' \<longleftrightarrow> calm_engine a (mh_engine c) (mh_engine c') \<and> links c' = links c \<and> next_mh c' = next_mh c \<and>
     next_hb c' = next_hb c \<and>
     (hb_timers c' = hb_timers c \<or>
      (\<exists>st m n k. nodes (mh_engine c) a = Some (st, Some m) \<and> links c m = Some (n, k) \<and>
         hb_timers c' = filter (\<lambda>t. fst t \<noteq> k) (hb_timers c)))"

lemma calmly_settled:
  assumes "calmly a s u"
  shows "settled a (client s) (client u)"
proof -
  from assms obtain e where e: "calm_engine a (engine s) e" "u = at_engine (\<lambda>_. e) s" unfolding calmly_def by blast
  have "mh_rest (client u) = mh_rest (client s)" by (simp add: e(2))
  with e(1) show ?thesis unfolding settled_def e(2) engine_at_engine(1) by (simp add: mh_rest_def links_def fun_eq_iff)
qed

lemma offline_client:
  assumes "state_online_to_offline m s = Inr s'"
  shows "engine s' = engine s \<and> links (client s') = links (client s) \<and> next_mh (client s') = next_mh (client s) \<and>
    next_hb (client s') = next_hb (client s) \<and> hb_timers (client s') = hb_timers (client s)"
  using assms
  by (auto simp: state_online_to_offline_def object_disconnect_def bindE_eq_Inr upd_mh_def on_client_def upd_obj_def links_def
      fun_eq_iff option.map_comp comp_def)

lemma mh_restart_settled:
  assumes "calmly a s u"
  shows "okE (\<lambda>v. settled a (client s) (client v)) (mh_node_recover_restart E a u)"
proof (rule okE_I)
  fix v assume v: "mh_node_recover_restart E a u = Inr v"
  from assms obtain e where e: "calm_engine a (engine s) e" "u = at_engine (\<lambda>_. e) s" unfolding calmly_def by blast
  have rest: "mh_rest (client u) = mh_rest (client s)" by (simp add: e(2))
  from v obtain x m mh u1 u2 where x: "asms e a = Some x" "a_transport x = Some m" and mh: "mhs (client u) m = Some mh"
    and u1: "state_online_to_offline m (on_client (\<lambda>c. c\<lparr>hb_timers := filter (\<lambda>t. fst t \<noteq> mh_timer mh) (hb_timers c)\<rparr>) u) = Inr u1"
    and u2: "on_engine (node_op_history_clear E a) u1 = Inr u2" and v': "on_engine (instance_create E a) u2 = Inr v"
    by (auto simp: mh_node_recover_restart_def mh_transport_disconnect_def bindE_eq_Inr derefE_eq_Inr asm_get_def mh_get_def e(2))
  note off = offline_client [OF u1]
  have "engine u1 = e" using off by (simp add: e(2) on_client_def at_engine_def)
  moreover have "calmly a u1 u2"
    by (rule okE_D [OF calmly_on_engine [OF calmly_refl shape.keeps_history_clear pe.keeps_history_clear nodes.keeps_history_clear] u2])
  moreover have "calmly a u2 v"
    by (rule okE_D [OF calmly_on_engine [OF calmly_refl shape.keeps_instance_create pe.keeps_instance_create nodes.keeps_instance_create] v'])
  ultimately have calm: "calm_engine a e (engine v)" and same: "mh_rest (client v) = mh_rest (client u1)"
    unfolding calmly_def by (auto intro: calm_engine_trans)
  have "map_option snd (nodes (engine s) a) = Some (Some m)"
    using e(1) x by (simp add: calm_engine_def nodes_def)
  then obtain st where "nodes (engine s) a = Some (st, Some m)" by auto
  moreover have "links (client s) m = Some (mh_node mh, mh_timer mh)" using mh rest by (simp add: links_def mh_rest_def)
  moreover have "hb_timers (client v) = filter (\<lambda>t. fst t \<noteq> mh_timer mh) (hb_timers (client s))" "links (client v) = links (client s)"
    "next_mh (client v) = next_mh (client s)" "next_hb (client v) = next_hb (client s)"
    using same off rest by (simp_all add: mh_rest_def on_client_def links_def fun_eq_iff)
  ultimately show "settled a (client s) (client v)"
    unfolding settled_def using calm_engine_trans [OF e(1) calm] by blast
qed

lemma mh_state_set_settled:
  assumes "wired (engine s)"
  shows "okE (\<lambda>v. settled a (client s) (client v)) (mh_node_state_set E a st s)"
  by (rule mh_state_set_rule [OF assms]) (auto intro: calmly_settled mh_restart_settled)

lemma settled_watching:
  assumes w: "watching B c" and settled: "settled a c c'"
  shows "watching (insert a B) c'"
proof -
  have nodes: "map_option snd (nodes (mh_engine c') b) = map_option snd (nodes (mh_engine c) b)"
    "b \<noteq> a \<Longrightarrow> nodes (mh_engine c') b = nodes (mh_engine c) b" for b
    using settled by (cases "b = a"; auto simp: settled_def calm_engine_def)+
  have same: "links c' = links c" "next_mh c' = next_mh c" "next_hb c' = next_hb c" and sub: "set (hb_timers c') \<subseteq> set (hb_timers c)"
    using settled by (auto simp: settled_def)
  have tr: "(\<exists>st. nodes (mh_engine c') b = Some (st, t)) \<longleftrightarrow> (\<exists>st. nodes (mh_engine c) b = Some (st, t))" for b t
    using nodes(1) [of b] by (cases "nodes (mh_engine c') b"; cases "nodes (mh_engine c) b") auto
  show ?thesis
    unfolding watching_def same
  proof (intro conjI allI impI)
    fix b st m assume "nodes (mh_engine c') b = Some (st, Some m)"
    with tr [of b "Some m"] watchingD(1) [OF w] show "\<exists>k. links c m = Some (b, k)" by blast
  next
    fix m b k assume l: "links c m = Some (b, k)"
    with watchingD(2) [OF w l] watchingD(3) [OF w l] tr [of b "Some m"] sub
    show "m < next_mh c" "k \<le> next_hb c" "\<exists>st. nodes (mh_engine c') b = Some (st, Some m)" "(k, m') \<in> set (hb_timers c') \<Longrightarrow> m' = m" for m'
      by blast+
  next
    fix h m assume "(h, m) \<in> set (hb_timers c')"
    with sub watchingD(4) [OF w, of h m] show "0 < h" "h \<le> next_hb c" "links c m \<noteq> None" by blast+
  next
    fix b t assume b: "b \<notin> insert a B" "nodes (mh_engine c') b = Some (RECOVER_STATE_RUNNING, t)"
    then have run: "nodes (mh_engine c) b = Some (RECOVER_STATE_RUNNING, t)" using nodes(2) by simp
    from watchingD(5) [OF w this] b(1) obtain m h where m: "t = Some m" "(h, m) \<in> set (hb_timers c)" by blast
    have "(h, m) \<in> set (hb_timers c')"
    proof (rule ccontr)
      assume "(h, m) \<notin> set (hb_timers c')"
      with m(2) settled obtain st m0 n where a: "nodes (mh_engine c) a = Some (st, Some m0)" "links c m0 = Some (n, h)"
        unfolding settled_def by auto
      from watchingD(1) [OF w a(1)] a(2) have "n = a" by auto
      from watchingD(3) [OF w a(2) m(2)] have "m = m0" .
      with watchingD(1) [OF w run [unfolded m(1)]] a(2) \<open>n = a\<close> b(1) show False by auto
    qed
    with m(1) show "\<exists>m h. t = Some m \<and> (h, m) \<in> set (hb_timers c')" by blast
  qed
qed

lemma watching_drop:
  assumes "watching (insert a B) c"
    and "\<And>t. nodes (mh_engine c) a = Some (RECOVER_STATE_RUNNING, t) \<Longrightarrow> \<exists>m h. t = Some m \<and> (h, m) \<in> set (hb_timers c)"
  shows "watching B c"
  unfolding watching_def
proof (intro conjI allI impI)
  fix b t assume "b \<notin> B" "nodes (mh_engine c) b = Some (RECOVER_STATE_RUNNING, t)"
  then show "\<exists>m h. t = Some m \<and> (h, m) \<in> set (hb_timers c)"
    using assms(2) watchingD(5) [OF assms(1)] by (cases "b = a") auto
qed (use watchingD(1-4) [OF assms(1)] in blast)+

lemma watching_timer_add:
  assumes w: "watching (insert a B) (client s)" and m: "links (client s) m = Some (a, k)"
  shows "watching B (client (hb_timer_add m s))"
proof (rule watching_drop)
  let ?c = "client s" and ?c' = "client (hb_timer_add m s)" and ?h = "Suc (next_hb (client s))"
  have same: "nodes (mh_engine ?c') = nodes (mh_engine ?c)" "next_mh ?c' = next_mh ?c" "next_hb ?c' = ?h"
    "hb_timers ?c' = hb_timers ?c @ [(?h, m)]"
    by (simp_all add: hb_timer_add_def Let_def upd_mh_def on_client_def)
  have links: "links ?c' n = (if n = m then Some (a, ?h) else links ?c n)" for n
    using m by (auto simp: hb_timer_add_def Let_def upd_mh_def on_client_def links_def)
  show "watching (insert a B) ?c'"
    unfolding watching_def same links
  proof (intro conjI allI impI)
    fix b st n assume "nodes (engine s) b = Some (st, Some n)"
    with watchingD(1) [OF w this] m show "\<exists>k. (if n = m then Some (a, ?h) else links ?c n) = Some (b, k)" by auto
  next
    fix n b k' assume l: "(if n = m then Some (a, ?h) else links ?c n) = Some (b, k')"
    show "n < next_mh ?c" "\<exists>st. nodes (engine s) b = Some (st, Some n)" "k' \<le> ?h"
      using l watchingD(2) [OF w, of n b k'] watchingD(2) [OF w m] by (auto split: if_splits)
    show "m' = n" if "(k', m') \<in> set (hb_timers ?c @ [(?h, m)])" for m'
    proof (cases "n = m")
      case True
      with l that watchingD(4) [OF w, of k' m'] show ?thesis by auto
    next
      case False
      with l that watchingD(2) [OF w, of n b k'] watchingD(3) [OF w, of n b k' m'] show ?thesis by auto
    qed
  next
    fix h n assume "(h, n) \<in> set (hb_timers ?c @ [(?h, m)])"
    with watchingD(4) [OF w, of h n]
    show "0 < h" "h \<le> ?h" "(if n = m then Some (a, ?h) else links ?c n) \<noteq> None" by auto
  next
    fix b t assume "b \<notin> insert a B" "nodes (engine s) b = Some (RECOVER_STATE_RUNNING, t)"
    with watchingD(5) [OF w this(2)] show "\<exists>n h. t = Some n \<and> (h, n) \<in> set (hb_timers ?c @ [(?h, m)])" by auto
  qed
  show "\<exists>n h. t = Some n \<and> (h, n) \<in> set (hb_timers ?c')" if "nodes (mh_engine ?c') a = Some (RECOVER_STATE_RUNNING, t)" for t
    using that watchingD(2) [OF w m] by (auto simp: same)
qed

section \<open>Heartbeats\<close>

text \<open>The state after a handler: as watched as before, and no transition or configuration was touched.\<close>

definition tended :: "asm_ptr set \<Rightarrow> 'sw mh_client \<Rightarrow> 'sw mh_client \<Rightarrow> bool" where
  "tended B c c' \<longleftrightarrow> watching B c' \<and> shape (mh_engine c') = shape (mh_engine c) \<and> pe_view (mh_engine c') = pe_view (mh_engine c) \<and>
     (\<forall>m n k. links c m = Some (n, k) \<longrightarrow> (\<exists>k'. links c' m = Some (n, k')))"

lemma settled_tended: "watching B c \<Longrightarrow> settled a c c' \<Longrightarrow> tended (insert a B) c c'"
  unfolding tended_def by (auto intro: settled_watching simp: settled_def calm_engine_def)

lemma tended_trans: "tended B c c' \<Longrightarrow> tended C c' c'' \<Longrightarrow> tended C c c''"
  unfolding tended_def by (elim conjE, intro conjI) (assumption, simp, simp, blast)

lemma tended_wired: "tended B c c' \<Longrightarrow> wired (mh_engine c) \<Longrightarrow> wired (mh_engine c')"
  unfolding tended_def by (blast intro: wired_shape)

lemma tended_drop:
  assumes "tended (insert a B) c c'" and "nodes (mh_engine c') a = Some (st, t)" and "st \<noteq> RECOVER_STATE_RUNNING"
  shows "tended B c c'"
proof -
  have "watching B c'" by (rule watching_drop [of a]) (use assms in \<open>auto simp: tended_def\<close>)
  with assms(1) show ?thesis by (simp add: tended_def)
qed

lemma tended_timer_add:
  assumes "tended (insert a B) c (client s)" and "links (client s) m = Some (a, k)"
  shows "tended B c (client (hb_timer_add m s))"
proof -
  have "watching B (client (hb_timer_add m s))" by (rule watching_timer_add [OF _ assms(2)]) (use assms(1) in \<open>simp add: tended_def\<close>)
  moreover have "\<exists>k'. links (client (hb_timer_add m s)) m' = Some (n, k')" if "links (client s) m' = Some (n, j)" for m' n j
    using that by (auto simp: hb_timer_add_def Let_def upd_mh_def on_client_def links_def)
  ultimately show ?thesis using assms(1) unfolding tended_def by (simp, blast)
qed

lemma heartbeat_step_ids [simp]:
  "mh_node (heartbeat_step now seq mh) = mh_node mh" "mh_timer (heartbeat_step now seq mh) = mh_timer mh"
  by (simp_all add: heartbeat_step_def Let_def)

lemma hb_state_client [simp]:
  "links (client (upd_mh m (\<lambda>mh. mh\<lparr>mh_hb_state := h\<rparr>) s)) = links (client s)"
  "links (client (upd_mh m (heartbeat_step now seq) s)) = links (client s)"
  by (auto simp: links_def upd_mh_def on_client_def fun_eq_iff option.map_comp comp_def)

lemma watching_upd_mh:
  "links (client (upd_mh m f s)) = links (client s) \<Longrightarrow> watching B (client (upd_mh m f s)) = watching B (client s)"
  by (simp add: watching_def) (simp add: upd_mh_def on_client_def)

lemma state_set_node:
  assumes "mh_node_state_set E a st s = Inr v"
  shows "\<exists>t. nodes (engine v) a = Some (st, t)"
  using mh_node_set_result [OF assms] by (auto simp: node_rd_def asm_get_def bindE_eq_Inr derefE_eq_Inr nodes_def)

lemma check_state_tended:
  assumes w: "watching B (client s)" and wired: "wired (engine s)"
  shows "okE (\<lambda>v. tended B (client s) (client v)) (check_state E now m s)"
  unfolding check_state_def Let_def
proof (intro okE_bind_get okE_if okE_Inr_I)
  fix mh x assume mh: "mh_get s m = Inr mh" and x: "asm_get (engine s) (mh_node mh) = Inr x"
  let ?a = "mh_node mh" and ?s = "if late now mh then upd_mh m (\<lambda>mh. mh\<lparr>mh_hb_state := HEARTBEAT_NOT_RECEIVED\<rparr>) s else s"
  have link: "links (client s) m = Some (?a, mh_timer mh)" using mh by (simp add: mh_get_def derefE_eq_Inr links_def)
  have set: "tended (insert ?a B) (client u) (client v)"
    if "mh_node_state_set E ?a st u = Inr v" "watching B (client u)" "wired (engine u)" for st u v
    by (rule settled_tended [OF that(2) okE_D [OF mh_state_set_settled [OF that(3)] that(1)]])
  show "okE (\<lambda>v. tended B (client s) (client v)) (mh_node_state_set E ?a RECOVER_STATE_FAILED ?s)"
  proof (rule okE_I)
    fix v assume v: "mh_node_state_set E ?a RECOVER_STATE_FAILED ?s = Inr v"
    have "watching B (client ?s)" "engine ?s = engine s" "links (client ?s) = links (client s)" using w by (simp_all add: watching_upd_mh)
    with set [OF v] wired have "tended (insert ?a B) (client s) (client v)" by (simp add: tended_def)
    with state_set_node [OF v] show "tended B (client s) (client v)" by (auto intro: tended_drop)
  qed
  show "tended B (client s) (client (hb_timer_add m v))" if v: "mh_node_state_set E ?a RECOVER_STATE_RUNNING s = Inr v" for v
  proof (rule tended_timer_add [OF set [OF v w wired]])
    show "links (client v) m = Some (?a, mh_timer mh)"
      using okE_D [OF mh_state_set_settled [OF wired] v] link by (simp add: settled_def)
  qed
qed (use w in \<open>simp_all add: tended_def watching_upd_mh\<close>)

text \<open>A timer that fired is missing, until the handler arms it again.\<close>

lemma watching_fired:
  assumes w: "watching B (client s)" and m: "links (client s) m = Some (a, k)"
  shows "watching (insert a B) (client (hb_timer_fired (h, m) s))"
proof -
  let ?c = "client s" and ?c' = "client (hb_timer_fired (h, m) s)"
  have same: "nodes (mh_engine ?c') = nodes (mh_engine ?c)" "next_mh ?c' = next_mh ?c" "next_hb ?c' = next_hb ?c" "links ?c' = links ?c"
    "hb_timers ?c' = remove1 (h, m) (hb_timers ?c)"
    by (simp_all add: hb_timer_fired_def on_client_def links_def fun_eq_iff)
  have sub: "t \<in> set (remove1 (h, m) (hb_timers ?c)) \<Longrightarrow> t \<in> set (hb_timers ?c)" for t
    using notin_set_remove1 [of t "hb_timers ?c" "(h, m)"] by blast
  show ?thesis
    unfolding watching_def same
  proof (intro conjI allI impI)
    fix b t assume b: "b \<notin> insert a B" "nodes (engine s) b = Some (RECOVER_STATE_RUNNING, t)"
    with watchingD(5) [OF w b(2)] obtain n h' where n: "t = Some n" "(h', n) \<in> set (hb_timers ?c)" by auto
    moreover have "n \<noteq> m" using watchingD(1) [OF w b(2) [unfolded n(1)]] m b(1) by auto
    ultimately show "\<exists>n h'. t = Some n \<and> (h', n) \<in> set (remove1 (h, m) (hb_timers ?c))" by auto
  qed (use watchingD(1-4) [OF w] sub in blast)+
qed

lemma heartbeat_tmo_tended:
  assumes w: "watching B (client s)" and wired: "wired (engine s)" and t: "(h, m) \<in> set (hb_timers (client s))"
  shows "okE (\<lambda>v. tended B (client s) (client v)) (heartbeat_check_tmo E now m (hb_timer_fired (h, m) s))"
  unfolding heartbeat_check_tmo_def
proof (intro okE_bind_get okE_if okE_Inr_I)
  let ?s = "hb_timer_fired (h, m) s"
  from watchingD(4) [OF w t] obtain a k where m: "links (client s) m = Some (a, k)" by auto
  have s: "engine ?s = engine s" "links (client ?s) = links (client s)"
    by (simp_all add: hb_timer_fired_def on_client_def links_def fun_eq_iff)
  fix v mh x assume v: "check_state E now m ?s = Inr v" and mh: "mh_get v m = Inr mh" and x: "asm_get (engine v) (mh_node mh) = Inr x"
  have "tended (insert a B) (client ?s) (client v)"
    by (rule okE_D [OF check_state_tended [OF watching_fired [OF w m]] v]) (simp add: s wired)
  then have tended: "tended (insert a B) (client s) (client v)" by (simp add: tended_def s)
  with m obtain k' where k': "links (client v) m = Some (a, k')" unfolding tended_def by blast
  with mh have "mh_node mh = a" by (simp add: mh_get_def derefE_eq_Inr links_def)
  show "tended B (client s) (client (hb_timer_add m v))" by (rule tended_timer_add [OF tended k'])
  show "tended B (client s) (client v)" if "rc_state (a_recover x) \<noteq> RECOVER_STATE_RUNNING"
    by (rule tended_drop [OF tended _ that]) (use x \<open>mh_node mh = a\<close> in \<open>simp add: nodes_def asm_get_def derefE_eq_Inr\<close>)
qed

lemma heartbeat_recv_tended:
  assumes "watching B (client s)"
  shows "okE (\<lambda>v. tended B (client s) (client v)) (heartbeat_recv now m seq s)"
  unfolding heartbeat_recv_def
  by (intro okE_bind_get okE_Inr_I) (use assms in \<open>simp add: tended_def watching_upd_mh\<close>)

text \<open>A state that a wired, watched one led to by handlers.\<close>

definition sound :: "'sw mh_client \<Rightarrow> 'sw mh_client \<Rightarrow> bool" where
  "sound c0 c \<longleftrightarrow> wired (mh_engine c) \<and> tended {} c0 c"

lemma sound_step: "sound c0 c \<Longrightarrow> tended {} c c' \<Longrightarrow> sound c0 c'"
  unfolding sound_def by (blast intro: tended_trans tended_wired)

lemma sound_D: "sound c0 c \<Longrightarrow> watching {} c" "sound c0 c \<Longrightarrow> wired (mh_engine c)"
  by (simp_all add: sound_def tended_def)

lemma sound_check: "sound c0 (client s) \<Longrightarrow> okE (\<lambda>v. sound c0 (client v)) (check_state E now m s)"
  by (rule okE_mono [OF check_state_tended [OF sound_D]]) (assumption, assumption, rule sound_step)

interpretation mh_inv: qmf_invariant "resource_method_response E" "connection_event_handler E now" "host_event_handler E now" "sound c0"
  for E :: "'sw env" and now c0
proof
  fix c :: "'sw mh_client" and u args rc assume c: "sound c0 c"
  show "okE (sound c0) (resource_method_response E u args rc c)"
  proof (rule okE_I, rule sound_step [OF c])
    fix c' assume c': "resource_method_response E u args rc c = Inr c'"
    have "watching {} c'"
      using watching_cong [of c' c "{}"] nodes.keeps_mh_response [OF c'] c by (simp add: sound_def tended_def)
    moreover have "links c' = links c" using nodes.keeps_mh_response [OF c'] by (simp add: mh_rest_def links_def fun_eq_iff)
    ultimately show "tended {} c c'"
      using shape.keeps_mh_response [OF c'] pe.keeps_mh_response [OF c'] by (simp add: tended_def)
  qed
next
  fix s :: "'sw mh_state" and ob assume "sound c0 (client s)"
  then show "okE (\<lambda>s. sound c0 (client s)) (connection_event_handler E now ob s)"
    unfolding connection_event_handler_def by (rule sound_check)
next
  fix s :: "'sw mh_state" and ob ev assume s: "sound c0 (client s)"
  have recv: "okE (\<lambda>v. sound c0 (client v)) (heartbeat_recv now m seq s)" for m seq
    by (rule okE_mono [OF heartbeat_recv_tended [OF sound_D(1) [OF s]]]) (rule sound_step [OF s])
  show "okE (\<lambda>s. sound c0 (client s)) (host_event_handler E now ob ev s)"
    unfolding host_event_handler_def
    by (intro okE_list okE_Inl okE_if okE_Inr_I okE_bind_get [where m = "as_u32 _"] okE_bind [OF recv] sound_check s)
qed

end
