(* ===== verification/Mh_Sound.thy ===== *)
theory Mh_Sound
  imports Mh_Watch
begin

text \<open>
  Between two states of the event loop of the engine with Matahari the configuration stays linked,
  transitions do not overlap and every running node is watched, from the loading of the configuration on;
  so a node that falls silent is noticed.
\<close>

section \<open>Connecting\<close>

lemma tended_refl: "watching B c \<Longrightarrow> tended B c c"
  by (simp add: tended_def)

lemma tended_cong:
  assumes "tended B c c'" and "nodes (mh_engine d) = nodes (mh_engine c')" and "mh_rest d = mh_rest c'"
    and "shape (mh_engine d) = shape (mh_engine c')" and "pe_view (mh_engine d) = pe_view (mh_engine c')"
  shows "tended B c d"
proof -
  have "links d = links c'" using assms(3) by (simp add: mh_rest_def links_def fun_eq_iff)
  with assms watching_cong [of d c' B] show ?thesis by (simp add: tended_def)
qed

lemma tended_at_engine:
  "tended B c (client s) \<Longrightarrow> nodes (f (engine s)) = nodes (engine s) \<Longrightarrow> shape (f (engine s)) = shape (engine s) \<Longrightarrow>
   pe_view (f (engine s)) = pe_view (engine s) \<Longrightarrow> tended B c (client (at_engine f s))"
  by (erule tended_cong) simp_all

text \<open>A new Matahari object, for a node that had none.\<close>

lemma watching_new:
  assumes w: "watching B c" and a: "nodes (mh_engine c) a = Some (st, None)" "a \<notin> B"
    and nodes: "nodes (mh_engine c') = (nodes (mh_engine c))(a \<mapsto> (st, Some (next_mh c)))"
    and links: "links c' = (links c)(next_mh c \<mapsto> (a, 0))"
    and rest: "next_mh c' = Suc (next_mh c)" "next_hb c' = next_hb c" "hb_timers c' = hb_timers c"
  shows "watching B c'"
proof -
  let ?m = "next_mh c"
  have fresh: "links c ?m = None" using watchingD(2) [OF w, of ?m] by (cases "links c ?m") auto
  show ?thesis
    unfolding watching_def rest
  proof (intro conjI allI impI)
    fix b st' m assume "nodes (mh_engine c') b = Some (st', Some m)"
    then show "\<exists>k. links c' m = Some (b, k)"
      using watchingD(1) [OF w, of b st' m] fresh by (auto simp: nodes links split: if_splits)
  next
    fix m b k assume l: "links c' m = Some (b, k)"
    show "m < Suc (next_mh c)" "k \<le> next_hb c" "\<exists>st. nodes (mh_engine c') b = Some (st, Some m)"
      using l watchingD(2) [OF w, of m b k] a(1) by (auto simp: nodes links split: if_splits)
    show "m' = m" if "(k, m') \<in> set (hb_timers c)" for m'
      using that l watchingD(3) [OF w, of m b k m'] watchingD(4) [OF w that] by (auto simp: links split: if_splits)
  next
    fix h m assume "(h, m) \<in> set (hb_timers c)"
    with watchingD(4) [OF w this] show "0 < h" "h \<le> next_hb c" "links c' m \<noteq> None" by (auto simp: links)
  next
    fix b t assume b: "b \<notin> B" "nodes (mh_engine c') b = Some (RECOVER_STATE_RUNNING, t)"
    have "b \<noteq> a" using b watchingD(5) [OF w, of a None] a by (auto simp: nodes)
    with b watchingD(5) [OF w, of b t] show "\<exists>m h. t = Some m \<and> (h, m) \<in> set (hb_timers c)" by (auto simp: nodes)
  qed
qed

lemma connect_tended:
  assumes w: "watching {} (client s)"
  shows "okE (\<lambda>(m, v). tended {} (client s) (client v)) (mh_transport_connect now a s)"
proof (rule okE_I, clarify)
  fix m v assume v: "mh_transport_connect now a s = Inr (m, v)"
  then obtain x where x: "asms (engine s) a = Some x"
    by (auto simp: mh_transport_connect_def bindE_eq_Inr asm_get_def derefE_eq_Inr)
  show "tended {} (client s) (client v)"
  proof (cases "a_transport x")
    case (Some m')
    with v x have "engine v = engine s" "mh_rest (client v) = mh_rest (client s)"
      by (auto simp: mh_transport_connect_def asm_get_def on_client_def mh_rest_def Let_def)
    then show ?thesis by (intro tended_cong [OF tended_refl [OF w]]) simp_all
  next
    case None
    let ?e = "upd_asm a (\<lambda>x. x\<lparr>a_transport := Some (next_mh (client s))\<rparr>) (engine s)"
    have e: "engine v = ?e" and c: "next_mh (client v) = Suc (next_mh (client s))" "next_hb (client v) = next_hb (client s)"
      "hb_timers (client v) = hb_timers (client s)"
      and l: "links (client v) = (links (client s))(next_mh (client s) \<mapsto> (a, 0))"
      using v x None
      by (auto simp: mh_transport_connect_def matahari_new_def asm_get_def on_client_def Let_def qmf_object_add_def links_def fun_eq_iff)
    have "nodes (engine v) = (nodes (engine s))(a \<mapsto> (rc_state (a_recover x), Some (next_mh (client s))))"
      using x by (auto simp: e nodes_def upd_asm_def fun_eq_iff)
    moreover have a: "nodes (engine s) a = Some (rc_state (a_recover x), None)" using x None by (simp add: nodes_def)
    ultimately have "watching {} (client v)" by (intro watching_new [OF w a _ _ l c]) simp_all
    moreover have "links (client s) (next_mh (client s)) = None"
      using watchingD(2) [OF w, of "next_mh (client s)"] by (cases "links (client s) (next_mh (client s))") auto
    ultimately show ?thesis by (auto simp: tended_def e l)
  qed
qed

lemma state_get_tended:
  assumes w: "watching {} (client s)" and wired: "wired (engine s)"
  shows "okE (\<lambda>v. tended {} (client s) (client v)) (mh_my_instance_state_get E now a s)"
proof -
  have connect: "okE (\<lambda>v. tended {} (client s) (client v))
      (bindE (mh_transport_connect now a (at_engine (upd_asm a (\<lambda>x. x\<lparr>a_address := z\<rparr>)) s)) (\<lambda>(_, s). Inr s))" for z
  proof -
    have t: "tended {} (client s) (client (at_engine (upd_asm a (\<lambda>x. x\<lparr>a_address := z\<rparr>)) s))"
      by (rule tended_at_engine [OF tended_refl [OF w]])
        (auto simp: nodes_def upd_asm_def fun_eq_iff option.map_comp comp_def pe.v_address [unfolded upd_asm_def]
          shape.v_address [unfolded upd_asm_def])
    then have "watching {} (client (at_engine (upd_asm a (\<lambda>x. x\<lparr>a_address := z\<rparr>)) s))" by (simp add: tended_def)
    from connect_tended [OF this] show ?thesis by (rule okE_bind) (auto intro: tended_trans [OF t])
  qed
  have poll: "okE (\<lambda>v. tended {} (client s) (client v)) (bindE (mh_node_state_set E a RECOVER_STATE_UNKNOWN s) (\<lambda>s.
      Inr (at_engine (\<lambda>e. snd (loop_timer_add (Instance_state_poll a) n e)) s)))" for n
  proof (rule okE_bind_get, rule okE_Inr_I)
    fix v assume v: "mh_node_state_set E a RECOVER_STATE_UNKNOWN s = Inr v"
    have "tended (insert a {}) (client s) (client v)"
      by (rule settled_tended [OF w okE_D [OF mh_state_set_settled [OF wired] v]])
    with state_set_node [OF v] have "tended {} (client s) (client v)" by (auto intro: tended_drop)
    then show "tended {} (client s) (client (at_engine (\<lambda>e. snd (loop_timer_add (Instance_state_poll a) n e)) v))"
      by (rule tended_at_engine) (simp_all add: loop_timer_add_def Let_def)
  qed
  show ?thesis
    unfolding mh_my_instance_state_get_def mh_instance_state_completion_def
    by (intro okE_bind_get [where m = "asm_get _ _"] okE_bind_get [where m = "instance_state_get _ _"] okE_option okE_prod okE_if okE_deref
        okE_Inr_I tended_refl [OF w] connect poll)
qed

section \<open>The policy engine\<close>

lemma nodes_graph_writes [simp]:
  "nodes (e\<lparr>graphs := x1\<rparr>) = nodes e" "nodes (e\<lparr>working_set := x2\<rparr>) = nodes e" "nodes (e\<lparr>jobs := x3\<rparr>) = nodes e"
  "nodes (loop_job_add j e) = nodes e" "nodes (e\<lparr>next_graph := x4\<rparr>) = nodes e" "nodes (e\<lparr>transition_count := x5\<rparr>) = nodes e"
  by (simp_all add: nodes_def loop_job_add_def fun_eq_iff)

lemma next_job_keeps: "keeps (with_rest nodes) (mh_process_next_job E QE g)" "keeps (with_rest shape) (mh_process_next_job E QE g)"
  unfolding mh_process_next_job_def Let_def
  by (rule keeps_I, intro okE_if okE_Inr_I okE_bind_get [where m = "graph_get _ _"] keep_bind
      keeps_okE [OF nodes.keeps_mh_fires] keeps_okE [OF shape.keeps_mh_fires]; simp add: with_rest_at_engine)+

lemma mh_next_job_pe_inv:
  assumes "working_set (engine s)" and "next_jobs (engine s) = []" and "dom (graphs (engine s)) = {g}"
    and "mh_process_next_job E QE g s = Inr s'"
  shows "pe_inv (engine s')"
proof (cases "graph_updated (engine s)")
  case False
  with assms show ?thesis by (auto simp: mh_process_next_job_def pe_inv_def)
next
  case True
  let ?fires = "\<lambda>xs. foldE (\<lambda>x s. bindE (mh_graph_exec_fns E QE g x s) (\<lambda>(_, s). Inr s)) xs"
  from True assms(4) obtain gr u gr' where u: "?fires (graph_fires (pcmk E) gr) (at_engine (\<lambda>e. e\<lparr>graph_updated := False\<rparr>) s) = Inr u"
    and gr': "graphs (engine u) g = Some gr'"
    and s': "s' = at_engine (loop_job_add (Process_next_job g)) u \<or>
             s' = at_engine (\<lambda>e. e\<lparr>graphs := (graphs e)(g := None), working_set := False\<rparr>) u"
    by (auto simp: mh_process_next_job_def Let_def res_simps split: if_splits)
  have "pe_view (engine u) = pe_view (engine s)"
    using keeps_D [OF pe.keeps_mh_fires u] by (simp add: with_rest_def)
  with assms(1-3) have "working_set (engine u)" "next_jobs (engine u) = []" "dom (graphs (engine u)) = {g}"
    by (auto simp: pe_view_def)
  with s' show ?thesis by (elim disjE) (simp_all add: pe_inv_def del: dom_eq_empty_conv)
qed

lemma process_job_nodes:
  assumes "process_job E s = Inr s'"
  shows "nodes s' = nodes s"
proof (cases "working_set s")
  case True
  with assms show ?thesis by (auto simp: process_job_def pe_is_busy_processing_def)
next
  case False
  with assms have "process E s = Inr s'" by (simp add: process_job_def pe_is_busy_processing_def)
  then obtain d rc u where d: "pe_process_state E d (cape_debug s) (s\<lparr>pe_doc := d\<rparr>) = Inr (rc, u)"
    and s': "s' = (if rc \<noteq> 0 then schedule_processing u else u)" by (rule processE)
  have "nodes u = nodes s" using d by (auto simp: pe_process_state_def Let_def assertE_def split: if_splits)
  then show ?thesis by (simp add: s')
qed

section \<open>Steps\<close>

definition mh_sound :: "'sw cape \<Rightarrow> 'sw mh_state \<Rightarrow> bool" where
  "mh_sound e s \<longleftrightarrow> wired (engine s) \<and> shape (engine s) = shape e \<and> pe_inv (engine s) \<and> watching {} (client s)"

lemma mh_soundI:
  assumes "mh_sound e s" and "shape (engine s') = shape (engine s)" and "pe_inv (engine s')" and "watching {} (client s')"
  shows "mh_sound e s'"
  using assms wired_shape [OF assms(2)] by (simp add: mh_sound_def)

lemma mh_sound_tended:
  assumes "mh_sound e s" and "tended {} (client s) (client s')"
  shows "mh_sound e s'"
  by (rule mh_soundI [OF assms(1)])
    (use assms pe_inv_cong [of "engine s'" "engine s"] in \<open>simp_all add: mh_sound_def tended_def\<close>)

lemma taken_job:
  assumes "mh_sound e s" and "\<not> is_next_job j"
  shows "mh_sound e (at_engine (\<lambda>e. e\<lparr>jobs := remove1 j (jobs e)\<rparr>) s)"
  using assms wired_shape [of "(engine s)\<lparr>jobs := remove1 j (jobs (engine s))\<rparr>" "engine s"]
    watching_cong [of "client (at_engine (\<lambda>e. e\<lparr>jobs := remove1 j (jobs e)\<rparr>) s)" "client s" "{}"]
  by (simp add: mh_sound_def pe_inv_def)

lemma kept_tended:
  assumes "mh_sound e s" and "keeps (with_rest nodes) f" and "keeps (with_rest shape) f" and "keeps (with_rest pe_view) f"
  shows "okE (\<lambda>v. tended {} (client s) (client v)) (f s)"
proof (rule okE_I)
  fix v assume v: "f s = Inr v"
  have "tended {} (client s) (client s)" using assms(1) by (simp add: mh_sound_def tended_refl)
  then show "tended {} (client s) (client v)"
    using keeps_D [OF assms(2) v] keeps_D [OF assms(3) v] keeps_D [OF assms(4) v] by (auto simp: with_rest_def intro: tended_cong)
qed

lemma mh_run_job_sound:
  assumes s: "mh_sound e s" and j: "j \<in> set (jobs (engine s))"
    and run: "mh_run_job E QE now j (at_engine (\<lambda>e. e\<lparr>jobs := remove1 j (jobs e)\<rparr>) s) = Inr s'" (is "mh_run_job E QE now j ?s = _")
  shows "mh_sound e s'"
proof (cases j)
  case (Process_next_job g)
  with j have "j \<in> set (next_jobs (engine s))" by (simp add: next_jobs_def)
  with s Process_next_job have "working_set (engine s)" "next_jobs (engine s) = [j]" "dom (graphs (engine s)) = {g}"
    by (auto simp: mh_sound_def pe_inv_def split: if_splits)
  with run Process_next_job have "pe_inv (engine s')"
    by (intro mh_next_job_pe_inv [of ?s g E QE]) (simp_all add: mh_run_job_def)
  moreover have run': "mh_process_next_job E QE g ?s = Inr s'" using run Process_next_job by (simp add: mh_run_job_def)
  have "nodes (engine s') = nodes (engine s)" "shape (engine s') = shape (engine s)" "mh_rest (client s') = mh_rest (client s)"
    using keeps_D [OF next_job_keeps(1) run'] keeps_D [OF next_job_keeps(2) run'] by (simp_all add: with_rest_def)
  ultimately show ?thesis
    using s watching_cong [of "client s'" "client s" "{}"] by (intro mh_soundI [OF s]) (simp_all add: mh_sound_def)
next
  case Process_job
  then have ok: "mh_sound e ?s" by (intro taken_job [OF s]) simp
  from run Process_job obtain e' where e': "process_job E (engine ?s) = Inr e'" "s' = at_engine (\<lambda>_. e') ?s"
    by (auto simp: mh_run_job_def on_engine_at bindE_eq_Inr)
  have "pe_inv e'" by (rule process_job_inv [OF _ e'(1)]) (use ok in \<open>simp add: mh_sound_def\<close>)
  moreover have "shape e' = shape (engine ?s)" by (rule keeps_D [OF shape.keeps_process_job e'(1)])
  moreover have "nodes e' = nodes (engine ?s)" by (rule process_job_nodes [OF e'(1)])
  ultimately show ?thesis
    using ok watching_cong [of "client s'" "client ?s" "{}"] unfolding e'(2) by (intro mh_soundI [OF ok]) (simp_all add: mh_sound_def)
next
  case (My_instance_state_get a)
  then have ok: "mh_sound e ?s" by (intro taken_job [OF s]) simp
  have "tended {} (client ?s) (client s')"
    by (rule okE_D [OF state_get_tended]) (use ok run My_instance_state_get in \<open>auto simp: mh_sound_def mh_run_job_def\<close>)
  with ok show ?thesis by (rule mh_sound_tended)
qed (use run in \<open>simp_all add: mh_run_job_def\<close>)

lemma mh_fire_timer_sound:
  assumes s: "mh_sound e s"
    and fire: "mh_fire_timer E QE now f (at_engine (\<lambda>e. e\<lparr>timers := x\<rparr>) s) = Inr s'" (is "mh_fire_timer E QE now f ?s = _")
  shows "mh_sound e s'"
proof -
  have ok: "mh_sound e ?s"
    by (rule mh_sound_tended [OF s], rule tended_at_engine [OF tended_refl]) (use s in \<open>simp_all add: mh_sound_def\<close>)
  have "tended {} (client ?s) (client s')"
  proof (cases f)
    case (Resource_monitor_execute p)
    with fire show ?thesis
      by (intro okE_D [OF kept_tended [OF ok nodes.keeps_mh_monitor_execute shape.keeps_mh_monitor_execute pe.keeps_mh_monitor_execute]])
        (simp add: mh_fire_timer_def)
  next
    case (Instance_state_poll a)
    with fire ok show ?thesis by (intro okE_D [OF state_get_tended]) (auto simp: mh_fire_timer_def mh_sound_def)
  qed (use fire in \<open>simp_all add: mh_fire_timer_def\<close>)
  with ok show ?thesis by (rule mh_sound_tended)
qed

lemma mh_loop_sound:
  assumes step: "mh_loop s s'" and s: "mh_sound e s"
  shows "mh_sound e s'"
proof -
  have w: "watching {} (client s)" "wired (engine s)" using s by (simp_all add: mh_sound_def)
  then have start: "sound (client s) (client s)" by (simp add: sound_def tended_refl)
  then have start': "sound (client s) (client (s\<lparr>call_timers := x\<rparr>))" "sound (client s) (client (s\<lparr>pending_runs := y\<rparr>))" for x y
    by simp_all
  have tended: "mh_sound e s'" if "tended {} (client s) (client s')" using s that by (rule mh_sound_tended)
  have sound: "mh_sound e s'" if "sound (client s) (client s')" using that tended by (simp add: sound_def)
  from step show ?thesis
  proof (rule mh_loopE)
    show "mh_sound e s'" if "j \<in> set (jobs (engine s))"
      "mh_run_job E QE now j (at_engine (\<lambda>e. e\<lparr>jobs := remove1 j (jobs e)\<rparr>) s) = Inr s'" for j E QE now
      using s that by (rule mh_run_job_sound)
    show "mh_sound e s'" if "mh_fire_timer E QE now (tm_fn t) (at_engine (\<lambda>e. e\<lparr>timers := remove1 t (timers e)\<rparr>) s) = Inr s'" for t E QE now
      using mh_fire_timer_sound [of e "s" E QE now "tm_fn t" "remove1 t (timers (engine s))" s'] s that
      by (simp add: at_engine_def on_client_def)
    show "mh_sound e s'" if "(h, m) \<in> set (hb_timers (client s))" "heartbeat_check_tmo E now m (hb_timer_fired (h, m) s) = Inr s'" for h m E now
      by (rule tended) (rule okE_D [OF heartbeat_tmo_tended [OF w that(1)] that(2)])
    show "mh_sound e s'" if "mux_process_event QE (resource_method_response E) (connection_event_handler E now) (host_event_handler E now) ev s = Inr s'" for QE E now ev
      by (rule sound) (rule okE_D [OF mh_inv.mux_event_inv [OF start] that])
    show "mh_sound e s'" if "method_call_tmo (resource_method_response E) r (s\<lparr>call_timers := remove1 (r, n) (call_timers s)\<rparr>) = Inr s'" for r n E
      by (rule sound) (rule okE_D [OF mh_inv.tmo_client [OF start'(1)] that])
    show "mh_sound e s'" if "run_pending_calls QE ob (s\<lparr>pending_runs := remove1 ob (pending_runs s)\<rparr>) = Inr s'" for ob QE
      by (rule sound) (rule okE_D [OF mh_inv.pending_inv [OF start'(2)] that])
  qed
qed

section \<open>The loaded configuration\<close>

text \<open>No node of a new configuration runs or has a transport.\<close>

definition unstarted :: "'sw cape \<Rightarrow> bool" where
  "unstarted e \<longleftrightarrow> (\<forall>a st t. nodes e a = Some (st, t) \<longrightarrow> st = RECOVER_STATE_UNKNOWN \<and> t = None)"

interpretation nodes: resource_view "nodes :: 'sw cape \<Rightarrow> _"
  by unfold_locales (auto simp: nodes_def fun_eq_iff upd_asm_def option.map_comp comp_def)

lemma assembly_create_unstarted:
  assumes "unstarted s"
  shows "okE unstarted (assembly_create E n s)"
proof -
  have keep: "okE unstarted (f v)" if "keeps nodes f" "unstarted v" for f v
    using that by (auto simp: okE_def unstarted_def dest: keeps_D)
  have new: "unstarted (s\<lparr>asms := (asms s)(a \<mapsto> x), next_asm := k, errno := e\<rparr>)"
    if "rc_state (a_recover x) = RECOVER_STATE_UNKNOWN" "a_transport x = None" for a x k e
    using that assms by (auto simp: unstarted_def nodes_def)
  have listed: "unstarted (v\<lparr>assembly_map := l\<rparr>) = unstarted v" for v l
    by (simp add: unstarted_def nodes_def)
  have rec: "rc_state rec = RECOVER_STATE_UNKNOWN" if "(rec, err) = recover_init Q t e ef ep re es ch r" for rec err Q t e ef ep re es ch r
    using that by (simp add: recover_init_def Let_def case_prod_beta)
  show ?thesis
    unfolding assembly_create_def
    by (intro okE_intros okE_bind [where Q = unstarted] keep [OF nodes.keeps_instance_create] okE_foldE okE_if
        keep [OF nodes.keeps_resources_create]) (simp_all add: new listed rec)
qed

lemma parse_and_load_unstarted: "okE unstarted (parse_and_load E xslt config (cape_init debug uuid))"
proof -
  have "unstarted (cape_init debug uuid\<lparr>pe_doc := d, application_name := n, application_uuid := u\<rparr>)" for d n u
    by (simp add: unstarted_def nodes_def cape_init_def)
  then show ?thesis
    unfolding parse_and_load_def assemblies_create_def
    by (auto intro!: okE_intros okE_foldE okE_if assembly_create_unstarted)
qed

lemma mh_program_sound:
  assumes "parse_and_load E xslt config (cape_init debug uuid) = Inr e"
  shows "mh_sound e (mh_program e)"
proof -
  have "unstarted e" by (rule okE_D [OF parse_and_load_unstarted assms])
  then have "watching {} (client (mh_program e))"
    by (auto simp: watching_def mh_program_def links_def unstarted_def)
  with loaded_wired [OF assms rtranclp.rtrancl_refl] loaded_pe_inv [OF assms rtranclp.rtrancl_refl]
  show ?thesis by (simp add: mh_sound_def mh_program_def)
qed

lemma mh_reach_sound:
  assumes "parse_and_load E xslt config (cape_init debug uuid) = Inr e" and "mh_loop\<^sup>*\<^sup>* (mh_program e) s"
  shows "mh_sound e s"
  using assms(2) by (induction rule: rtranclp_induct) (auto intro: mh_program_sound [OF assms(1)] mh_loop_sound)

text \<open>The end of the program while its first node is not connected yet: a null pointer is followed.\<close>

lemma mh_exit_unconnected:
  assumes e: "parse_and_load E0 xslt config (cape_init debug uuid) = Inr e"
    and order: "map_order E (qb_keys (assembly_map e)) = key # keys" and a: "qb_map_get (assembly_map e) key = Some a"
  shows "mh_cape_exit E (mh_program e) = Inl NullDeref"
proof -
  from wired_listed [of e key a] loaded_wired [OF e rtranclp.rtrancl_refl] a obtain x where "asms e a = Some x" by blast
  moreover from this okE_D [OF parse_and_load_unstarted e] have "a_transport x = None" by (auto simp: unstarted_def nodes_def)
  ultimately have "mh_transport_disconnect a (mh_program e) = Inl NullDeref"
    by (simp add: mh_transport_disconnect_def asm_get_def mh_program_def)
  with order a show ?thesis by (simp add: mh_cape_exit_def mh_program_def)
qed

section \<open>A concrete run\<close>

lemmas demo_load_defs = demo_loaded_def demo_config_def demo_defs load_defs calloc_recover_def heap_defs ID_MAX_def
  loop_job_add_def c_string_def snprintf_def ASSEMBLY_NAME_MAX_def RESOURCE_NAME_MAX_def qb_map_get_def

definition demo_heartbeat :: console_event where
  "demo_heartbeat = \<lparr>ce_type = CONSOLE_EVENT, ce_agent = ''web'', ce_correlator = 7, ce_arguments = [],
     ce_data = [[(''sequence'', V_u32 1), (''timestamp'', V_u32 0)]], ce_schema = ''heartbeat''\<rparr>"

text \<open>The node is polled, its agent appears and its first heartbeat arrives: it runs, and falls silent for 30 seconds.\<close>

lemma demo_mh_states:
  "\<exists>e s1 s2 s3. demo_loaded = Inr e \<and> jobs e = [My_instance_state_get 0] \<and>
    mh_run_job demo_env (\<lambda>_. demo_qe) 0 (My_instance_state_get 0) (at_engine (\<lambda>e. e\<lparr>jobs := []\<rparr>) (mh_program e)) = Inr s1 \<and>
    demo_mux (demo_event CONSOLE_AGENT_ADD) s1 = Inr s2 \<and> demo_mux demo_heartbeat s2 = Inr s3 \<and>
    map_option (\<lambda>x. (rc_state (a_recover x), a_transport x)) (asms (engine s3) 0) = Some (RECOVER_STATE_RUNNING, Some 0) \<and>
    map_option (\<lambda>mh. (mh_hb_state mh, mh_last_heartbeat mh)) (mhs (client s3) 0) = Some (HEARTBEAT_OK, \<lparr>gt_start = 0, gt_end = None\<rparr>) \<and>
    hb_timers (client s3) = [(1, 0)] \<and> (\<exists>s4. heartbeat_check_tmo demo_env 30000000 0 (hb_timer_fired (1, 0) s3) = Inr s4)"
  by (simp add: demo_load_defs Let_def mh_run_job_def mh_my_instance_state_get_def mh_instance_state_completion_def mh_program_def
      at_engine_def mh_transport_connect_def matahari_new_def qmf_object_add_def mh_object_def on_client_def
      mux_process_event_def demo_event_def mux_offer_def object_connect_def obj_get_def demo_qe_def strcasecmp_eq_def demo_lower
      upd_obj_def connection_event_handler_def check_state_def mh_get_def mux_agent_at_def agent_add_def agent_get_def upd_agent_def
      late_def demo_heartbeat_def agent_process_event_def object_process_event_def host_event_handler_def heartbeat_recv_def
      heartbeat_step_def g_timer_start_def g_timer_stop_def upd_mh_def is_connected_def mh_node_state_set_def recover_state_set_def
      node_rd_def node_upd_def cape_changing_def mh_call_def node_state_change_event_def event_send_def
      on_engine_def schedule_processing_def node_update_addr_info_def qb_keys_def hb_timer_add_def
      heartbeat_check_tmo_def hb_timer_fired_def g_timer_elapsed_def MH_HEALTHCHECK_TIMEOUT_def recover_failed_def
      mh_node_recover_restart_def mh_transport_disconnect_def state_online_to_offline_def object_disconnect_def node_op_history_clear_def)

lemma demo_mh_running:
  obtains e s x mh s' where "parse_and_load demo_env (\<lambda>c. c) demo_config (cape_init False ''crmd'') = Inr e"
    and "mh_loop\<^sup>*\<^sup>* (mh_program e) s" and "asms (engine s) 0 = Some x" and "rc_state (a_recover x) = RECOVER_STATE_RUNNING"
    and "a_transport x = Some 0" and "mhs (client s) 0 = Some mh" and "\<not> alive 30000000 mh"
    and "hb_timers (client s) = [(1, 0)]" and "heartbeat_check_tmo demo_env 30000000 0 (hb_timer_fired (1, 0) s) = Inr s'"
proof -
  obtain e s1 s2 s3 s4 where e: "demo_loaded = Inr e" "jobs e = [My_instance_state_get 0]"
    and s1: "mh_run_job demo_env (\<lambda>_. demo_qe) 0 (My_instance_state_get 0) (at_engine (\<lambda>e. e\<lparr>jobs := []\<rparr>) (mh_program e)) = Inr s1"
    and s2: "demo_mux (demo_event CONSOLE_AGENT_ADD) s1 = Inr s2" and s3: "demo_mux demo_heartbeat s2 = Inr s3"
    and x: "map_option (\<lambda>x. (rc_state (a_recover x), a_transport x)) (asms (engine s3) 0) = Some (RECOVER_STATE_RUNNING, Some 0)"
    and mh: "map_option (\<lambda>mh. (mh_hb_state mh, mh_last_heartbeat mh)) (mhs (client s3) 0) = Some (HEARTBEAT_OK, \<lparr>gt_start = 0, gt_end = None\<rparr>)"
    and tmo: "hb_timers (client s3) = [(1, 0)]" "heartbeat_check_tmo demo_env 30000000 0 (hb_timer_fired (1, 0) s3) = Inr s4"
    using demo_mh_states by blast
  have "mh_loop (mh_program e) s1"
    by (rule loop_job [where j = "My_instance_state_get 0"], use e(2) in \<open>simp add: mh_program_def\<close>)
      (use e(2) s1 in \<open>simp add: mh_program_def at_engine_def on_client_def\<close>)
  moreover have "mh_loop s1 s2" "mh_loop s2 s3" by (rule loop_event [OF s2], rule loop_event [OF s3])
  ultimately have "mh_loop\<^sup>*\<^sup>* (mh_program e) s3" by (blast intro: converse_rtranclp_into_rtranclp rtranclp.rtrancl_refl)
  with e(1) x mh tmo show ?thesis
    by (auto intro!: that [of e s3] simp: demo_loaded_def alive_def late_def g_timer_elapsed_def MH_HEALTHCHECK_TIMEOUT_def)
qed

section \<open>Reachable states\<close>

text \<open>
  C3. The engine with the Matahari transport: after any configuration was loaded, in every state that its event
  loop reaches, nodes, resources and failure bookkeeping are linked as the configuration says, transitions
  do not overlap, every armed heartbeat timer belongs to a live object, and every node that counts as
  running has a Matahari object of its own with an armed timer.
\<close>

theorem mh_engine_sound:
  assumes "parse_and_load E xslt config (cape_init debug uuid) = Inr e" and "mh_loop\<^sup>*\<^sup>* (mh_program e) s"
  shows "wired (engine s) \<and> shape (engine s) = shape e \<and> pe_inv (engine s) \<and>
    (\<forall>(h, m) \<in> set (hb_timers (client s)). mhs (client s) m \<noteq> None) \<and>
    (\<forall>a x. asms (engine s) a = Some x \<and> rc_state (a_recover x) = RECOVER_STATE_RUNNING \<longrightarrow>
      (\<exists>m mh h. a_transport x = Some m \<and> mhs (client s) m = Some mh \<and> mh_node mh = a \<and> (h, m) \<in> set (hb_timers (client s))))"
proof -
  have s: "wired (engine s)" "shape (engine s) = shape e" "pe_inv (engine s)" and w: "watching {} (client s)"
    using mh_reach_sound [OF assms] by (simp_all add: mh_sound_def)
  have "\<exists>m mh h. a_transport x = Some m \<and> mhs (client s) m = Some mh \<and> mh_node mh = a \<and> (h, m) \<in> set (hb_timers (client s))"
    if "asms (engine s) a = Some x" "rc_state (a_recover x) = RECOVER_STATE_RUNNING" for a x
  proof -
    have run: "nodes (engine s) a = Some (RECOVER_STATE_RUNNING, a_transport x)" using that by (simp add: nodes_def)
    from watchingD(5) [OF w this] obtain m h where m: "a_transport x = Some m" "(h, m) \<in> set (hb_timers (client s))" by auto
    with watchingD(1) [OF w run [unfolded m(1)]] show ?thesis by (auto simp: links_def)
  qed
  moreover have "mhs (client s) m \<noteq> None" if "(h, m) \<in> set (hb_timers (client s))" for h m
    using watchingD(4) [OF w that] by (auto simp: links_def)
  ultimately show ?thesis using s by auto
qed

theorem mh_engine_sound_witness:
  "\<exists>e s h. demo_loaded = Inr e \<and> mh_loop\<^sup>*\<^sup>* (mh_program e) s \<and> wired (engine s) \<and> shape (engine s) = shape e \<and> pe_inv (engine s) \<and>
     (h, 0) \<in> set (hb_timers (client s))"
proof -
  obtain e s x where s: "parse_and_load demo_env (\<lambda>c. c) demo_config (cape_init False ''crmd'') = Inr e"
    "mh_loop\<^sup>*\<^sup>* (mh_program e) s" "asms (engine s) 0 = Some x" "rc_state (a_recover x) = RECOVER_STATE_RUNNING" "a_transport x = Some 0"
    by (rule demo_mh_running)
  with mh_engine_sound [OF s(1,2)] show ?thesis unfolding demo_loaded_def by fastforce
qed

text \<open>
  C13. A node that falls silent is noticed: in every reachable state, when a running node has sent no
  heartbeat for more than 20 seconds or one out of order, a timer is armed for it, and every run of the
  timer's handler that ends without an error, whatever the cloud and Pacemaker answer, is a step of the
  event loop after which the node counts as failed.
\<close>

theorem mh_silence_detected:
  assumes "parse_and_load E0 xslt config (cape_init debug uuid) = Inr e" and "mh_loop\<^sup>*\<^sup>* (mh_program e) s"
    and "asms (engine s) a = Some x" and "rc_state (a_recover x) = RECOVER_STATE_RUNNING"
    and "a_transport x = Some m" and "mhs (client s) m = Some mh" and "\<not> alive now mh"
  shows "\<exists>h. (h, m) \<in> set (hb_timers (client s)) \<and>
    (\<forall>E s'. heartbeat_check_tmo E now m (hb_timer_fired (h, m) s) = Inr s' \<longrightarrow>
       mh_loop s s' \<and> (\<exists>y. asms (engine s') a = Some y \<and> rc_state (a_recover y) = RECOVER_STATE_FAILED))"
proof -
  have w: "watching {} (client s)" using mh_reach_sound [OF assms(1,2)] by (simp add: mh_sound_def)
  have run: "nodes (engine s) a = Some (RECOVER_STATE_RUNNING, Some m)" using assms(3-5) by (simp add: nodes_def)
  from watchingD(5) [OF w this] obtain h where h: "(h, m) \<in> set (hb_timers (client s))" by auto
  have a: "mh_node mh = a" using watchingD(1) [OF w run] assms(6) by (auto simp: links_def)
  have "\<exists>y. asms (engine s') a = Some y \<and> rc_state (a_recover y) = RECOVER_STATE_FAILED"
    if tmo: "heartbeat_check_tmo E now m (hb_timer_fired (h, m) s) = Inr s'" for E s'
  proof -
    from tmo obtain v where v: "check_state E now m (hb_timer_fired (h, m) s) = Inr v" and s': "engine s' = engine v"
      by (auto simp: heartbeat_check_tmo_def bindE_eq_Inr split: if_splits)
    from v assms(3,4,6,7) a obtain u where "mh_node_state_set E a RECOVER_STATE_FAILED u = Inr v"
      by (auto simp: check_state_def bindE_eq_Inr mh_get_def asm_get_def derefE_eq_Inr hb_timer_fired_def on_client_def alive_def Let_def
          split: if_splits)
    from state_set_node [OF this] s' show ?thesis by (auto simp: nodes_def)
  qed
  with h loop_heartbeat [OF h] show ?thesis by blast
qed

theorem mh_silence_detected_witness:
  "\<exists>e s s' y. demo_loaded = Inr e \<and> mh_loop\<^sup>*\<^sup>* (mh_program e) s \<and>
    heartbeat_check_tmo demo_env 30000000 0 (hb_timer_fired (1, 0) s) = Inr s' \<and> mh_loop s s' \<and>
    asms (engine s') 0 = Some y \<and> rc_state (a_recover y) = RECOVER_STATE_FAILED"
proof -
  obtain e s x mh s' where s: "parse_and_load demo_env (\<lambda>c. c) demo_config (cape_init False ''crmd'') = Inr e"
    "mh_loop\<^sup>*\<^sup>* (mh_program e) s" "asms (engine s) 0 = Some x" "rc_state (a_recover x) = RECOVER_STATE_RUNNING"
    "a_transport x = Some 0" "mhs (client s) 0 = Some mh" "\<not> alive 30000000 mh"
    and h: "hb_timers (client s) = [(1, 0)]" and s': "heartbeat_check_tmo demo_env 30000000 0 (hb_timer_fired (1, 0) s) = Inr s'"
    by (rule demo_mh_running)
  from mh_silence_detected [OF s] h s'
  obtain y where "mh_loop s s'" "asms (engine s') 0 = Some y" "rc_state (a_recover y) = RECOVER_STATE_FAILED" by auto
  with s(1,2) s' show ?thesis unfolding demo_loaded_def by blast
qed

end
