(* ===== verification/Agent_Options.thy ===== *)
theory Agent_Options
  imports Getopt
begin

text \<open>
  \<^verbatim>\<open>src/src/common_agent.cpp\<close> with its header and the constructor in \<^verbatim>\<open>cpe_agent.cpp\<close>: the options of an agent
  and the connection to the broker they lead to; and \<^verbatim>\<open>src/src/cpe_agent_register.cpp\<close>: the registration of
  the HTTP interface with the conductor. The command line is the list of arguments after the program's
  name. \<^verbatim>\<open>exit\<close> is the left value of a sum.
\<close>

section \<open>Data\<close>

record agent_config =
  broker_port :: int
  broker_host :: string
  broker_username :: string
  broker_password :: string
  broker_service :: string
  broker_gssapi :: bool
  m_http_port :: int
  m_conductor_port :: int
  m_conductor_host :: string
  m_conductor_auth :: string
  non_opt_args :: "string list"
  is_cpe :: bool
  ag_daemonize :: bool
  ag_loglevel :: int

definition LOG_INFO :: int where "LOG_INFO = 6"
definition LOG_TRACE :: int where "LOG_TRACE = 8"

text \<open>The constructors; the members that the base class leaves alone are empty here and never read.\<close>

definition common_agent_new :: agent_config where
  "common_agent_new =
     \<lparr>broker_port = 49000, broker_host = ''localhost'', broker_username = [], broker_password = [],
      broker_service = [], broker_gssapi = False, m_http_port = 0, m_conductor_port = 0, m_conductor_host = [],
      m_conductor_auth = [], non_opt_args = [], is_cpe = False, ag_daemonize = False, ag_loglevel = LOG_INFO\<rparr>"

definition cpe_agent_new :: agent_config where
  "cpe_agent_new = common_agent_new\<lparr>is_cpe := True, m_http_port := 8888, m_conductor_host := ''localhost'',
     m_conductor_port := 3000, m_conductor_auth := ''admin:password''\<rparr>"

text \<open>The virtual functions: the base class has no HTTP interface and no conductor.\<close>

definition http_port :: "agent_config \<Rightarrow> int" where
  "http_port c = (if is_cpe c then m_http_port c else 0)"

definition conductor_port :: "agent_config \<Rightarrow> int" where
  "conductor_port c = (if is_cpe c then m_conductor_port c else 0)"

definition conductor_host :: "agent_config \<Rightarrow> string option" where
  "conductor_host c = (if is_cpe c then Some (m_conductor_host c) else None)"

definition conductor_auth :: "agent_config \<Rightarrow> string option" where
  "conductor_auth c = (if is_cpe c then Some (m_conductor_auth c) else None)"

section \<open>Options\<close>

definition opt_long :: "long_option list" where
  "opt_long =
     [(''help'', False, CHR ''h''), (''daemon'', False, CHR ''d''), (''broker'', True, CHR ''b''), (''gssapi'', False, CHR ''g''),
      (''username'', True, CHR ''u''), (''password'', True, CHR ''P''), (''service'', True, CHR ''s''), (''port'', True, CHR ''p''),
      (''http-port'', True, CHR ''H''), (''conductor-host'', True, CHR ''c''), (''conductor-port'', True, CHR ''C''),
      (''conductor-auth'', True, CHR ''a'')]"

definition agent_optstring :: string where
  "agent_optstring = ''hdb:gu:P:s:p:vH:c:C:a:''"

definition agent_getopt :: "string list \<Rightarrow> opt_result list \<times> string list" where
  "agent_getopt args = getopt_long agent_optstring opt_long args"

text \<open>\<^verbatim>\<open>atoi\<close> of the C library at hand: \<^verbatim>\<open>strtol\<close>, truncated to the width of \<^verbatim>\<open>int\<close>.\<close>

definition atoi :: "string \<Rightarrow> int" where
  "atoi a = signed_take_bit 31 (st_val (strtol a))"

definition get_port :: "string option \<Rightarrow> int" where
  "get_port optarg =
     (case optarg of
        None \<Rightarrow> 0
      | Some a \<Rightarrow> let port = atoi a in if port < 1 \<or> port > 65535 then 0 else port)"

text \<open>An argument that must be there.\<close>

definition needs_arg :: "string option \<Rightarrow> (string \<Rightarrow> agent_config) \<Rightarrow> int + agent_config" where
  "needs_arg optarg f = (case optarg of None \<Rightarrow> Inl 1 | Some a \<Rightarrow> Inr (f a))"

definition agent_option :: "char \<Rightarrow> string option \<Rightarrow> agent_config \<Rightarrow> int + agent_config" where
  "agent_option opt optarg c =
     (if opt = CHR ''h'' \<or> opt = CHR ''?'' then Inl 0
      else if opt = CHR ''d'' then Inr (c\<lparr>ag_daemonize := True\<rparr>)
      else if opt = CHR ''v'' then Inr (c\<lparr>ag_loglevel := ag_loglevel c + 1\<rparr>)
      else if opt = CHR ''s'' then needs_arg optarg (\<lambda>a. c\<lparr>broker_service := a\<rparr>)
      else if opt = CHR ''u'' then needs_arg optarg (\<lambda>a. c\<lparr>broker_username := a\<rparr>)
      else if opt = CHR ''P'' then needs_arg optarg (\<lambda>a. c\<lparr>broker_password := a\<rparr>)
      else if opt = CHR ''g'' then Inr (c\<lparr>broker_gssapi := True\<rparr>)
      else if opt = CHR ''p'' then
        let port = get_port optarg in if port = 0 then Inl 1 else Inr (c\<lparr>broker_port := port\<rparr>)
      else if opt = CHR ''b'' then needs_arg optarg (\<lambda>a. c\<lparr>broker_host := a\<rparr>)
      else if opt = CHR ''H'' then
        if http_port c \<noteq> 0
        then let port = get_port optarg in if port \<noteq> 0 then Inr (c\<lparr>m_http_port := port\<rparr>) else Inl 1
        else Inl 0
      else if opt = CHR ''c'' then
        if conductor_host c \<noteq> None then needs_arg optarg (\<lambda>a. c\<lparr>m_conductor_host := a\<rparr>) else Inl 0
      else if opt = CHR ''C'' then
        if conductor_port c \<noteq> 0
        then let port = get_port optarg in
             if port \<noteq> 0 then needs_arg optarg (\<lambda>a. c\<lparr>m_conductor_port := atoi a\<rparr>) else Inl 1
        else Inl 0
      else if opt = CHR ''a'' then
        if conductor_auth c \<noteq> None then needs_arg optarg (\<lambda>a. c\<lparr>m_conductor_auth := a\<rparr>) else Inl 0
      else Inl 0)"

fun options_loop :: "(char \<times> string option) list \<Rightarrow> agent_config \<Rightarrow> int + agent_config" where
  "options_loop [] c = Inr c"
| "options_loop ((opt, optarg) # opts) c =
     (case agent_option opt optarg c of Inl code \<Rightarrow> Inl code | Inr c' \<Rightarrow> options_loop opts c')"

section \<open>The connection to the broker\<close>

datatype broker_value = B_bool bool | B_str string

record broker_connection =
  bc_url :: string
  bc_options :: "(string \<times> broker_value) list"

definition connection_of :: "agent_config \<Rightarrow> broker_connection" where
  "connection_of c =
     \<lparr>bc_url = broker_host c @ '':'' @ show_int (broker_port c),
      bc_options = [(''reconnect'', B_bool True)] @
        (if broker_username c \<noteq> [] then [(''username'', B_str (broker_username c))] else []) @
        (if broker_password c \<noteq> [] then [(''password'', B_str (broker_password c))] else []) @
        (if broker_service c \<noteq> [] then [(''sasl-service'', B_str (broker_service c))] else []) @
        (if broker_gssapi c then [(''sasl-mechanism'', B_str ''GSSAPI'')] else [])\<rparr>"

definition agent_init ::
  "string list \<Rightarrow> bool \<Rightarrow> agent_config \<Rightarrow> int + agent_config \<times> broker_connection" where
  "agent_init args daemon_ok c =
     (case options_loop (fst (agent_getopt args)) c of
        Inl code \<Rightarrow> Inl code
      | Inr c \<Rightarrow>
          let c = c\<lparr>non_opt_args := non_opt_args c @ snd (agent_getopt args), ag_loglevel := min (ag_loglevel c) LOG_TRACE\<rparr>
          in if ag_daemonize c \<and> \<not> daemon_ok then Inl 1 else Inr (c, connection_of c))"

section \<open>Ports\<close>

definition is_port :: "int \<Rightarrow> bool" where
  "is_port p \<longleftrightarrow> 1 \<le> p \<and> p \<le> 65535"

lemma get_port_range: "get_port optarg = 0 \<or> is_port (get_port optarg)"
  by (auto simp: get_port_def is_port_def Let_def split: option.splits)

lemma get_port_atoi: "get_port (Some a) \<noteq> 0 \<Longrightarrow> atoi a = get_port (Some a)"
  by (auto simp: get_port_def Let_def split: if_splits)

text \<open>The number of a decimal argument is taken modulo the width of an int.\<close>

lemma get_port_decimal:
  assumes "LONG_MIN \<le> i" and "i \<le> LONG_MAX"
  shows "get_port (Some (show_int i)) = (if is_port (signed_take_bit 31 i) then signed_take_bit 31 i else 0)"
  using strtol_show_int [OF assms] by (auto simp: get_port_def atoi_def is_port_def Let_def)

definition agent_wf :: "agent_config \<Rightarrow> bool" where
  "agent_wf c \<longleftrightarrow> is_port (broker_port c) \<and> LOG_INFO \<le> ag_loglevel c \<and>
     (is_cpe c \<longrightarrow> is_port (m_http_port c) \<and> is_port (m_conductor_port c))"

text \<open>What one option can do; \<open>runs\<close> is about the result unless the program exits.\<close>

definition runs :: "('a \<Rightarrow> bool) \<Rightarrow> int + 'a \<Rightarrow> bool" where
  "runs P m \<longleftrightarrow> (\<forall>x. m = Inr x \<longrightarrow> P x)"

lemma runs_intros:
  "runs P (Inl e)"
  "P x \<Longrightarrow> runs P (Inr x)"
  "(b \<Longrightarrow> runs P m) \<Longrightarrow> (\<not> b \<Longrightarrow> runs P n) \<Longrightarrow> runs P (if b then m else n)"
  by (auto simp: runs_def)

lemma runs_needs_arg: "(\<And>a. optarg = Some a \<Longrightarrow> P (f a)) \<Longrightarrow> runs P (needs_arg optarg f)"
  by (auto simp: runs_def needs_arg_def split: option.splits)

lemma get_port_is_port: "get_port optarg \<noteq> 0 \<Longrightarrow> is_port (get_port optarg)"
  using get_port_range [of optarg] by simp

lemma agent_option_cases:
  assumes "agent_option opt optarg c = Inr c'"
    and flags: "P (c\<lparr>ag_daemonize := True\<rparr>)" "P (c\<lparr>ag_loglevel := ag_loglevel c + 1\<rparr>)" "P (c\<lparr>broker_gssapi := True\<rparr>)"
    and texts: "\<And>a. P (c\<lparr>broker_service := a\<rparr>)" "\<And>a. P (c\<lparr>broker_username := a\<rparr>)" "\<And>a. P (c\<lparr>broker_password := a\<rparr>)"
      "\<And>a. P (c\<lparr>broker_host := a\<rparr>)" "\<And>a. P (c\<lparr>m_conductor_host := a\<rparr>)" "\<And>a. P (c\<lparr>m_conductor_auth := a\<rparr>)"
    and ports: "\<And>p. opt = CHR ''p'' \<Longrightarrow> is_port p \<Longrightarrow> P (c\<lparr>broker_port := p\<rparr>)"
      "\<And>p. opt = CHR ''H'' \<Longrightarrow> is_port p \<Longrightarrow> P (c\<lparr>m_http_port := p\<rparr>)"
      "\<And>p. opt = CHR ''C'' \<Longrightarrow> is_port p \<Longrightarrow> P (c\<lparr>m_conductor_port := p\<rparr>)"
  shows "P c'"
proof -
  have C: "P (c\<lparr>m_conductor_port := atoi a\<rparr>)" if "opt = CHR ''C''" "get_port optarg \<noteq> 0" "optarg = Some a" for a
    using that get_port_atoi [of a] get_port_is_port [of optarg] ports(3) by simp
  have "runs P (agent_option opt optarg c)"
    unfolding agent_option_def Let_def
    by (intro runs_intros runs_needs_arg flags texts ports C get_port_is_port; (assumption | simp only: not_not))
  then show ?thesis using assms(1) by (simp add: runs_def)
qed

lemma option_wf:
  assumes "agent_wf c" and "agent_option opt optarg c = Inr c'"
  shows "agent_wf c' \<and> is_cpe c' = is_cpe c"
  by (rule agent_option_cases [OF assms(2)]) (use assms(1) in \<open>simp_all add: agent_wf_def\<close>)

lemma options_wf:
  "agent_wf c \<Longrightarrow> options_loop opts c = Inr c' \<Longrightarrow> agent_wf c' \<and> is_cpe c' = is_cpe c"
proof (induction opts c rule: options_loop.induct)
  case (2 opt optarg opts c)
  then show ?case using option_wf [OF 2(2)] by (auto split: sum.splits)
qed simp

lemma options_operands: "options_loop opts c = Inr c' \<Longrightarrow> non_opt_args c' = non_opt_args c"
proof (induction opts c rule: options_loop.induct)
  case (2 opt optarg opts c)
  then obtain d where d: "agent_option opt optarg c = Inr d" "options_loop opts d = Inr c'"
    by (auto split: sum.splits)
  have "non_opt_args d = non_opt_args c" by (rule agent_option_cases [OF d(1)]) simp_all
  with 2(1) d show ?case by simp
qed simp

lemma options_ports:
  assumes "options_loop opts c = Inr c'" and "fst ` set opts \<inter> {CHR ''p'', CHR ''H'', CHR ''C''} = {}"
  shows "broker_port c' = broker_port c \<and> m_http_port c' = m_http_port c \<and> m_conductor_port c' = m_conductor_port c"
  using assms
proof (induction opts c rule: options_loop.induct)
  case (2 opt optarg opts c)
  from 2(2) obtain d where d: "agent_option opt optarg c = Inr d" "options_loop opts d = Inr c'"
    by (cases "agent_option opt optarg c") simp_all
  have "broker_port d = broker_port c \<and> m_http_port d = m_http_port c \<and> m_conductor_port d = m_conductor_port c"
    by (rule agent_option_cases [OF d(1)]) (use 2(3) in simp_all)
  with 2(1) [OF d] 2(3) show ?case by simp
qed simp

lemma agent_initE:
  assumes "agent_init args daemon_ok cpe_agent_new = Inr (c, conn)"
  obtains d where "options_loop (fst (agent_getopt args)) cpe_agent_new = Inr d" and "agent_wf d" and "is_cpe d" and "non_opt_args d = []"
    and "c = d\<lparr>non_opt_args := non_opt_args d @ snd (agent_getopt args), ag_loglevel := min (ag_loglevel d) LOG_TRACE\<rparr>"
    and "conn = connection_of c"
proof -
  obtain d where d: "options_loop (fst (agent_getopt args)) cpe_agent_new = Inr d"
    using assms by (cases "options_loop (fst (agent_getopt args)) cpe_agent_new") (simp_all add: agent_init_def)
  let ?c = "d\<lparr>non_opt_args := non_opt_args d @ snd (agent_getopt args), ag_loglevel := min (ag_loglevel d) LOG_TRACE\<rparr>"
  have "agent_init args daemon_ok cpe_agent_new =
      (if ag_daemonize d \<and> \<not> daemon_ok then Inl 1 else Inr (?c, connection_of ?c))"
    by (simp add: agent_init_def d Let_def)
  then have c: "c = ?c" and conn: "conn = connection_of ?c"
    using assms by (simp_all only: split: if_splits) blast+
  have "agent_wf cpe_agent_new" "is_cpe cpe_agent_new" "non_opt_args cpe_agent_new = []"
    by (simp_all add: agent_wf_def cpe_agent_new_def common_agent_new_def is_port_def)
  with options_wf [OF _ d] options_operands [OF d] have "agent_wf d" "is_cpe d" "non_opt_args d = []" by auto
  with d c conn show thesis using that by blast
qed

lemma agent_init_config:
  assumes "agent_init args daemon_ok cpe_agent_new = Inr (c, conn)"
  shows "is_cpe c \<and> is_port (http_port c)"
  using assms by (rule agent_initE) (simp add: agent_wf_def http_port_def)



section \<open>Spellings of the options\<close>

interpretation agent_opts: option_table agent_optstring opt_long
  by (rule table_ok_table) code_simp

text \<open>
  The table of long options agrees with the option string: however the options of a command line are
  written, as letters or by name, with attached or separate arguments, mixed with operands or not, the
  agent acts on exactly those options, in their order, and the operands are left over in theirs.
\<close>

lemma agent_options_read:
  assumes "list_all (item_ok agent_optstring) items" and "list_all (item_ok agent_optstring) items'"
    and "item_opts items = item_opts items'" and "item_operands items = item_operands items'"
  shows "agent_getopt (concat (map (spell opt_long) items)) = (item_opts items, item_operands items) \<and>
    agent_init (concat (map (spell opt_long) items)) = agent_init (concat (map (spell opt_long) items'))"
proof -
  have "agent_getopt (concat (map (spell opt_long) items)) = (item_opts items, item_operands items)"
    and "agent_getopt (concat (map (spell opt_long) items')) = (item_opts items, item_operands items)"
    using agent_opts.read_back [OF assms(1)] agent_opts.read_back [OF assms(2)] assms(3,4)
    by (simp_all add: agent_getopt_def)
  then show ?thesis by (simp add: agent_init_def fun_eq_iff cong: sum.case_cong)
qed

lemma agent_options_example:
  "agent_getopt [''--username=joe'', ''app'', ''-v'', ''-H80''] =
     ([(CHR ''u'', Some ''joe''), (CHR ''v'', None), (CHR ''H'', Some ''80'')], [''app'']) \<and>
   agent_init [''--username=joe'', ''app'', ''-v'', ''-H80''] =
   agent_init [''-u'', ''joe'', ''-v'', ''--http-port'', ''80'', ''app'']"
proof -
  let ?opts = "[(CHR ''u'', Some ''joe''), (CHR ''v'', None), (CHR ''H'', Some ''80'')] :: opt_result list"
  let ?i = "[Option Name_joined (?opts ! 0), Operand ''app'', Option Name (?opts ! 1), Option Letter_joined (?opts ! 2)]"
  let ?j = "[Option Letter (?opts ! 0), Option Letter (?opts ! 1), Option Name (?opts ! 2), Operand ''app'']"
  have "list_all (item_ok agent_optstring) ?i" "list_all (item_ok agent_optstring) ?j" by code_simp+
  moreover have "item_opts ?i = ?opts" "item_opts ?j = ?opts" "item_operands ?i = [''app'']" "item_operands ?j = [''app'']"
    by (simp_all add: item_opts_def item_operands_def)
  moreover have "concat (map (spell opt_long) ?i) = [''--username=joe'', ''app'', ''-v'', ''-H80'']"
    "concat (map (spell opt_long) ?j) = [''-u'', ''joe'', ''-v'', ''--http-port'', ''80'', ''app'']" by code_simp+
  ultimately show ?thesis using agent_options_read [of ?i ?j] by presburger
qed

text \<open>The name that the usage text gives for the host of the conductor is ambiguous: the agent prints its usage and exits.\<close>

lemma conductor_ambiguous: "agent_init [''--conductor'', host] daemon_ok c = Inl 0"
proof -
  have "long_match opt_long ''conductor'' = None" by code_simp
  then show ?thesis by (simp add: agent_init_def agent_getopt_def getopt_long_def getopt_name_def agent_option_def Let_def case_prod_beta)
qed

section \<open>Registration\<close>

text \<open>
  The answers of libcurl and of the allocator. A header is given to the callback with the bytes that follow
  it in memory, since it is not terminated.
\<close>

record curl_answers =
  cu_init :: bool
  cu_alloc_hook :: bool
  cu_alloc_url :: bool
  cu_perform :: int
  cu_http_code :: int
  cu_headers :: "(string \<times> string) list"

definition hook_document :: "agent_config \<Rightarrow> string" where
  "hook_document c = ''<hook>  <uri>https://localhost:'' @ show_int (http_port c) @
     ''/pacemaker-cloud/api</uri>  <version>1</version></hook>''"

definition hooks_url :: "agent_config \<Rightarrow> string" where
  "hooks_url c = ''http://'' @ (case conductor_host c of None \<Rightarrow> ''(null)'' | Some h \<Rightarrow> h) @ '':'' @
     show_int (conductor_port c) @ ''/conductor/api/hooks''"

definition strndup :: "string \<Rightarrow> nat \<Rightarrow> string" where
  "strndup str n = take n (takeWhile (\<lambda>ch. ch \<noteq> CHR 0x00) str)"

text \<open>
  The callback of a piece of the body, which is kept with a zero byte behind it for the error message; when the
  buffer cannot grow, the program exits.
\<close>

record curl_recv_info =
  recv_data :: "string option"
  recv_size :: nat

definition curl_recv :: "bool \<Rightarrow> string \<Rightarrow> curl_recv_info \<Rightarrow> int + curl_recv_info" where
  "curl_recv realloc_ok bytes mem =
     (if \<not> realloc_ok then Inl 1
      else Inr \<lparr>recv_data = Some (take (recv_size mem) (case recv_data mem of None \<Rightarrow> [] | Some d \<Rightarrow> d) @ bytes @ [CHR 0x00]),
                recv_size = recv_size mem + length bytes\<rparr>)"

fun curl_recv_all :: "string list \<Rightarrow> curl_recv_info \<Rightarrow> int + curl_recv_info" where
  "curl_recv_all [] mem = Inr mem"
| "curl_recv_all (bytes # pieces) mem =
     (case curl_recv True bytes mem of Inl code \<Rightarrow> Inl code | Inr mem' \<Rightarrow> curl_recv_all pieces mem')"

text \<open>The callback of a header; libcurl always passes 1 as \<open>sz\<close>.\<close>

definition curl_process_header :: "nat \<Rightarrow> string \<times> string \<Rightarrow> string option \<Rightarrow> string option" where
  "curl_process_header sz header location =
     (let bytes = fst header @ snd header in
      if take 9 bytes = ''Location:'' then Some (strndup (drop 10 bytes) (unat (of_nat sz - 10 :: 64 word)))
      else location)"

text \<open>What is posted and the hook that is recorded, if the registration succeeded.\<close>

definition register_hook :: "curl_answers \<Rightarrow> agent_config \<Rightarrow> (string \<times> string) option \<times> string option" where
  "register_hook A c =
     (if \<not> cu_init A \<or> \<not> cu_alloc_hook A \<or> \<not> cu_alloc_url A then (None, None)
      else
        let location = fold (curl_process_header 1) (cu_headers A) None in
        (Some (hooks_url c, hook_document c),
         if cu_perform A \<noteq> 0 then None
         else if cu_http_code A \<ge> 400 \<or> location = None then None
         else location))"

text \<open>However the body is cut into pieces, it is collected whole and terminated.\<close>

lemma curl_recv_collects:
  assumes "recv_data mem = Some (body @ [CHR 0x00])" and "recv_size mem = length body"
  shows "curl_recv_all pieces mem =
    Inr \<lparr>recv_data = Some (body @ concat pieces @ [CHR 0x00]), recv_size = length (body @ concat pieces)\<rparr>"
  using assms
proof (induction pieces arbitrary: mem body)
  case Nil
  then show ?case by (cases mem) simp
next
  case (Cons bytes pieces)
  let ?mem = "\<lparr>recv_data = Some ((body @ bytes) @ [CHR 0x00]), recv_size = length (body @ bytes)\<rparr>"
  have "curl_recv True bytes mem = Inr ?mem" using Cons.prems by (simp add: curl_recv_def)
  then show ?case using Cons.IH [of ?mem "body @ bytes"] by simp
qed

lemma curl_recv_body:
  assumes "pieces \<noteq> []"
  shows "curl_recv_all pieces \<lparr>recv_data = None, recv_size = 0\<rparr> =
    Inr \<lparr>recv_data = Some (concat pieces @ [CHR 0x00]), recv_size = length (concat pieces)\<rparr>"
proof -
  obtain bytes rest where pieces: "pieces = bytes # rest" using assms by (cases pieces) auto
  let ?mem = "\<lparr>recv_data = Some (bytes @ [CHR 0x00]), recv_size = length bytes\<rparr>"
  have "curl_recv True bytes \<lparr>recv_data = None, recv_size = 0\<rparr> = Inr ?mem" by (simp add: curl_recv_def)
  then show ?thesis using curl_recv_collects [of ?mem bytes rest] by (simp add: pieces)
qed

text \<open>
  The recorded hook is not the location that was sent: the length given to \<^verbatim>\<open>strndup\<close> wraps around, so
  that the line end and the memory behind the header up to the next zero byte are part of it.
\<close>

lemma hook_overread:
  assumes "cu_headers A = [(''Location: '' @ url @ [CHR 0x0D, CHR 0x0A], after @ [CHR 0x00])]"
    and "CHR 0x00 \<notin> set url \<union> set after" and "length url + length after < 2 ^ 32"
    and "cu_init A" and "cu_alloc_hook A" and "cu_alloc_url A" and "cu_perform A = 0" and "cu_http_code A < 400"
  shows "snd (register_hook A c) = Some (url @ [CHR 0x0D, CHR 0x0A] @ after)"
proof -
  let ?str = "url @ [CHR 0x0D, CHR 0x0A] @ after"
  have "takeWhile (\<lambda>ch. ch \<noteq> CHR 0x00) (?str @ [CHR 0x00]) = ?str"
    using assms(2) by (subst takeWhile_append2) auto
  moreover have "length ?str \<le> unat (of_nat 1 - 10 :: 64 word)" using assms(3) by simp
  ultimately have "strndup (?str @ [CHR 0x00]) (unat (of_nat 1 - 10 :: 64 word)) = ?str"
    by (simp only: strndup_def take_all)
  then show ?thesis using assms(1,4-) by (simp add: register_hook_def curl_process_header_def)
qed

end
