(* ===== verification/Agent_Loop.thy ===== *)
theory Agent_Loop
  imports Agent_Options Init_Job
begin

text \<open>
  What an agent does once its options are read: \<^verbatim>\<open>src/src/mainloop.cpp\<close>, which lets the event loop call the
  agent for the events of its session, the signal handlers, the log tables and the usage text of
  \<^verbatim>\<open>src/src/common_agent.cpp\<close>, and the console handler of \<^verbatim>\<open>src/src/cpe_agent.cpp\<close>. Allocations that are checked by
  an \<^verbatim>\<open>assert\<close> succeed.
\<close>

section \<open>The session in the event loop\<close>

text \<open>
  \<open>al_source\<close>: the \<^verbatim>\<open>mainloop_qmf_session_t\<close> is allocated; \<open>al_registered\<close>: its descriptor is polled;
  \<open>al_running\<close>: the loop has not been stopped. \<open>al_answers\<close> are the answers sent to the callers of methods.
\<close>

record agent_loop =
  al_source :: bool
  al_registered :: bool
  al_running :: bool
  al_init :: init_state
  al_answers :: "method_answer list"

definition mainloop_add_qmf_session :: "'a agent_loop_scheme \<Rightarrow> 'a agent_loop_scheme" where
  "mainloop_add_qmf_session s = s\<lparr>al_source := True, al_registered := True\<rparr>"

text \<open>
  \<^verbatim>\<open>qpid_callback\<close> calls the virtual \<^verbatim>\<open>event_dispatch\<close>: that of the CPE answers and returns true, that of the
  base class returns false.
\<close>

definition qpid_callback ::
  "dbus_answers \<Rightarrow> bool \<Rightarrow> agent_event \<Rightarrow> 'a agent_loop_scheme \<Rightarrow> (bool \<times> 'a agent_loop_scheme) res" where
  "qpid_callback D cpe ev s =
     (if \<not> cpe then Inr (False, s)
      else bindE (event_dispatch D ev (al_init s)) (\<lambda>(answer, i).
        Inr (True, s\<lparr>al_init := i,
          al_answers := al_answers s @ (case answer of None \<Rightarrow> [] | Some a \<Rightarrow> [a])\<rparr>)))"

text \<open>
  The handler of the descriptor, given the next event of the session, if there is one. The source is freed
  when the callback returns false, and stays registered. The function has no \<^verbatim>\<open>return\<close>: what its caller finds
  as its result is an argument (\<open>ret\<close>), and the event loop of libqb drops a descriptor whose handler
  returned a negative number.
\<close>

definition poll_for_qmf_events ::
  "dbus_answers \<Rightarrow> bool \<Rightarrow> agent_event option \<Rightarrow> 'a agent_loop_scheme \<Rightarrow> 'a agent_loop_scheme res" where
  "poll_for_qmf_events D cpe event s =
     (if \<not> al_source s then Inl BadPtr
      else case event of
        None \<Rightarrow> Inr s
      | Some ev \<Rightarrow>
          bindE (qpid_callback D cpe ev s) (\<lambda>(rerun, s).
          Inr (if \<not> rerun then s\<lparr>al_source := False\<rparr> else s)))"

definition poll_dispatch ::
  "dbus_answers \<Rightarrow> bool \<Rightarrow> int \<Rightarrow> agent_event option \<Rightarrow> 'a agent_loop_scheme \<Rightarrow> 'a agent_loop_scheme res" where
  "poll_dispatch D cpe ret event s =
     bindE (poll_for_qmf_events D cpe event s) (\<lambda>s.
     Inr (if ret < 0 then s\<lparr>al_registered := False\<rparr> else s))"

text \<open>An agent that keeps the dispatcher of the base class is called with freed memory at its second event.\<close>

lemma base_dispatch_use_after_free:
  assumes "al_source s" and "al_registered s" and "0 \<le> ret"
  shows "\<exists>s'. poll_dispatch D False ret (Some ev) s = Inr s' \<and> al_registered s' \<and>
    poll_dispatch D' False ret' event s' = Inl BadPtr"
  using assms by (simp add: poll_dispatch_def poll_for_qmf_events_def qpid_callback_def)

section \<open>Signals\<close>

definition SIGHUP :: int where "SIGHUP = 1"
definition SIGTERM :: int where "SIGTERM = 15"

definition signal_handler :: "int \<Rightarrow> 'a agent_loop_scheme \<Rightarrow> 'a agent_loop_scheme" where
  "signal_handler rsignal s = (if rsignal = SIGTERM then s\<lparr>al_running := False\<rparr> else s)"

text \<open>The registered function; it returns 0, and the signal stays registered.\<close>

definition sig_handler :: "int \<Rightarrow> 'a agent_loop_scheme \<Rightarrow> int \<times> 'a agent_loop_scheme" where
  "sig_handler rsignal s = (0, signal_handler rsignal s)"

section \<open>Logging\<close>

definition LOG_CRIT :: int where "LOG_CRIT = 2"
definition LOG_ERR :: int where "LOG_ERR = 3"
definition LOG_WARNING :: int where "LOG_WARNING = 4"
definition LOG_NOTICE :: int where "LOG_NOTICE = 5"
definition LOG_DEBUG :: int where "LOG_DEBUG = 7"

lemmas log_levels = LOG_CRIT_def LOG_ERR_def LOG_WARNING_def LOG_NOTICE_def LOG_INFO_def LOG_DEBUG_def LOG_TRACE_def

text \<open>The levels of qpid in their order, from trace to critical; the table has room for an eighth.\<close>

definition qpid_level :: "int list" where
  "qpid_level = [LOG_TRACE, LOG_DEBUG, LOG_INFO, LOG_NOTICE, LOG_WARNING, LOG_ERR, LOG_CRIT, 0]"

definition qpid_log_priority :: "nat \<Rightarrow> int res" where
  "qpid_log_priority level =
     (if level < length qpid_level
      then let priority = uint (word_of_int (qpid_level ! level) :: 8 word) in assertE (priority \<le> LOG_TRACE) priority
      else Inl BadPtr)"

definition G_LOG_FLAG_RECURSION :: u32 where "G_LOG_FLAG_RECURSION = 1"
definition G_LOG_FLAG_FATAL :: u32 where "G_LOG_FLAG_FATAL = 2"
definition G_LOG_LEVEL_ERROR :: u32 where "G_LOG_LEVEL_ERROR = 4"
definition G_LOG_LEVEL_CRITICAL :: u32 where "G_LOG_LEVEL_CRITICAL = 8"
definition G_LOG_LEVEL_WARNING :: u32 where "G_LOG_LEVEL_WARNING = 16"
definition G_LOG_LEVEL_MESSAGE :: u32 where "G_LOG_LEVEL_MESSAGE = 32"
definition G_LOG_LEVEL_INFO :: u32 where "G_LOG_LEVEL_INFO = 64"
definition G_LOG_LEVEL_DEBUG :: u32 where "G_LOG_LEVEL_DEBUG = 128"
definition G_LOG_LEVEL_MASK :: u32 where "G_LOG_LEVEL_MASK = - 4"

lemmas glib_levels = G_LOG_FLAG_RECURSION_def G_LOG_FLAG_FATAL_def G_LOG_LEVEL_ERROR_def G_LOG_LEVEL_CRITICAL_def
  G_LOG_LEVEL_WARNING_def G_LOG_LEVEL_MESSAGE_def G_LOG_LEVEL_INFO_def G_LOG_LEVEL_DEBUG_def G_LOG_LEVEL_MASK_def

unbundle bit_operations_syntax

definition agent_glib_handler :: "u32 \<Rightarrow> int" where
  "agent_glib_handler flags =
     (let msg_level = flags AND G_LOG_LEVEL_MASK in
      if msg_level = G_LOG_LEVEL_CRITICAL \<or> msg_level = G_LOG_FLAG_FATAL then LOG_CRIT
      else if msg_level = G_LOG_LEVEL_ERROR then LOG_ERR
      else if msg_level = G_LOG_LEVEL_MESSAGE then LOG_NOTICE
      else if msg_level = G_LOG_LEVEL_INFO then LOG_INFO
      else if msg_level = G_LOG_LEVEL_DEBUG then LOG_DEBUG
      else LOG_WARNING)"

definition agent_tags_stringify :: "u32 \<Rightarrow> string" where
  "agent_tags_stringify tags =
     (if bit tags 31 then ''QB   ''
      else if tags = 1 then ''QPID ''
      else if tags = 2 then ''GLIB ''
      else if tags = 3 then ''PCMK ''
      else ''MAIN '')"

text \<open>The recursion and fatal flags never change the level of a message.\<close>

lemma glib_flags_ignored:
  "agent_glib_handler (level OR G_LOG_FLAG_FATAL) = agent_glib_handler level"
  "agent_glib_handler (level OR G_LOG_FLAG_RECURSION) = agent_glib_handler level"
proof -
  have "(level OR G_LOG_FLAG_FATAL) AND G_LOG_LEVEL_MASK = level AND G_LOG_LEVEL_MASK"
    "(level OR G_LOG_FLAG_RECURSION) AND G_LOG_LEVEL_MASK = level AND G_LOG_LEVEL_MASK"
    by (simp_all add: glib_levels bit.conj_disj_distrib2)
  then show "agent_glib_handler (level OR G_LOG_FLAG_FATAL) = agent_glib_handler level"
    "agent_glib_handler (level OR G_LOG_FLAG_RECURSION) = agent_glib_handler level"
    by (simp_all add: agent_glib_handler_def)
qed

lemma qpid_log_priority_total:
  assumes "level < 7"
  shows "\<exists>p. qpid_log_priority level = Inr p \<and> LOG_CRIT \<le> p \<and> p \<le> LOG_TRACE"
proof -
  from assms consider "level = 0" | "level = 1" | "level = 2" | "level = 3" | "level = 4" | "level = 5" | "level = 6"
    by linarith
  then show ?thesis
    by cases (simp_all add: qpid_log_priority_def qpid_level_def log_levels assertE_def)
qed

section \<open>Usage\<close>

definition usage :: "string \<Rightarrow> agent_config \<Rightarrow> string list" where
  "usage proc_name c =
     (''Usage:'' @ [CHR 0x09] @ proc_name @ ''d <options>'') # map (Cons (CHR 0x09)) (
     [''-d | --daemon     run as a daemon'',
      ''-h | --help       print this help message'',
      ''-b | --broker     broker host name to connect to (default: '' @ broker_host c @ '')'',
      ''-p | --port       broker port to connect to (default: '' @ show_int (broker_port c) @ '')'',
      ''-g | --gssapi     force GSSAPI authentication with broker'',
      ''-u | --username   username to authenticate with broker'',
      ''-P | --password   password to authenticate with broker'',
      ''-s | --service    service name to authenticate with broker''] @
     (if http_port c \<noteq> 0
      then [''-H | --http-port  port where HTTP API listens (default: '' @ show_int (http_port c) @ '')''] else []) @
     (case conductor_host c of None \<Rightarrow> []
      | Some h \<Rightarrow> [''-c | --conductor  conductor host name to connect to (default: '' @ h @ '')'']) @
     (if conductor_port c \<noteq> 0
      then [''-C | --conductor-port  conductor port to connect to (default: '' @ show_int (conductor_port c) @ '')'']
      else []) @
     (case conductor_auth c of None \<Rightarrow> []
      | Some a \<Rightarrow> [''-a | --conductor-auth  conductor user:pass to use (default: '' @ a @ '')'']))"

definition unsupported :: "char \<Rightarrow> string \<Rightarrow> agent_config \<Rightarrow> int \<times> string list" where
  "unsupported arg proc_name c = (0, (''unsupported option '' @ [CHR 0x27, CHR ''-'', arg, CHR 0x27]) # usage proc_name c)"

text \<open>
  The usage text names the option \<^verbatim>\<open>--conductor\<close>; the table of options has \<^verbatim>\<open>--conductor-host\<close>. It never lists the
  options of the conductor for an agent that has none.
\<close>

lemma usage_common:
  assumes "\<not> is_cpe c"
  shows "length (usage p c) = 9"
  using assms by (simp add: usage_def http_port_def conductor_host_def conductor_port_def conductor_auth_def)

section \<open>The console handler\<close>

text \<open>
  The events of a console session, as far as the handler reads them: whether an agent was added, and its
  name. The result is what is printed and the value returned. Nothing registers this handler.
\<close>

definition console_handler :: "string \<Rightarrow> (bool \<times> string) option \<Rightarrow> string list \<times> int" where
  "console_handler broker_agent event =
     ((case event of
         None \<Rightarrow> []
       | Some (added, name) \<Rightarrow>
           ''event'' #
           (if added then
              ''agent added'' #
              (if name = broker_agent then [''Agent Added: '' @ name @ ''  [Connected Broker]''] else [])
            else [])), 1)"

end
