(* ===== verification/Cpe_Httpd.thy ===== *)
theory Cpe_Httpd
  imports Xml
begin

text \<open>
  \<^verbatim>\<open>src/src/cpe_httpd.cpp\<close>: the HTTP interface of the cloud policy engine. The HTTP server calls
  \<open>answer_to_connection\<close> once when the headers of a request are there, once per piece of its body and once
  at its end, and keeps \<open>con_info\<close> between these calls. The push parser of libxml2 is an argument: a
  context is the bytes it was given, and \<open>xml_parser\<close> says what the library makes of them. The answers of
  the server library and of the allocator are \<open>http_answers\<close>. The first child of a \<^verbatim>\<open>state\<close> element is
  an element or text; comments and CDATA sections are not distinguished from text.
\<close>

section \<open>Data\<close>

datatype connection_type = GET | POST

record con_info =
  ci_type :: connection_type
  ci_answer :: "string option"
  ci_ctxt :: "string option"

record page =
  pg_body :: string
  pg_mime :: "string option"
  pg_status :: nat

record http_conn =
  hc_con_cls :: "con_info option"
  hc_pages :: "page list"

record xml_parser =
  xp_status :: "string \<Rightarrow> string \<Rightarrow> int"
  xp_well_formed :: "string \<Rightarrow> bool"
  xp_doc :: "string \<Rightarrow> xml option"
  xp_error :: "string \<Rightarrow> string option"

text \<open>\<open>ma_queue\<close> is the result of \<^verbatim>\<open>MHD_queue_response\<close>, given whether a piece of the body is being handled.\<close>

record http_answers =
  ma_response :: bool
  ma_queue :: "bool \<Rightarrow> int"
  ma_malloc :: bool
  ma_ctxt :: bool

definition MHD_NO :: int where "MHD_NO = 0"
definition MHD_YES :: int where "MHD_YES = 1"

definition list_page :: string where "list_page = ''<deployments>todo</deployments>''"

definition client_errorpage :: "string \<Rightarrow> string" where
  "client_errorpage msg = ''<html><body>Invalid input ['' @ msg @ '']</body></html>''"

definition server_errorpage :: "string \<Rightarrow> string" where
  "server_errorpage msg = ''<html><body>Server error ['' @ msg @ '']</body></html>''"

section \<open>Responses\<close>

text \<open>A page goes out when the server takes the response; the text of a missing page is a NULL pointer.\<close>

definition send_page ::
  "http_answers \<Rightarrow> bool \<Rightarrow> string option \<Rightarrow> string option \<Rightarrow> nat \<Rightarrow> http_conn \<Rightarrow> (int \<times> http_conn) res" where
  "send_page A uploading body mimetype status_code s =
     bindE (derefE NullDeref body) (\<lambda>b.
     if \<not> ma_response A then Inr (MHD_NO, s)
     else
       let ret = ma_queue A uploading in
       Inr (ret, if ret = MHD_NO then s
                 else s\<lparr>hc_pages := hc_pages s @ [\<lparr>pg_body = b, pg_mime = mimetype, pg_status = status_code\<rparr>]\<rparr>))"

section \<open>Events\<close>

text \<open>The last element below the event that is not its time.\<close>

fun item_loop :: "xml list \<Rightarrow> xml option \<Rightarrow> xml option" where
  "item_loop [] item = item"
| "item_loop (n # ns) item =
     item_loop ns (if is_elem n \<and> \<not> has_name ''datetime'' n then Some n else item)"

text \<open>The text of the first \<^verbatim>\<open>state\<close> below the item.\<close>

fun state_loop :: "xml list \<Rightarrow> string option res" where
  "state_loop [] = Inr None"
| "state_loop (n # ns) =
     (if has_name ''state'' n
      then (case kids n of
              [] \<Rightarrow> Inl NullDeref
            | Text t # _ \<Rightarrow> Inr (Some t)
            | _ \<Rightarrow> Inr None)
      else state_loop ns)"

definition handle_event :: "xml option \<Rightarrow> bool res" where
  "handle_event doc =
     bindE (derefE NullDeref doc) (\<lambda>event.
     bindE (derefE NullDeref (item_loop (kids event) None)) (\<lambda>item.
     bindE (state_loop (kids item)) (\<lambda>event_state.
     Inr (xmlGetProp item ''id'' \<noteq> None \<and> event_state \<noteq> None \<and>
          (x_name item = ''deployment'' \<or> x_name item = ''instance'')))))"

section \<open>Requests\<close>

definition set_con :: "con_info \<Rightarrow> http_conn \<Rightarrow> http_conn" where
  "set_con con s = s\<lparr>hc_con_cls := Some con\<rparr>"

text \<open>The end of a failed POST: its answer as a bad request, whatever becomes of the response.\<close>

definition post_failed :: "http_answers \<Rightarrow> bool \<Rightarrow> con_info \<Rightarrow> http_conn \<Rightarrow> (int \<times> http_conn) res" where
  "post_failed A uploading con s =
     bindE (send_page A uploading (ci_answer con) None 400 (set_con con s)) (\<lambda>(_, s). Inr (MHD_YES, s))"

definition first_call :: "http_answers \<Rightarrow> string \<Rightarrow> http_conn \<Rightarrow> (int \<times> http_conn) res" where
  "first_call A method s =
     (if \<not> ma_malloc A then Inr (MHD_NO, s)
      else if method = ''POST'' then
        if \<not> ma_ctxt A then Inr (MHD_NO, s)
        else Inr (MHD_YES, set_con \<lparr>ci_type = POST, ci_answer = None, ci_ctxt = Some []\<rparr> s)
      else Inr (MHD_YES, set_con \<lparr>ci_type = GET, ci_answer = None, ci_ctxt = None\<rparr> s))"

definition post_data :: "xml_parser \<Rightarrow> http_answers \<Rightarrow> con_info \<Rightarrow> string \<Rightarrow> http_conn \<Rightarrow> (int \<times> http_conn) res" where
  "post_data P A con data s =
     bindE (derefE BadPtr (ci_ctxt con)) (\<lambda>bytes.
     let con = con\<lparr>ci_ctxt := Some (bytes @ data)\<rparr> in
     if xp_status P bytes data = 0 then Inr (MHD_YES, set_con con s)
     else bindE (derefE NullDeref (xp_error P (bytes @ data))) (\<lambda>msg.
          post_failed A True (con\<lparr>ci_answer := Some (client_errorpage msg)\<rparr>) s))"

definition post_end :: "xml_parser \<Rightarrow> http_answers \<Rightarrow> con_info \<Rightarrow> http_conn \<Rightarrow> (int \<times> http_conn) res" where
  "post_end P A con s =
     bindE (derefE BadPtr (ci_ctxt con)) (\<lambda>bytes.
     if \<not> xp_well_formed P bytes then
       bindE (derefE NullDeref (xp_error P bytes)) (\<lambda>msg.
       post_failed A False (con\<lparr>ci_answer := Some (client_errorpage msg)\<rparr>) s)
     else
       bindE (handle_event (xp_doc P bytes)) (\<lambda>ok.
       if ok then send_page A False (Some []) (Some ''application/xml'') 200 s
       else if ci_answer con = None then
         let answer = server_errorpage ''unknown'' in
         send_page A False (Some answer) None 500 (set_con (con\<lparr>ci_answer := Some answer\<rparr>) s)
       else post_failed A False con s))"

definition API_PREFIX :: string where "API_PREFIX = ''/pacemaker-cloud/api''"

definition answer_to_connection ::
  "xml_parser \<Rightarrow> http_answers \<Rightarrow> string \<Rightarrow> string \<Rightarrow> string \<Rightarrow> http_conn \<Rightarrow> (int \<times> http_conn) res" where
  "answer_to_connection P A url method data s =
     (if take (length API_PREFIX) url \<noteq> API_PREFIX
      then send_page A (data \<noteq> []) (Some ''Not Found'') None 404 s
      else
        case hc_con_cls s of
          None \<Rightarrow> first_call A method s
        | Some con \<Rightarrow>
            if method = ''GET''
            then send_page A (data \<noteq> []) (Some list_page) (Some ''application/xml'') 200 s
            else if method = ''POST'' then
              if data \<noteq> [] then post_data P A con data s else post_end P A con s
            else send_page A (data \<noteq> []) (Some ''bad request'') None 400 s)"

definition request_completed :: "http_conn \<Rightarrow> http_conn" where
  "request_completed s = s\<lparr>hc_con_cls := None\<rparr>"

text \<open>
  The calls of one request: its headers, the pieces of its body, its end. A call that returns \<^verbatim>\<open>MHD_NO\<close>
  closes the connection.
\<close>

fun calls :: "xml_parser \<Rightarrow> http_answers \<Rightarrow> string \<Rightarrow> string \<Rightarrow> string list \<Rightarrow> http_conn \<Rightarrow> http_conn res" where
  "calls P A url method [] s = Inr s"
| "calls P A url method (d # ds) s =
     bindE (answer_to_connection P A url method d s) (\<lambda>(ret, s).
     if ret = MHD_NO then Inr s else calls P A url method ds s)"

definition serve :: "xml_parser \<Rightarrow> http_answers \<Rightarrow> string \<Rightarrow> string \<Rightarrow> string list \<Rightarrow> http_conn \<Rightarrow> http_conn res" where
  "serve P A url method body s =
     bindE (calls P A url method ([] # body @ [[]]) s) (\<lambda>s. Inr (request_completed s))"

section \<open>What an event must look like\<close>

lemma item_loop_last:
  "item_loop ns item =
     (let xs = filter (\<lambda>n. is_elem n \<and> \<not> has_name ''datetime'' n) ns in if xs = [] then item else Some (last xs))"
  by (induction ns arbitrary: item) (auto simp: Let_def)

lemma state_loop_find:
  "state_loop ns =
     (case List.find (has_name ''state'') ns of
        None \<Rightarrow> Inr None
      | Some st \<Rightarrow> (case kids st of [] \<Rightarrow> Inl NullDeref | Text t # _ \<Rightarrow> Inr (Some t) | _ \<Rightarrow> Inr None))"
  by (induction ns) auto


section \<open>A whole request\<close>

text \<open>
  What the handler relies on. The push parser of libxml2: once it reported an error, no continuation is
  well formed, and where it reports an error there is a message.
\<close>

definition push_parser :: "xml_parser \<Rightarrow> bool" where
  "push_parser P \<longleftrightarrow>
     (\<forall>bytes data. xp_status P bytes data \<noteq> 0 \<longrightarrow>
        xp_error P (bytes @ data) \<noteq> None \<and> (\<forall>rest. \<not> xp_well_formed P (bytes @ data @ rest))) \<and>
     (\<forall>bytes. \<not> xp_well_formed P bytes \<longrightarrow> xp_error P bytes \<noteq> None)"

text \<open>
  The server: memory is available, and a response is taken except while a piece of the body is handled.
\<close>

definition mhd_ready :: "http_answers \<Rightarrow> bool" where
  "mhd_ready A \<longleftrightarrow> ma_response A \<and> ma_malloc A \<and> ma_ctxt A \<and> ma_queue A True = MHD_NO \<and> ma_queue A False = MHD_YES"

definition post_page :: "xml_parser \<Rightarrow> string \<Rightarrow> page res" where
  "post_page P body =
     (if \<not> xp_well_formed P body
      then Inr \<lparr>pg_body = client_errorpage (the (xp_error P body)), pg_mime = None, pg_status = 400\<rparr>
      else bindE (handle_event (xp_doc P body)) (\<lambda>ok.
        Inr (if ok then \<lparr>pg_body = [], pg_mime = Some ''application/xml'', pg_status = 200\<rparr>
             else \<lparr>pg_body = server_errorpage ''unknown'', pg_mime = None, pg_status = 500\<rparr>)))"

lemma post_body:
  assumes P: "push_parser P" and A: "mhd_ready A" and url: "take (length API_PREFIX) url = API_PREFIX"
    and "[] \<notin> set ds" and "ci_ctxt con = Some bytes"
    and "ci_answer con \<noteq> None \<Longrightarrow> \<not> xp_well_formed P (bytes @ concat ds)"
  shows "bindE (calls P A url ''POST'' (ds @ [[]]) (set_con con s)) (\<lambda>t. Inr (request_completed t)) =
     bindE (post_page P (bytes @ concat ds)) (\<lambda>p. Inr (s\<lparr>hc_con_cls := None, hc_pages := hc_pages s @ [p]\<rparr>))"
  using assms(4-6)
proof (induction ds arbitrary: con bytes)
  case Nil
  have "\<not> xp_well_formed P bytes \<Longrightarrow> \<exists>msg. xp_error P bytes = Some msg"
    using P by (auto simp: push_parser_def)
  with Nil A url show ?case
    by (cases "xp_well_formed P bytes"; cases "handle_event (xp_doc P bytes)")
      (auto simp: answer_to_connection_def post_end_def post_failed_def send_page_def post_page_def mhd_ready_def
        set_con_def request_completed_def MHD_NO_def MHD_YES_def Let_def)
next
  case (Cons d ds)
  then have d: "d \<noteq> []" by auto
  show ?case
  proof (cases "xp_status P bytes d = 0")
    case True
    with d Cons.prems url Cons.IH [of "con\<lparr>ci_ctxt := Some (bytes @ d)\<rparr>" "bytes @ d"] show ?thesis
      by (simp add: answer_to_connection_def post_data_def set_con_def MHD_NO_def MHD_YES_def)
  next
    case False
    with P have "xp_error P (bytes @ d) \<noteq> None" and bad: "\<And>rest. \<not> xp_well_formed P (bytes @ d @ rest)"
      unfolding push_parser_def by blast+
    then obtain msg where msg: "xp_error P (bytes @ d) = Some msg" by blast
    with bad False d Cons.prems url A Cons.IH [of "con\<lparr>ci_ctxt := Some (bytes @ d), ci_answer := Some (client_errorpage msg)\<rparr>" "bytes @ d"]
    show ?thesis
      by (simp add: answer_to_connection_def post_data_def post_failed_def send_page_def mhd_ready_def set_con_def
          MHD_NO_def MHD_YES_def)
  qed
qed

text \<open>
  C19. A POST to the interface gets exactly one answer, which depends on the body alone and not on the pieces
  it arrives in: a bad request with the parser's message when the body is not well formed, success when it
  is an event that is accepted, and a server error otherwise. Where the event handler crashes, so does the
  request. Afterwards nothing of the request is left.
\<close>

theorem http_post_answer:
  assumes "push_parser P" and "mhd_ready A" and "take (length API_PREFIX) url = API_PREFIX" and "[] \<notin> set body"
    and "hc_con_cls s = None"
  shows "serve P A url ''POST'' body s =
     bindE (post_page P (concat body)) (\<lambda>p. Inr (s\<lparr>hc_pages := hc_pages s @ [p]\<rparr>))"
proof -
  let ?con = "\<lparr>ci_type = POST, ci_answer = None, ci_ctxt = Some []\<rparr>"
  have "serve P A url ''POST'' body s =
      bindE (calls P A url ''POST'' (body @ [[]]) (set_con ?con s)) (\<lambda>t. Inr (request_completed t))"
    using assms(2,3,5)
    by (simp add: serve_def answer_to_connection_def first_call_def mhd_ready_def MHD_NO_def MHD_YES_def)
  also have "\<dots> = bindE (post_page P (concat body)) (\<lambda>p. Inr (s\<lparr>hc_con_cls := None, hc_pages := hc_pages s @ [p]\<rparr>))"
    using post_body [OF assms(1-4), of ?con "[]" s] by simp
  also have "s\<lparr>hc_con_cls := None\<rparr> = s" using assms(5) by simp
  finally show ?thesis by simp
qed

text \<open>A parser that knows one document, and a server with memory.\<close>

definition demo_event_doc :: xml where
  "demo_event_doc = Elem 1 ''event'' [] [Elem 2 ''datetime'' [] [Text ''now''],
     Elem 3 ''instance'' [(''id'', ''i-1'')] [Elem 4 ''state'' [] [Text ''STARTED'']]]"

definition demo_parser :: xml_parser where
  "demo_parser = \<lparr>xp_status = (\<lambda>_ _. 0), xp_well_formed = (\<lambda>bytes. bytes = ''<event/>''),
     xp_doc = (\<lambda>_. Some demo_event_doc), xp_error = (\<lambda>_. Some ''truncated'')\<rparr>"

definition demo_mhd :: http_answers where
  "demo_mhd = \<lparr>ma_response = True, ma_queue = (\<lambda>uploading. if uploading then MHD_NO else MHD_YES), ma_malloc = True,
     ma_ctxt = True\<rparr>"

theorem http_post_answer_witness:
  "serve demo_parser demo_mhd ''/pacemaker-cloud/api/hooks'' ''POST'' [''<ev'', ''ent/>''] \<lparr>hc_con_cls = None, hc_pages = []\<rparr> =
     Inr \<lparr>hc_con_cls = None, hc_pages = [\<lparr>pg_body = [], pg_mime = Some ''application/xml'', pg_status = 200\<rparr>]\<rparr>"
proof -
  have "push_parser demo_parser" "mhd_ready demo_mhd"
    by (simp_all add: push_parser_def demo_parser_def mhd_ready_def demo_mhd_def)
  from http_post_answer [OF this, of "''/pacemaker-cloud/api/hooks''" "[''<ev'', ''ent/>'']" "\<lparr>hc_con_cls = None, hc_pages = []\<rparr>"]
  show ?thesis
    by (simp add: API_PREFIX_def post_page_def demo_parser_def demo_event_doc_def handle_event_def)
qed

end
