(* ===== verification/Cpe_Main.thy ===== *)
theory Cpe_Main
  imports Agent_Loop Cpe_Httpd "HOL-Library.Sublist"
begin

text \<open>
  The cloud policy engine as a program: \<^verbatim>\<open>main\<close> and \<open>setup\<close> of \<^verbatim>\<open>src/src/cpe_agent.cpp\<close>, the end of
  \<^verbatim>\<open>CommonAgent::init\<close>, the constructor of \<^verbatim>\<open>src/src/cpe_impl.cpp\<close>, \<^verbatim>\<open>CpeHttpd::run\<close>, and the events that then arrive:
  events of the agent session, signals, and HTTP requests. \<^verbatim>\<open>src/src/config_loader.cpp\<close> is modelled at the end.
\<close>

section \<open>Start\<close>

text \<open>
  What the program finds: the target of \<^verbatim>\<open>/sbin/init\<close> and whether the system bus answers, whether it can become a
  daemon, whether the broker accepts a connection (an exception of the library ends the program), whether
  the HTTP server can listen on a port, and the answers of libcurl.
\<close>

record cpe_answers =
  ca_init_link :: "string option"
  ca_bus :: bool
  ca_daemon :: bool
  ca_broker :: "broker_connection \<Rightarrow> bool"
  ca_httpd :: "int \<Rightarrow> bool"
  ca_curl :: curl_answers

record cpe = agent_loop +
  cp_config :: agent_config
  cp_connection :: broker_connection
  cp_session_options :: string
  cp_vendor :: string
  cp_product :: string
  cp_data :: "string list"
  cp_httpd :: bool
  cp_posted :: "(string \<times> string) option"
  cp_hook :: "string option"
  cp_pages :: "page list"

text \<open>\<^verbatim>\<open>CpeImpl::CpeImpl\<close>, on the zeroed static variables of \<^verbatim>\<open>libinit.c\<close>; the result of \<open>dbus_init\<close> is dropped.\<close>

definition cpe_impl_new :: "cpe_answers \<Rightarrow> init_state" where
  "cpe_impl_new A = snd (dbus_init (ca_init_link A) (ca_bus A)
     \<lparr>init_use_systemd = False, dbus_connection = False, dbus_sent = [], dbus_live = 0\<rparr>)"

definition dep_list :: "string list \<Rightarrow> u32" where
  "dep_list l = 0"

definition cpe_setup :: "cpe \<Rightarrow> cpe" where
  "cpe_setup s = s\<lparr>cp_data := cp_data s @ [''cpe'']\<rparr>"

text \<open>From the connection to the broker on.\<close>

definition agent_init_end :: "string \<Rightarrow> agent_config \<Rightarrow> broker_connection \<Rightarrow> init_state \<Rightarrow> cpe" where
  "agent_init_end proc_name c conn i =
     mainloop_add_qmf_session (cpe_setup
       \<lparr>al_source = False, al_registered = False, al_running = True, al_init = i, al_answers = [],
        cp_config = c, cp_connection = conn, cp_session_options = ''{interval:30}'',
        cp_vendor = ''pacemakercloud.org'', cp_product = proc_name, cp_data = [], cp_httpd = False,
        cp_posted = None, cp_hook = None, cp_pages = []\<rparr>)"

definition httpd_run :: "cpe_answers \<Rightarrow> cpe \<Rightarrow> cpe" where
  "httpd_run A s = s\<lparr>cp_httpd := ca_httpd A (http_port (cp_config s))\<rparr>"

text \<open>The program exits with a code, or enters its event loop.\<close>

definition cpe_main :: "cpe_answers \<Rightarrow> string list \<Rightarrow> (int + cpe) res" where
  "cpe_main A args =
     (let impl = cpe_impl_new A in
      case agent_init args (ca_daemon A) cpe_agent_new of
        Inl code \<Rightarrow> Inr (Inl code)
      | Inr (c, conn) \<Rightarrow>
          if \<not> ca_broker A conn then Inl AssertFail
          else
            let s = httpd_run A (agent_init_end ''cpe'' c conn impl)
            in Inr (Inr (if cp_httpd s
                         then (let (posted, hook) = register_hook (ca_curl A) c
                               in s\<lparr>cp_posted := posted, cp_hook := hook\<rparr>)
                         else s)))"

section \<open>Events\<close>

text \<open>
  What can happen while the loop runs. The HTTP server calls its handler from a thread of its own; the
  handler touches neither the agent nor the init jobs. The two signals are the ones that are registered.
\<close>

datatype cpe_label =
    L_poll "agent_event option"
  | L_signal int
  | L_http string string "string list"

inductive cpe_step :: "cpe_label \<Rightarrow> cpe \<Rightarrow> cpe \<Rightarrow> bool" where
  step_poll: "al_running s \<Longrightarrow> al_registered s \<Longrightarrow>
     poll_dispatch D (is_cpe (cp_config s)) ret event s = Inr s' \<Longrightarrow> cpe_step (L_poll event) s s'"
| step_signal: "al_running s \<Longrightarrow> g \<in> {SIGTERM, SIGHUP} \<Longrightarrow> cpe_step (L_signal g) s (snd (sig_handler g s))"
| step_http: "al_running s \<Longrightarrow> cp_httpd s \<Longrightarrow>
     serve P A url method body \<lparr>hc_con_cls = None, hc_pages = cp_pages s\<rparr> = Inr c \<Longrightarrow>
     cpe_step (L_http url method body) s (s\<lparr>cp_pages := hc_pages c\<rparr>)"

inductive_cases cpe_step_pollE: "cpe_step (L_poll event) s s'"
inductive_cases cpe_step_signalE: "cpe_step (L_signal g) s s'"
inductive_cases cpe_step_httpE: "cpe_step (L_http url method body) s s'"

inductive cpe_runs :: "cpe \<Rightarrow> cpe_label list \<Rightarrow> cpe \<Rightarrow> bool" where
  runs_nil: "cpe_runs s [] s"
| runs_snoc: "cpe_runs s ls u \<Longrightarrow> cpe_step l u v \<Longrightarrow> cpe_runs s (ls @ [l]) v"

section \<open>Method calls and their answers\<close>

fun methods_of :: "cpe_label list \<Rightarrow> (string \<times> (string \<Rightarrow> string)) list" where
  "methods_of [] = []"
| "methods_of (L_poll (Some (Agent_method m args)) # ls) = (m, args) # methods_of ls"
| "methods_of (_ # ls) = methods_of ls"

lemma methods_of_append: "methods_of (ls @ ks) = methods_of ls @ methods_of ks"
  by (induction ls rule: methods_of.induct) simp_all

text \<open>
  The message of a job as it is sent, with names cut at the size of the buffers, and the job that a method
  asks for, if it is one of the three.
\<close>

definition cut_message :: "bool \<Rightarrow> init_verb \<Rightarrow> string \<Rightarrow> string \<Rightarrow> method_call" where
  "cut_message systemd v service inst =
     (if systemd
      then (job_message True v service inst)\<lparr>mc_args :=
        [Dbus_string (snprintf SERVICE_PATH_SIZE (service @ ''@'' @ inst @ ''.service'')), Dbus_string ''replace'']\<rparr>
      else (job_message False v service inst)
        \<lparr>mc_path := snprintf SERVICE_PATH_SIZE (''/com/ubuntu/Upstart/jobs/'' @ service),
         mc_args := [Dbus_array [snprintf SERVICE_PATH_SIZE (''INSTANCE='' @ inst)], Dbus_bool True]\<rparr>)"

definition job_of :: "bool \<Rightarrow> string \<times> (string \<Rightarrow> string) \<Rightarrow> method_call list" where
  "job_of systemd call =
     map (\<lambda>v. cut_message systemd v (snd call ''monitor'') (snd call ''uuid''))
       (filter (\<lambda>v. verb_method v = fst call) [Start, Reload, Stop])"

lemma cut_message_short:
  "length service + length inst < 480 \<Longrightarrow> cut_message systemd v service inst = job_message systemd v service inst"
  by (simp add: cut_message_def job_message_def snprintf_fits SERVICE_PATH_SIZE_def)

text \<open>
  The answer to a call: with a return code exactly for the three methods, and successful exactly when that
  code is 0 or the method is not known.
\<close>

definition answered :: "string \<times> (string \<Rightarrow> string) \<Rightarrow> method_answer \<Rightarrow> bool" where
  "answered call a \<longleftrightarrow>
     (ma_rc a = None \<longleftrightarrow> fst call \<notin> range verb_method) \<and>
     (ma_success a \<longleftrightarrow> ma_rc a = None \<or> ma_rc a = Some 0)"

lemma job_of_verb: "job_of systemd (verb_method v, args) = [cut_message systemd v (args ''monitor'') (args ''uuid'')]"
  by (cases v) (simp_all add: job_of_def)

lemma init_job_sends:
  assumes "init_job v D service inst i = Inr (rc, i')"
  shows "init_use_systemd i' = init_use_systemd i \<and>
    (dbus_sent i' = dbus_sent i \<or> dbus_sent i' = dbus_sent i @ [cut_message (init_use_systemd i) v service inst])"
  using assms
  by (cases "init_use_systemd i")
    (auto simp: init_job_unfold job_defs cut_message_def job_message_def split: if_splits)

lemma unknown_method:
  assumes "m \<notin> range verb_method"
  shows "event_dispatch D (Agent_method m args) i = Inr (Some \<lparr>ma_rc = None, ma_success = True\<rparr>, i)"
proof -
  have "m \<noteq> ''deployable_start''" "m \<noteq> ''deployable_stop''" "m \<noteq> ''deployable_reload''"
    using assms verb_method.simps by (metis rangeI)+
  then show ?thesis by (simp add: event_dispatch_def)
qed

lemma method_dispatch:
  assumes "event_dispatch D (Agent_method m args) i = Inr (ans, i')"
  shows "\<exists>a. ans = Some a \<and> answered (m, args) a \<and> init_use_systemd i' = init_use_systemd i \<and>
    (dbus_sent i' = dbus_sent i \<or> dbus_sent i' = dbus_sent i @ job_of (init_use_systemd i) (m, args))"
proof (cases "m \<in> range verb_method")
  case True
  then obtain v where v: "m = verb_method v" by blast
  with assms obtain rc where "init_job v D (args ''monitor'') (args ''uuid'') i = Inr (rc, i')"
    "ans = Some \<lparr>ma_rc = Some (dep_result rc), ma_success = (dep_result rc = 0)\<rparr>"
    by (auto simp: verb_dispatch bindE_eq_Inr)
  with init_job_sends [of v] show ?thesis by (auto simp: v answered_def job_of_verb)
next
  case False
  with assms show ?thesis by (auto simp: unknown_method answered_def)
qed

section \<open>Runs\<close>

definition cpe_sound :: "agent_config \<Rightarrow> bool \<Rightarrow> cpe_label list \<Rightarrow> cpe \<Rightarrow> bool" where
  "cpe_sound c systemd ls s \<longleftrightarrow>
     cp_config s = c \<and> al_source s \<and> init_use_systemd (al_init s) = systemd \<and>
     list_all2 answered (methods_of ls) (al_answers s) \<and>
     subseq (dbus_sent (al_init s)) (concat (map (job_of systemd) (methods_of ls))) \<and>
     (al_running s \<longleftrightarrow> L_signal SIGTERM \<notin> set ls)"

lemma poll_sound:
  assumes "cpe_sound c systemd ls s" and "is_cpe c" and "poll_dispatch D (is_cpe c) ret event s = Inr s'"
  shows "cpe_sound c systemd (ls @ [L_poll event]) s'"
proof (cases event)
  case None
  with assms have "s' = (if ret < 0 then s\<lparr>al_registered := False\<rparr> else s)"
    by (simp add: cpe_sound_def poll_dispatch_def poll_for_qmf_events_def)
  with assms(1) None show ?thesis by (cases "ret < 0") (simp_all add: cpe_sound_def methods_of_append)
next
  case (Some ev)
  with assms obtain ans i where disp: "event_dispatch D ev (al_init s) = Inr (ans, i)"
    and s': "s' = (let u = s\<lparr>al_init := i, al_answers := al_answers s @ (case ans of None \<Rightarrow> [] | Some a \<Rightarrow> [a])\<rparr>
                   in if ret < 0 then u\<lparr>al_registered := False\<rparr> else u)"
    by (auto simp: poll_dispatch_def poll_for_qmf_events_def qpid_callback_def bindE_eq_Inr cpe_sound_def)
  show ?thesis
  proof (cases ev)
    case (Agent_method m args)
    from method_dispatch [OF disp [unfolded Agent_method]] obtain a where "ans = Some a" "answered (m, args) a"
      "init_use_systemd i = init_use_systemd (al_init s)"
      "dbus_sent i = dbus_sent (al_init s) \<or> dbus_sent i = dbus_sent (al_init s) @ job_of systemd (m, args)"
      using assms(1) by (auto simp: cpe_sound_def)
    with assms(1) show ?thesis
      by (auto simp: cpe_sound_def s' Some Agent_method methods_of_append Let_def intro: list_all2_appendI
          list_emb_append_mono list_emb_prefix)
  next
    case Agent_other
    with disp assms(1) show ?thesis
      by (auto simp: cpe_sound_def s' Some methods_of_append event_dispatch_def Let_def)
  qed
qed

lemma step_sound:
  assumes "cpe_step l s s'" and "cpe_sound c systemd ls s" and "is_cpe c"
  shows "cpe_sound c systemd (ls @ [l]) s'"
  using assms(1)
proof cases
  case (step_poll D ret event)
  moreover have "cp_config s = c" using assms(2) by (simp add: cpe_sound_def)
  ultimately show ?thesis using poll_sound [OF assms(2,3)] by simp
next
  case (step_signal g)
  with assms(2) show ?thesis by (auto simp: cpe_sound_def sig_handler_def signal_handler_def methods_of_append)
next
  case (step_http P A url meth bytes c)
  with assms(2) show ?thesis by (auto simp: cpe_sound_def methods_of_append)
qed

lemma runs_sound:
  assumes "cpe_runs s ls s'" and "cpe_sound c systemd [] s" and "is_cpe c"
  shows "cpe_sound c systemd ls s'"
  using assms by (induction rule: cpe_runs.induct) (auto intro: step_sound)

lemma poll_total:
  assumes "al_source s" and "message_built (init_use_systemd (al_init s)) D"
  shows "\<exists>s'. poll_dispatch D True ret event s = Inr s'"
proof -
  have "\<exists>x. event_dispatch D ev (al_init s) = Inr x" for ev
  proof (cases ev)
    case (Agent_method m args)
    have "\<exists>x. init_job v D service inst (al_init s) = Inr x" for v service inst
      using assms(2) by (cases "init_use_systemd (al_init s)"; cases "send_reply D")
        (auto simp: init_job_unfold job_defs message_built_def)
    then show ?thesis
      by (cases "m \<in> range verb_method") (auto simp: Agent_method unknown_method verb_dispatch bindE_eq_Inr, metis prod.exhaust)
  qed (simp add: event_dispatch_def)
  then obtain x where "\<And>ev. event_dispatch D ev (al_init s) = Inr (x ev)" by metis
  then show ?thesis
    using assms(1) by (cases event) (simp_all add: poll_dispatch_def poll_for_qmf_events_def qpid_callback_def case_prod_beta)
qed

lemma cpe_main_start:
  assumes "cpe_main A args = Inr (Inr s)"
  obtains conn where "agent_init args (ca_daemon A) cpe_agent_new = Inr (cp_config s, conn)"
    and "cp_connection s = conn" and "al_source s" and "al_registered s" and "al_running s" and "al_answers s = []"
    and "dbus_sent (al_init s) = []" and "cp_httpd s \<longleftrightarrow> ca_httpd A (http_port (cp_config s))"
    and "cp_posted s = (if cp_httpd s then fst (register_hook (ca_curl A) (cp_config s)) else None)"
proof -
  from assms obtain c conn where init: "agent_init args (ca_daemon A) cpe_agent_new = Inr (c, conn)"
    and s: "s = (let s = httpd_run A (agent_init_end ''cpe'' c conn (cpe_impl_new A))
      in if cp_httpd s then (let (posted, hook) = register_hook (ca_curl A) c in s\<lparr>cp_posted := posted, cp_hook := hook\<rparr>)
         else s)"
    by (auto simp: cpe_main_def Let_def split: sum.splits if_splits)
  have "dbus_sent (cpe_impl_new A) = []" by (simp add: cpe_impl_new_def dbus_init_def Let_def)
  with init s show thesis
    by (intro that [of conn])
      (auto simp: httpd_run_def agent_init_end_def cpe_setup_def mainloop_add_qmf_session_def Let_def case_prod_beta)
qed


definition demo_cpe_answers :: cpe_answers where
  "demo_cpe_answers = \<lparr>ca_init_link = Some ''../lib/systemd/systemd'', ca_bus = True, ca_daemon = True,
     ca_broker = (\<lambda>_. True), ca_httpd = (\<lambda>_. True),
     ca_curl = \<lparr>cu_init = True, cu_alloc_hook = True, cu_alloc_url = True, cu_perform = 7, cu_http_code = 0,
       cu_headers = []\<rparr>\<rparr>"


section \<open>The configuration loader\<close>

text \<open>\<open>xmlParseFile\<close> is what the parser makes of a file. Nothing calls this function.\<close>

definition config_get :: "(string \<Rightarrow> xml option) \<Rightarrow> string \<Rightarrow> int \<times> xml option" where
  "config_get xmlParseFile uuid =
     (let filename = ''/var/run/'' @ uuid @ ''.xml'';
          doc = xmlParseFile filename
      in (if doc = None then -1 else 0, doc))"

lemma config_get_code: "fst (config_get files uuid) = 0 \<longleftrightarrow> snd (config_get files uuid) \<noteq> None"
  by (simp add: config_get_def Let_def)

end
