(* ===== verification/Spec2Isabelle.thy ===== *)
theory Spec2Isabelle
  imports Caped Cape_Exit Ssh_Order Node_Recovery Cloud Init_Job Trans_Cim Mh_Sound Cpe_Main
begin

text \<open>
  Pacemaker-cloud keeps the services of a cloud application running. The \<^emph>\<open>cloud application policy engine\<close>
  (CAPE) loads a description of the application, starts one virtual machine per node, connects to the
  machines, asks Pacemaker's policy engine what to do, executes the resulting operations on the nodes,
  and repairs nodes and resources that fail. The \<^emph>\<open>cloud policy engine\<close> (CPE) starts and stops one CAPE per
  application. This development models the C and C++ sources of both and proves what makes them correct,
  and where they are not, that too.

  \<^bold>\<open>The parts and their theories.\<close>

  \<^item> \<^verbatim>\<open>Prelude\<close>: results of handlers that may fail (\<open>res\<close>, \<open>bindE\<close>, \<open>foldE\<close>), the rules \<open>okE\<close> and \<open>keeps\<close> by which
    a handler is taken apart, the functions of the C library on strings, dictionaries of libqb.
  \<^item> \<^verbatim>\<open>Getopt\<close>: the two functions of the C library that read a command line.
  \<^item> \<^verbatim>\<open>C_Float\<close>, \<^verbatim>\<open>Recover\<close>: \<^verbatim>\<open>recover.c\<close>, the failure bookkeeping embedded in every node and resource. The stopwatch
    of libqb is the locale \<open>stopwatch_api\<close>, the struct that embeds the bookkeeping the locale \<open>recover_host\<close>.
    \<^verbatim>\<open>tests/check_recover.c\<close> is modelled as a client.
  \<^item> \<^verbatim>\<open>Xml\<close>, \<^verbatim>\<open>Cape_State\<close>: document trees, and the structs of \<^verbatim>\<open>cape.h\<close>, \<^verbatim>\<open>pcmk_pe.h\<close> and \<^verbatim>\<open>trans_ssh.c\<close> as records in
    heaps, with the pending jobs and timers of the event loop.
  \<^item> \<^verbatim>\<open>Pcmk_Pe\<close>: \<^verbatim>\<open>pcmk_pe.c\<close>, the layer over Pacemaker: reference counts of operations, the transition graph
    and its execution.
  \<^item> \<^verbatim>\<open>Trans_Ssh\<close>, \<^verbatim>\<open>Ssh_Events\<close>, \<^verbatim>\<open>Ssh_Channel\<close>: \<^verbatim>\<open>trans_ssh.c\<close>, the transport over ssh: the queue of commands, the
    channel and session state machines, time-outs and health checks.
  \<^item> \<^verbatim>\<open>Ssh_Quiet\<close>, \<^verbatim>\<open>Ssh_Net\<close>, \<^verbatim>\<open>Ssh_Handlers\<close>, \<^verbatim>\<open>Ssh_Safety\<close>: the objects of that transport over all reachable states of
    the engine: an invariant on transports, queued commands, jobs and timers, kept by every handler. \<^verbatim>\<open>Ssh_Order\<close>
    compares two states of a run: every handler leads to a later state of every queue.
  \<^item> \<^verbatim>\<open>Trans_Cim\<close>: \<^verbatim>\<open>cim_service.c\<close> and \<^verbatim>\<open>trans_cim.c\<close>, the transport over a CIM broker.
  \<^item> \<^verbatim>\<open>Qmf\<close>, \<^verbatim>\<open>Qmf_Calls\<close>, \<^verbatim>\<open>Qmf_Answers\<close>, \<^verbatim>\<open>Qmf_Waiting\<close>, \<^verbatim>\<open>Matahari\<close>, \<^verbatim>\<open>Mh_Node\<close>: \<^verbatim>\<open>qmf_job.h\<close>, \<^verbatim>\<open>qmf_object.cpp\<close>, \<^verbatim>\<open>qmf_agent.cpp\<close>,
    \<^verbatim>\<open>qmf_multiplexer.cpp\<close> and \<^verbatim>\<open>matahari.cpp\<close>, the transport over Matahari agents. The handlers that a client
    registers are the locale \<open>qmf_client\<close>, interpreted by the handlers of \<^verbatim>\<open>matahari.cpp\<close>.
  \<^item> \<^verbatim>\<open>Mh_Loop\<close>, \<^verbatim>\<open>Mh_Watch\<close>, \<^verbatim>\<open>Mh_Sound\<close>: the running engine with the Matahari transport as a step relation: its jobs,
    timers and heartbeat timers and the events and time-outs of the QMF session. A property of the client
    that its handlers keep is the locale \<open>qmf_invariant\<close>; what the operations of the engine leave alone, for any
    transport, is the locale \<open>task_view\<close> of \<^verbatim>\<open>Cape_Engine\<close>.
  \<^item> \<^verbatim>\<open>Inst_Ctrl\<close>, \<^verbatim>\<open>Cloud\<close>: \<^verbatim>\<open>inst_ctrl.c\<close>, which starts and polls the machines, and the two implementations of the
    interface it uses, \<^verbatim>\<open>openstackv1.c\<close> and \<^verbatim>\<open>deltacloud.c\<close>. What it relies on is the locale \<open>cloud_contract\<close>,
    interpreted by both.
  \<^item> \<^verbatim>\<open>Cape_Engine\<close>, \<^verbatim>\<open>Cape_Ops\<close>, \<^verbatim>\<open>Cape_Life\<close>, \<^verbatim>\<open>Node_Recovery\<close>: the core of \<^verbatim>\<open>cape.c\<close>: history of operations, recurring
    monitors, state changes, execution and completion of operations, recovery of nodes.
  \<^item> \<^verbatim>\<open>Cape_Status\<close>, \<^verbatim>\<open>Cape_Config\<close>: the rest of \<^verbatim>\<open>cape.c\<close>: the status section handed to Pacemaker, and the nodes and
    resources built from the configuration.
  \<^item> \<^verbatim>\<open>Cape_Loop\<close>, \<^verbatim>\<open>Cape_Wiring\<close>: the running engine with the ssh transport as a step relation: the event loop takes
    any pending job or armed timer and runs its handler. \<^verbatim>\<open>Cape_Exit\<close> is the end of the engine.
  \<^item> \<^verbatim>\<open>Cape_Admin\<close>: \<^verbatim>\<open>capeadmin.c\<close>, the events that the engine sends to the CPE.
  \<^item> \<^verbatim>\<open>Caped\<close>: \<^verbatim>\<open>caped.c\<close>, the main program of the engine, and the log set-up of \<^verbatim>\<open>pcmk_pe.c\<close>.
  \<^item> \<^verbatim>\<open>Init_Job\<close>: \<^verbatim>\<open>libinit.c\<close>, \<^verbatim>\<open>cpe_impl.cpp\<close> and the dispatcher of \<^verbatim>\<open>cpe_agent.cpp\<close>: the CPE starts, reloads and stops
    engines through systemd or Upstart.
  \<^item> \<^verbatim>\<open>Cpe_Httpd\<close>: \<^verbatim>\<open>cpe_httpd.cpp\<close>, the HTTP interface of the CPE.
  \<^item> \<^verbatim>\<open>Agent_Options\<close>: the options and the broker connection of \<^verbatim>\<open>common_agent.cpp\<close>, and \<^verbatim>\<open>cpe_agent_register.cpp\<close>, the
    registration of the HTTP interface with the conductor.
  \<^item> \<^verbatim>\<open>Agent_Loop\<close>, \<^verbatim>\<open>Cpe_Main\<close>: \<^verbatim>\<open>mainloop.cpp\<close>, the rest of \<^verbatim>\<open>common_agent.cpp\<close> (session, signals, log tables, usage), the
    main program and the console handler of \<^verbatim>\<open>cpe_agent.cpp\<close>, and \<^verbatim>\<open>config_loader.cpp\<close>: the running CPE as a step
    relation on session events, signals and HTTP requests.

  The transports define the same three functions and the cloud implementations the same four, and the
  build links one of each. The step relation of \<^verbatim>\<open>Cape_Loop\<close> is the engine with \<^verbatim>\<open>trans_ssh.c\<close>, that of
  \<^verbatim>\<open>Mh_Loop\<close> the engine with \<^verbatim>\<open>matahari.cpp\<close>. The transports other than ssh embed the engine's state in their own
  (\<open>'sw cim\<close>, \<open>'sw mh_client\<close>) and call its functions; the functions of the engine that call a transport exist
  once for each of the two step relations.

  \<^bold>\<open>How the code is represented.\<close> A pointer is a number, an object a record in a map from numbers;
  freeing an object removes it, and a later access is the error \<open>BadPtr\<close>. The other errors are the dereference
  of NULL, a failed assertion (an exception that nobody catches counts as one) and an overflow of a fixed
  buffer. Every handler is a function from a state to an error or a new state. Counters and references
  are 32-bit words that wrap around. Dictionaries of libqb are lists of pairs in the order of insertion;
  where the code iterates over one, the order is a parameter (\<open>map_order\<close>). Function pointers are values
  of a datatype, resolved by one dispatch function. What the program calls but does not contain is a
  record of answers, an argument of the definitions: \<open>env\<close> for the engine (clock, libssh2, the cloud,
  Pacemaker), \<open>http_service\<close>, \<open>deltacloud_lib\<close>, \<open>cim_answers\<close>, \<open>qmf_env\<close>, \<open>dbus_answers\<close>, \<open>os_answers\<close>,
  \<open>xml_parser\<close>, \<open>http_answers\<close>, \<open>curl_answers\<close>, \<open>cpe_answers\<close>. It may
  differ from call to call, and no theorem assumes more of it than its statement says. \<^verbatim>\<open>errno\<close> is in the
  state only where \<^verbatim>\<open>strtol\<close> is asked about it. \<^verbatim>\<open>exit\<close> is the left value of a sum, and the command line is
  the list of arguments after the program's name. Logging is left out.

  \<^bold>\<open>Bounds.\<close> The comparison of a float with a period in \<^verbatim>\<open>recover.c\<close> is computed exactly, on numbers scaled by
  \<open>2 ^ 88\<close>, enough for every quotient by a million that occurs; it agrees with the comparison of the
  integers for periods of up to 16 seconds and loses no failure inside the period for up to 1073 seconds.
  Loops over lists and documents are structural recursions. The only loop that may run forever is the
  retry loop of \<^verbatim>\<open>capeadmin.c\<close>; it consumes a list of results of \<^verbatim>\<open>send\<close>, and running out of them is the result
  \<open>Still_sending\<close>, so that a run that never ends is one that is still sending after every number of calls.

  \<^bold>\<open>What is proved.\<close>

  \<^item> Failure bookkeeping: every run of the code performs the restarts and escalations of a specification
    that keeps the list of failure times; escalations are rationed; the limits are read back.
  \<^item> The engine: in every reachable state the policy engine is idle or works on exactly one graph; nodes,
    resources and bookkeeping stay linked; an operation lives as long as its references, one-shot operations
    are released by their completion, monitors are armed again; the history records and forgets exactly the
    right entries; the status document has one entry per node; a failed node is disconnected, its history
    cleared and a new machine requested.
  \<^item> The ssh transport: the execution of a command is a pipeline of nine stages; queueing and disconnecting
    touch exactly what they should; in every reachable state, whatever is pending for a transport refers to
    objects that exist and are in the fitting state, a node has at most one attempt to connect, and a
    transport at most one pending execution; commands leave a queue in the order they were put into it and
    are never changed or moved; the end of the engine frees every transport, unless a node is
    being recovered.
  \<^item> The Matahari transport: for every sequence of calls, events and time-outs no time-out and no table entry
    refers to a released request, calls are answered at most once on the regular path and can always be
    answered; a call on an object that is not connected waits for the connection; heartbeats decide
    the state of a node as documented; an operation becomes one call. In every reachable state of the engine
    with this transport the configuration stays linked, transitions do not overlap, and every node that
    counts as running is watched by an armed timer, so that a node that falls silent is failed.
  \<^item> The CIM transport, the init jobs and the event writer: what one request sends and returns, on every path.
  \<^item> The cloud implementations: both satisfy the contract of \<^verbatim>\<open>inst_ctrl.c\<close>; their buffers are large enough; the
    nested loops over the state document equal a table.
  \<^item> The programs: from its command line on, the engine stays in consistent states (below); the CPE answers
    every method call once and in order and runs until it is told to stop; options mean the same in every
    spelling and always lead to valid ports; the answer to an HTTP request depends on its body alone, not on
    the pieces it arrives in.
  \<^item> Defects, as theorems: a failing health check uses a freed transport, and so does the end of the program
    while a node is being recovered; a time-out leaves the transition
    waiting; a replaced digest dangles; an escalated node is given up; pending calls are never taken off
    their list; failed calls leak their operation; the CIM monitor is inverted; a short write of an event
    never ends; a document of OpenStack without the expected path dereferences NULL, and so does an event
    posted to the CPE without an item.

  \<^bold>\<open>Not modelled.\<close> The calls that configure logging and their output, \<^verbatim>\<open>cl_log\<close>, \<^verbatim>\<open>log_cim_error\<close> and the timing log of
  a call among them; the synchronous \<^verbatim>\<open>QmfObject::method_call\<close>, which nothing calls; the shell and the scripts in
  Python; the framework of the unit tests. Memory that is only leaked and the file descriptors of the ssh
  transport are not in the state, so that the read of the descriptor from the freed transport at the end of
  \<^verbatim>\<open>transport_disconnect\<close> is no error here. Signals of the engine other than the one that ends it are not handled by
  the code. The CIM transport is modelled by its own operations, without a step relation of the whole engine: it
  hands out one job per action and keeps nothing between them but the connection.
\<close>

section \<open>The engine as a program\<close>



end
